theory Spec2Isabelle
  imports Main "HOL-Library.Char_ord" "HOL-Library.List_Lexorder"
begin

section \<open>Entities, requests and the remote API\<close>

text \<open>
  The records follow \<^verbatim>\<open>types/note.ts\<close> and \<^verbatim>\<open>types/folder.ts\<close>. A field declared
  \<^verbatim>\<open>T | null\<close> is a \<open>T option\<close>; an optional field (\<^verbatim>\<open>f?: T\<close>) is an option whose
  \<open>None\<close> stands for \<^verbatim>\<open>undefined\<close>, so \<^verbatim>\<open>f?: string | null\<close> is a
  \<open>string option option\<close>. Field names carry a prefix because the source's records share
  names (\<^verbatim>\<open>id\<close>, \<^verbatim>\<open>user_id\<close>, ...).
\<close>

record Note =
  n_id :: string
  n_title :: string
  n_content :: string
  n_folder_id :: "string option"
  n_user_id :: string
  n_version :: int
  n_created_at :: string
  n_updated_at :: string
  n_size_bytes :: "nat option"

record Folder =
  f_id :: string
  f_name :: string
  f_parent_id :: "string option"
  f_path :: string
  f_user_id :: string
  f_created_at :: string
  f_updated_at :: string
  f_note_count :: "nat option"
  f_subfolder_count :: "nat option"

record create_note_request =
  cn_title :: string
  cn_content :: string
  cn_folder_id :: "string option option"

record update_note_request =
  un_title :: "string option"
  un_content :: "string option"
  un_folder_id :: "string option option"
  un_version :: int

record create_folder_request =
  cf_name :: string
  cf_parent_id :: "string option option"

record update_folder_request =
  uf_name :: "string option"
  uf_parent_id :: "string option option"

text \<open>
  The sync queue builds its create requests from an untyped payload (\<^verbatim>\<open>data: any\<close>), so a
  field of such a request may be \<^verbatim>\<open>undefined\<close> at run time although the declared type
  makes it mandatory. The two \<open>_body\<close> records are the objects that reach
  \<^verbatim>\<open>api.notes.create\<close> and \<^verbatim>\<open>api.folders.create\<close>.
\<close>

record create_note_body =
  cb_title :: "string option"
  cb_content :: "string option"
  cb_folder_id :: "string option option"

record create_folder_body =
  fb_name :: "string option"
  fb_parent_id :: "string option option"

definition noteBody :: "create_note_request \<Rightarrow> create_note_body" where
  "noteBody d = \<lparr>cb_title = Some (cn_title d), cb_content = Some (cn_content d),
                 cb_folder_id = cn_folder_id d\<rparr>"

definition folderBody :: "create_folder_request \<Rightarrow> create_folder_body" where
  "folderBody d = \<lparr>fb_name = Some (cf_name d), fb_parent_id = cf_parent_id d\<rparr>"

datatype json = JNull | JBool bool | JNum int | JStr string
  | JArr "json list" | JObj "(string \<times> json) list"

text \<open>\<^verbatim>\<open>class ApiError\<close> of \<^verbatim>\<open>services/api.ts\<close>: message, HTTP status (0 for a network
  error) and the decoded error body.\<close>

record api_error =
  e_message :: string
  e_status :: nat
  e_data :: json

text \<open>
  The remote service is outside the program. Each method of the \<^verbatim>\<open>api\<close> object is a
  parameter: a function from the arguments of the call to either the thrown
  \<open>api_error\<close> (\<open>Inl\<close>) or the decoded response (\<open>Inr\<close>).
\<close>

record api =
  notes_create :: "create_note_body \<Rightarrow> api_error + Note"
  notes_update :: "string \<Rightarrow> update_note_request \<Rightarrow> api_error + Note"
  notes_delete :: "string \<Rightarrow> api_error + unit"
  notes_move :: "string \<Rightarrow> string option option \<Rightarrow> api_error + Note"
  notes_list :: "api_error + Note list"
  folders_create :: "create_folder_body \<Rightarrow> api_error + Folder"
  folders_update :: "string \<Rightarrow> update_folder_request \<Rightarrow> api_error + Folder"
  folders_delete :: "string \<Rightarrow> api_error + unit"
  folders_move :: "string \<Rightarrow> string option option \<Rightarrow> api_error + Folder"
  folders_list :: "api_error + Folder list"

section \<open>The durable local store (services/offline.ts)\<close>

datatype op_kind = Create | Update | Delete | Move

datatype entity_kind = NoteEntity | FolderEntity

datatype op_status = Pending | Syncing | Synced | Failed

text \<open>The payload \<^verbatim>\<open>data: any\<close> of an operation, with the fields the sync queue reads
  from it.\<close>

record op_data =
  d_title :: "string option"
  d_content :: "string option"
  d_folder_id :: "string option option"
  d_version :: int
  d_name :: "string option"
  d_parent_id :: "string option option"

record operation =
  op_id :: string
  op_type :: op_kind
  entityType :: entity_kind
  entityId :: string
  data :: op_data
  timestamp :: nat
  userId :: string
  status :: op_status
  retryCount :: nat
  lastError :: "string option"

text \<open>
  IndexedDB object stores keyed by \<^verbatim>\<open>id\<close>. Notes and folders are only read and written by
  key, so they are maps. The operations are also listed (\<^verbatim>\<open>getAll\<close>), which returns the
  records in ascending key order: the store is the list of its records in that order,
  with one record per key. The store is taken to be available: the only rejection
  modelled is the explicit \<^verbatim>\<open>Operation not found\<close> of \<^verbatim>\<open>updateOperation\<close>.
\<close>

record offline_db =
  db_notes :: "string \<rightharpoonup> Note"
  db_folders :: "string \<rightharpoonup> Folder"
  db_operations :: "operation list"

fun putOperation :: "operation \<Rightarrow> operation list \<Rightarrow> operation list" where
  "putOperation x [] = [x]"
| "putOperation x (y # ys) =
     (if op_id y = op_id x then x # ys
      else if op_id x < op_id y then x # y # ys
      else y # putOperation x ys)"

fun findOperation :: "string \<Rightarrow> operation list \<Rightarrow> operation option" where
  "findOperation i [] = None"
| "findOperation i (y # ys) = (if op_id y = i then Some y else findOperation i ys)"

definition saveNote :: "Note \<Rightarrow> offline_db \<Rightarrow> offline_db" where
  "saveNote n db = db\<lparr>db_notes := (db_notes db)(n_id n \<mapsto> n)\<rparr>"

definition deleteNote :: "string \<Rightarrow> offline_db \<Rightarrow> offline_db" where
  "deleteNote i db = db\<lparr>db_notes := (db_notes db)(i := None)\<rparr>"

definition saveFolder :: "Folder \<Rightarrow> offline_db \<Rightarrow> offline_db" where
  "saveFolder f db = db\<lparr>db_folders := (db_folders db)(f_id f \<mapsto> f)\<rparr>"

definition deleteFolder :: "string \<Rightarrow> offline_db \<Rightarrow> offline_db" where
  "deleteFolder i db = db\<lparr>db_folders := (db_folders db)(i := None)\<rparr>"

definition saveOperation :: "operation \<Rightarrow> offline_db \<Rightarrow> offline_db" where
  "saveOperation x db = db\<lparr>db_operations := putOperation x (db_operations db)\<rparr>"

text \<open>\<^verbatim>\<open>getOperations(status?)\<close>: all records, or those of one status through the status
  index (still in key order).\<close>

definition getOperations :: "op_status option \<Rightarrow> offline_db \<Rightarrow> operation list" where
  "getOperations st db =
     (case st of None \<Rightarrow> db_operations db
      | Some s \<Rightarrow> filter (\<lambda>x. status x = s) (db_operations db))"

text \<open>A \<^verbatim>\<open>Partial<OfflineOperation>\<close> as the sync queue passes it: the fields it may set.
  \<open>Some None\<close> for \<open>p_lastError\<close> is the explicit \<^verbatim>\<open>lastError: undefined\<close>.\<close>

record op_patch =
  p_status :: "op_status option"
  p_retryCount :: "nat option"
  p_lastError :: "string option option"

definition applyPatch :: "op_patch \<Rightarrow> operation \<Rightarrow> operation" where
  "applyPatch p x =
     x\<lparr>status := (case p_status p of None \<Rightarrow> status x | Some s \<Rightarrow> s),
       retryCount := (case p_retryCount p of None \<Rightarrow> retryCount x | Some c \<Rightarrow> c),
       lastError := (case p_lastError p of None \<Rightarrow> lastError x | Some e \<Rightarrow> e)\<rparr>"

text \<open>\<^verbatim>\<open>updateOperation\<close> rejects with \<^verbatim>\<open>Operation not found\<close> (here \<open>None\<close>) when the
  key is absent.\<close>

definition updateOperation :: "string \<Rightarrow> op_patch \<Rightarrow> offline_db \<Rightarrow> offline_db option" where
  "updateOperation i p db =
     (case findOperation i (db_operations db) of
        None \<Rightarrow> None
      | Some x \<Rightarrow> Some (db\<lparr>db_operations := putOperation (applyPatch p x) (db_operations db)\<rparr>))"

definition deleteOperation :: "string \<Rightarrow> offline_db \<Rightarrow> offline_db" where
  "deleteOperation i db = db\<lparr>db_operations := filter (\<lambda>x. op_id x \<noteq> i) (db_operations db)\<rparr>"

section \<open>The projection (stores/contentStore.ts)\<close>

text \<open>What is thrown: an \<^verbatim>\<open>ApiError\<close> of the API client or a plain \<^verbatim>\<open>Error\<close> with its
  message.\<close>

datatype thrown = ApiFailure api_error | PlainError string

fun message :: "thrown \<Rightarrow> string" where
  "message (ApiFailure e) = e_message e"
| "message (PlainError m) = m"

datatype entity = NoteData Note | FolderData Folder

datatype opt_status = OptPending | OptSuccess | OptError

record optimistic_operation =
  oo_id :: string
  oo_type :: op_kind
  oo_entityType :: entity_kind
  oo_entityId :: string
  oo_timestamp :: nat
  originalData :: "entity option"
  newData :: "entity option"
  oo_status :: opt_status
  oo_error :: "string option"

datatype timer_action = ProcessPendingOperations | DeleteOperation string
  | RemoveOptimisticOp string

text \<open>\<^verbatim>\<open>ContentState\<close>, and in \<open>cs_timers\<close> the timers the store has set with
  \<^verbatim>\<open>setTimeout\<close> (delay in milliseconds and callback), oldest first.\<close>

record content_state =
  cs_notes :: "string \<rightharpoonup> Note"
  cs_folders :: "string \<rightharpoonup> Folder"
  selectedNoteId :: "string option"
  selectedFolderId :: "string option"
  searchQuery :: string
  isLoading :: bool
  cs_error :: "string option"
  optimisticOps :: "optimistic_operation list"
  cs_timers :: "(nat \<times> timer_action) list"

definition initialState :: content_state where
  "initialState = \<lparr>cs_notes = Map.empty, cs_folders = Map.empty, selectedNoteId = None,
     selectedFolderId = None, searchQuery = [], isLoading = False, cs_error = None,
     optimisticOps = [], cs_timers = []\<rparr>"

text \<open>
  \<^verbatim>\<open>Object.assign(target, updates)\<close> on a stored note. Every caller passes a whole
  \<^verbatim>\<open>Note\<close> (or, through \<^verbatim>\<open>originalData: any\<close>, a whole \<^verbatim>\<open>Folder\<close>): each field
  present in the source object overwrites the target's, an absent optional field leaves
  it. Fields of a folder that the note record does not declare are not represented.
\<close>

fun assignNote :: "Note \<Rightarrow> entity \<Rightarrow> Note" where
  "assignNote t (NoteData u) =
     u\<lparr>n_size_bytes := (case n_size_bytes u of None \<Rightarrow> n_size_bytes t | Some b \<Rightarrow> Some b)\<rparr>"
| "assignNote t (FolderData g) =
     t\<lparr>n_id := f_id g, n_user_id := f_user_id g, n_created_at := f_created_at g,
       n_updated_at := f_updated_at g\<rparr>"

fun assignFolder :: "Folder \<Rightarrow> entity \<Rightarrow> Folder" where
  "assignFolder t (FolderData u) =
     u\<lparr>f_note_count := (case f_note_count u of None \<Rightarrow> f_note_count t | Some c \<Rightarrow> Some c),
       f_subfolder_count :=
         (case f_subfolder_count u of None \<Rightarrow> f_subfolder_count t | Some c \<Rightarrow> Some c)\<rparr>"
| "assignFolder t (NoteData n) =
     t\<lparr>f_id := n_id n, f_user_id := n_user_id n, f_created_at := n_created_at n,
       f_updated_at := n_updated_at n\<rparr>"

definition setNotes :: "Note list \<Rightarrow> content_state \<Rightarrow> content_state" where
  "setNotes ns cs = cs\<lparr>cs_notes := fold (\<lambda>n m. m(n_id n \<mapsto> n)) ns Map.empty\<rparr>"

definition addNote :: "Note \<Rightarrow> content_state \<Rightarrow> content_state" where
  "addNote n cs = cs\<lparr>cs_notes := (cs_notes cs)(n_id n \<mapsto> n)\<rparr>"

definition updateNote :: "string \<Rightarrow> entity \<Rightarrow> content_state \<Rightarrow> content_state" where
  "updateNote i u cs =
     (case cs_notes cs i of None \<Rightarrow> cs
      | Some n \<Rightarrow> cs\<lparr>cs_notes := (cs_notes cs)(i \<mapsto> assignNote n u)\<rparr>)"

definition removeNote :: "string \<Rightarrow> content_state \<Rightarrow> content_state" where
  "removeNote i cs =
     cs\<lparr>cs_notes := (cs_notes cs)(i := None),
        selectedNoteId := (if selectedNoteId cs = Some i then None else selectedNoteId cs)\<rparr>"

definition setFolders :: "Folder list \<Rightarrow> content_state \<Rightarrow> content_state" where
  "setFolders gs cs = cs\<lparr>cs_folders := fold (\<lambda>g m. m(f_id g \<mapsto> g)) gs Map.empty\<rparr>"

definition addFolder :: "Folder \<Rightarrow> content_state \<Rightarrow> content_state" where
  "addFolder g cs = cs\<lparr>cs_folders := (cs_folders cs)(f_id g \<mapsto> g)\<rparr>"

definition updateFolder :: "string \<Rightarrow> entity \<Rightarrow> content_state \<Rightarrow> content_state" where
  "updateFolder i u cs =
     (case cs_folders cs i of None \<Rightarrow> cs
      | Some g \<Rightarrow> cs\<lparr>cs_folders := (cs_folders cs)(i \<mapsto> assignFolder g u)\<rparr>)"

definition removeFolder :: "string \<Rightarrow> content_state \<Rightarrow> content_state" where
  "removeFolder i cs =
     cs\<lparr>cs_folders := (cs_folders cs)(i := None),
        selectedFolderId := (if selectedFolderId cs = Some i then None else selectedFolderId cs)\<rparr>"

definition setLoading :: "bool \<Rightarrow> content_state \<Rightarrow> content_state" where
  "setLoading b cs = cs\<lparr>isLoading := b\<rparr>"

definition setError :: "string option \<Rightarrow> content_state \<Rightarrow> content_state" where
  "setError e cs = cs\<lparr>cs_error := e\<rparr>"

text \<open>\<^verbatim>\<open>addOptimisticOp\<close> stamps the record with \<^verbatim>\<open>Date.now()\<close>, here \<open>now\<close>.\<close>

definition addOptimisticOp :: "optimistic_operation \<Rightarrow> nat \<Rightarrow> content_state \<Rightarrow> content_state" where
  "addOptimisticOp x now cs = cs\<lparr>optimisticOps := optimisticOps cs @ [x\<lparr>oo_timestamp := now\<rparr>]\<rparr>"

text \<open>The two patches \<^verbatim>\<open>updateOptimisticOp\<close> is called with: \<^verbatim>\<open>{status}\<close> and
  \<^verbatim>\<open>{status, error}\<close>. The first record with the id is the one changed.\<close>

fun patchFirst :: "string \<Rightarrow> opt_status \<Rightarrow> string option \<Rightarrow> optimistic_operation list
    \<Rightarrow> optimistic_operation list" where
  "patchFirst i st e [] = []"
| "patchFirst i st e (x # xs) =
     (if oo_id x = i
      then x\<lparr>oo_status := st, oo_error := (case e of None \<Rightarrow> oo_error x | Some m \<Rightarrow> Some m)\<rparr> # xs
      else x # patchFirst i st e xs)"

definition updateOptimisticOp :: "string \<Rightarrow> opt_status \<Rightarrow> string option \<Rightarrow> content_state
    \<Rightarrow> content_state" where
  "updateOptimisticOp i st e cs = cs\<lparr>optimisticOps := patchFirst i st e (optimisticOps cs)\<rparr>"

definition removeOptimisticOp :: "string \<Rightarrow> content_state \<Rightarrow> content_state" where
  "removeOptimisticOp i cs = cs\<lparr>optimisticOps := filter (\<lambda>x. oo_id x \<noteq> i) (optimisticOps cs)\<rparr>"

definition setTimeout :: "timer_action \<Rightarrow> nat \<Rightarrow> content_state \<Rightarrow> content_state" where
  "setTimeout a ms cs = cs\<lparr>cs_timers := cs_timers cs @ [(ms, a)]\<rparr>"

text \<open>\<^verbatim>\<open>x || null\<close> on an optional nullable string: the empty string is falsy too.\<close>

definition orNull :: "string option option \<Rightarrow> string option" where
  "orNull v = (case v of Some (Some s) \<Rightarrow> (if s = [] then None else Some s) | _ \<Rightarrow> None)"

text \<open>The settlement shared by the optimistic mutations: on success mark the record
  \<^verbatim>\<open>success\<close> and drop it after one second, on failure mark it \<^verbatim>\<open>error\<close> with the
  message and drop it after five.\<close>

definition markSuccess :: "string \<Rightarrow> content_state \<Rightarrow> content_state" where
  "markSuccess opId cs = setTimeout (RemoveOptimisticOp opId) 1000 (updateOptimisticOp opId OptSuccess None cs)"

definition markError :: "string \<Rightarrow> api_error \<Rightarrow> content_state \<Rightarrow> content_state" where
  "markError opId e cs =
     setTimeout (RemoveOptimisticOp opId) 5000 (updateOptimisticOp opId OptError (Some (e_message e)) cs)"

subsection \<open>Optimistic mutations\<close>

text \<open>
  Each mutation is the source's \<^verbatim>\<open>async\<close> function run from start to end, with what the
  environment supplies as arguments: the API, the ids drawn by \<^verbatim>\<open>generateId()\<close>, the
  strings of \<^verbatim>\<open>new Date().toISOString()\<close> and the \<^verbatim>\<open>Date.now()\<close> of the log record.
  The result pairs what the promise settles with (\<open>Inl\<close>: rejected) and the store.
\<close>

text \<open>The record a mutation hands to \<^verbatim>\<open>addOptimisticOp\<close>: it has no timestamp yet
  (the \<open>0\<close> is overwritten there) and its status is \<^verbatim>\<open>pending\<close>.\<close>

definition optimisticOp :: "string \<Rightarrow> op_kind \<Rightarrow> entity_kind \<Rightarrow> string \<Rightarrow> entity option
    \<Rightarrow> entity option \<Rightarrow> optimistic_operation" where
  "optimisticOp opId k t i orig new =
     \<lparr>oo_id = opId, oo_type = k, oo_entityType = t, oo_entityId = i, oo_timestamp = 0,
      originalData = orig, newData = new, oo_status = OptPending, oo_error = None\<rparr>"

definition createNoteOptimistic :: "api \<Rightarrow> string \<Rightarrow> string \<Rightarrow> string \<Rightarrow> string \<Rightarrow> nat
    \<Rightarrow> create_note_request \<Rightarrow> content_state \<Rightarrow> (thrown + Note) \<times> content_state" where
  "createNoteOptimistic a tempId opId iso1 iso2 now d cs =
     (let optimisticNote = \<lparr>n_id = tempId, n_title = cn_title d, n_content = cn_content d,
            n_folder_id = orNull (cn_folder_id d), n_user_id = ''current_user'', n_version = 1,
            n_created_at = iso1, n_updated_at = iso2, n_size_bytes = None\<rparr>;
          cs1 = addNote optimisticNote cs;
          cs2 = addOptimisticOp
                  (optimisticOp opId Create NoteEntity tempId None (Some (NoteData optimisticNote)))
                  now cs1
      in case notes_create a (noteBody d) of
           Inr createdNote \<Rightarrow>
             (Inr createdNote, markSuccess opId (addNote createdNote (removeNote tempId cs2)))
         | Inl e \<Rightarrow> (Inl (ApiFailure e), markError opId e (removeNote tempId cs2)))"

definition updateNoteOptimistic :: "api \<Rightarrow> string \<Rightarrow> string \<Rightarrow> nat \<Rightarrow> string
    \<Rightarrow> update_note_request \<Rightarrow> content_state \<Rightarrow> (thrown + Note) \<times> content_state" where
  "updateNoteOptimistic a opId isoNow now i d cs =
     (case cs_notes cs i of
        None \<Rightarrow> (Inl (PlainError ''Note not found''), cs)
      | Some currentNote \<Rightarrow>
         (let optimisticNote = currentNote
                \<lparr>n_title := (case un_title d of None \<Rightarrow> n_title currentNote | Some t \<Rightarrow> t),
                 n_content := (case un_content d of None \<Rightarrow> n_content currentNote | Some c \<Rightarrow> c),
                 n_folder_id :=
                   (case un_folder_id d of None \<Rightarrow> n_folder_id currentNote | Some g \<Rightarrow> g),
                 n_updated_at := isoNow, n_version := un_version d\<rparr>;
              cs1 = updateNote i (NoteData optimisticNote) cs;
              cs2 = addOptimisticOp
                      (optimisticOp opId Update NoteEntity i (Some (NoteData currentNote))
                         (Some (NoteData optimisticNote)))
                      now cs1
          in case notes_update a i d of
               Inr updatedNote \<Rightarrow>
                 (Inr updatedNote, markSuccess opId (updateNote i (NoteData updatedNote) cs2))
             | Inl e \<Rightarrow>
                 (Inl (ApiFailure e), markError opId e (updateNote i (NoteData currentNote) cs2))))"

definition deleteNoteOptimistic :: "api \<Rightarrow> string \<Rightarrow> nat \<Rightarrow> string \<Rightarrow> content_state
    \<Rightarrow> (thrown + unit) \<times> content_state" where
  "deleteNoteOptimistic a opId now i cs =
     (case cs_notes cs i of
        None \<Rightarrow> (Inl (PlainError ''Note not found''), cs)
      | Some currentNote \<Rightarrow>
         (let cs1 = removeNote i cs;
              cs2 = addOptimisticOp
                      (optimisticOp opId Delete NoteEntity i (Some (NoteData currentNote)) None)
                      now cs1
          in case notes_delete a i of
               Inr _ \<Rightarrow> (Inr (), markSuccess opId cs2)
             | Inl e \<Rightarrow> (Inl (ApiFailure e), markError opId e (addNote currentNote cs2))))"

definition moveNoteOptimistic :: "api \<Rightarrow> string \<Rightarrow> string \<Rightarrow> nat \<Rightarrow> string \<Rightarrow> string option
    \<Rightarrow> content_state \<Rightarrow> (thrown + Note) \<times> content_state" where
  "moveNoteOptimistic a opId isoNow now i folderId cs =
     (case cs_notes cs i of
        None \<Rightarrow> (Inl (PlainError ''Note not found''), cs)
      | Some currentNote \<Rightarrow>
         (let optimisticNote = currentNote\<lparr>n_folder_id := folderId, n_updated_at := isoNow\<rparr>;
              cs1 = updateNote i (NoteData optimisticNote) cs;
              cs2 = addOptimisticOp
                      (optimisticOp opId Move NoteEntity i (Some (NoteData currentNote))
                         (Some (NoteData optimisticNote)))
                      now cs1
          in case notes_move a i (Some folderId) of
               Inr movedNote \<Rightarrow>
                 (Inr movedNote, markSuccess opId (updateNote i (NoteData movedNote) cs2))
             | Inl e \<Rightarrow>
                 (Inl (ApiFailure e), markError opId e (updateNote i (NoteData currentNote) cs2))))"

text \<open>\<^verbatim>\<open>data.parent_id ? `/${data.name}` : data.name\<close>: a non-empty parent id is truthy.\<close>

definition createFolderOptimistic :: "api \<Rightarrow> string \<Rightarrow> string \<Rightarrow> string \<Rightarrow> string \<Rightarrow> nat
    \<Rightarrow> create_folder_request \<Rightarrow> content_state \<Rightarrow> (thrown + Folder) \<times> content_state" where
  "createFolderOptimistic a tempId opId iso1 iso2 now d cs =
     (let optimisticFolder = \<lparr>f_id = tempId, f_name = cf_name d,
            f_parent_id = orNull (cf_parent_id d),
            f_path = (if orNull (cf_parent_id d) \<noteq> None then ''/'' @ cf_name d else cf_name d),
            f_user_id = ''current_user'', f_created_at = iso1, f_updated_at = iso2,
            f_note_count = None, f_subfolder_count = None\<rparr>;
          cs1 = addFolder optimisticFolder cs;
          cs2 = addOptimisticOp
                  (optimisticOp opId Create FolderEntity tempId None
                     (Some (FolderData optimisticFolder)))
                  now cs1
      in case folders_create a (folderBody d) of
           Inr createdFolder \<Rightarrow>
             (Inr createdFolder, markSuccess opId (addFolder createdFolder (removeFolder tempId cs2)))
         | Inl e \<Rightarrow> (Inl (ApiFailure e), markError opId e (removeFolder tempId cs2)))"

definition updateFolderOptimistic :: "api \<Rightarrow> string \<Rightarrow> string \<Rightarrow> nat \<Rightarrow> string
    \<Rightarrow> update_folder_request \<Rightarrow> content_state \<Rightarrow> (thrown + Folder) \<times> content_state" where
  "updateFolderOptimistic a opId isoNow now i d cs =
     (case cs_folders cs i of
        None \<Rightarrow> (Inl (PlainError ''Folder not found''), cs)
      | Some currentFolder \<Rightarrow>
         (let optimisticFolder = currentFolder
                \<lparr>f_name := (case uf_name d of None \<Rightarrow> f_name currentFolder | Some n \<Rightarrow> n),
                 f_parent_id :=
                   (case uf_parent_id d of None \<Rightarrow> f_parent_id currentFolder | Some g \<Rightarrow> g),
                 f_updated_at := isoNow\<rparr>;
              cs1 = updateFolder i (FolderData optimisticFolder) cs;
              cs2 = addOptimisticOp
                      (optimisticOp opId Update FolderEntity i (Some (FolderData currentFolder))
                         (Some (FolderData optimisticFolder)))
                      now cs1
          in case folders_update a i d of
               Inr updatedFolder \<Rightarrow>
                 (Inr updatedFolder, markSuccess opId (updateFolder i (FolderData updatedFolder) cs2))
             | Inl e \<Rightarrow>
                 (Inl (ApiFailure e),
                  markError opId e (updateFolder i (FolderData currentFolder) cs2))))"

definition deleteFolderOptimistic :: "api \<Rightarrow> string \<Rightarrow> nat \<Rightarrow> string \<Rightarrow> content_state
    \<Rightarrow> (thrown + unit) \<times> content_state" where
  "deleteFolderOptimistic a opId now i cs =
     (case cs_folders cs i of
        None \<Rightarrow> (Inl (PlainError ''Folder not found''), cs)
      | Some currentFolder \<Rightarrow>
         (let cs1 = removeFolder i cs;
              cs2 = addOptimisticOp
                      (optimisticOp opId Delete FolderEntity i (Some (FolderData currentFolder)) None)
                      now cs1
          in case folders_delete a i of
               Inr _ \<Rightarrow> (Inr (), markSuccess opId cs2)
             | Inl e \<Rightarrow> (Inl (ApiFailure e), markError opId e (addFolder currentFolder cs2))))"

definition moveFolderOptimistic :: "api \<Rightarrow> string \<Rightarrow> string \<Rightarrow> nat \<Rightarrow> string \<Rightarrow> string option
    \<Rightarrow> content_state \<Rightarrow> (thrown + Folder) \<times> content_state" where
  "moveFolderOptimistic a opId isoNow now i parentId cs =
     (case cs_folders cs i of
        None \<Rightarrow> (Inl (PlainError ''Folder not found''), cs)
      | Some currentFolder \<Rightarrow>
         (let optimisticFolder = currentFolder\<lparr>f_parent_id := parentId, f_updated_at := isoNow\<rparr>;
              cs1 = updateFolder i (FolderData optimisticFolder) cs;
              cs2 = addOptimisticOp
                      (optimisticOp opId Move FolderEntity i (Some (FolderData currentFolder))
                         (Some (FolderData optimisticFolder)))
                      now cs1
          in case folders_move a i (Some parentId) of
               Inr movedFolder \<Rightarrow>
                 (Inr movedFolder, markSuccess opId (updateFolder i (FolderData movedFolder) cs2))
             | Inl e \<Rightarrow>
                 (Inl (ApiFailure e),
                  markError opId e (updateFolder i (FolderData currentFolder) cs2))))"

subsection \<open>Refresh and conflict resolution in the store\<close>

definition syncNotes :: "api \<Rightarrow> content_state \<Rightarrow> (thrown + unit) \<times> content_state" where
  "syncNotes a cs =
     (case notes_list a of
        Inr ns \<Rightarrow> (Inr (), setLoading False (setError None (setNotes ns (setLoading True cs))))
      | Inl e \<Rightarrow>
          (Inl (ApiFailure e), setLoading False (setError (Some (e_message e)) (setLoading True cs))))"

definition syncFolders :: "api \<Rightarrow> content_state \<Rightarrow> (thrown + unit) \<times> content_state" where
  "syncFolders a cs =
     (case folders_list a of
        Inr gs \<Rightarrow> (Inr (), setLoading False (setError None (setFolders gs (setLoading True cs))))
      | Inl e \<Rightarrow>
          (Inl (ApiFailure e), setLoading False (setError (Some (e_message e)) (setLoading True cs))))"

datatype resolution = Accept | Reject

definition resolveConflict :: "string \<Rightarrow> resolution \<Rightarrow> content_state \<Rightarrow> content_state" where
  "resolveConflict opId r cs =
     (case find (\<lambda>x. oo_id x = opId) (optimisticOps cs) of
        None \<Rightarrow> cs
      | Some x \<Rightarrow>
          setTimeout (RemoveOptimisticOp opId) 1000
            (case r of
               Accept \<Rightarrow> updateOptimisticOp opId OptSuccess None cs
             | Reject \<Rightarrow>
                 updateOptimisticOp opId OptError (Some ''Rejected by user'')
                   (case originalData x of
                      None \<Rightarrow> cs
                    | Some orig \<Rightarrow>
                        (if oo_entityType x = NoteEntity then updateNote (oo_entityId x) orig cs
                         else updateFolder (oo_entityId x) orig cs))))"

section \<open>The sync queue (services/syncQueue.ts)\<close>

record sync_queue_options =
  o_maxRetries :: "nat option"
  o_retryDelayMs :: "nat option"
  o_maxConcurrentSync :: "nat option"
  o_syncIntervalMs :: "nat option"

record sync_config =
  maxRetries :: nat
  retryDelayMs :: nat
  maxConcurrentSync :: nat
  syncIntervalMs :: nat

text \<open>\<^verbatim>\<open>options.x || d\<close>: a missing option and the falsy \<open>0\<close> both give the default.\<close>

definition orDefault :: "nat option \<Rightarrow> nat \<Rightarrow> nat" where
  "orDefault v d = (case v of None \<Rightarrow> d | Some n \<Rightarrow> (if n = 0 then d else n))"

definition constructor :: "sync_queue_options \<Rightarrow> sync_config" where
  "constructor options =
     \<lparr>maxRetries = orDefault (o_maxRetries options) 3,
      retryDelayMs = orDefault (o_retryDelayMs options) 5000,
      maxConcurrentSync = orDefault (o_maxConcurrentSync options) 3,
      syncIntervalMs = orDefault (o_syncIntervalMs options) 30000\<rparr>"

record conflict =
  operationId :: string
  localData :: op_data
  remoteData :: json
  field :: string

record sync_result =
  success :: bool
  r_error :: "string option"
  conflicts :: "conflict list"

datatype sync_event = OperationQueued operation | SyncStarted
  | SyncCompleted bool nat "nat option" | OperationSynced operation
  | OperationFailed operation thrown | ConflictEvent operation "conflict list"
  | OperationCancelled string

text \<open>
  The state the service works on: the projection, the durable store, its own fields,
  the events it has emitted and the timers it has set (oldest first). \<open>running\<close> holds
  the calls of \<^verbatim>\<open>processOperation\<close> that have been started and have not settled, each
  with the operation object it was started with.
\<close>

record sync_state =
  content :: content_state
  storage :: offline_db
  activeSyncCount :: nat
  isOnline :: bool
  isSyncing :: bool
  emitted :: "sync_event list"
  timers :: "(nat \<times> timer_action) list"
  running :: "operation list"

definition emit :: "sync_event \<Rightarrow> sync_state \<Rightarrow> sync_state" where
  "emit e s = s\<lparr>emitted := emitted s @ [e]\<rparr>"

definition schedule :: "timer_action \<Rightarrow> nat \<Rightarrow> sync_state \<Rightarrow> sync_state" where
  "schedule a ms s = s\<lparr>timers := timers s @ [(ms, a)]\<rparr>"

subsection \<open>Operation ids\<close>

text \<open>The decimal digits of a number, as the template literal prints \<^verbatim>\<open>Date.now()\<close>.\<close>

definition digits :: string where
  "digits = ''0123456789''"

fun decimal :: "nat \<Rightarrow> string" where
  "decimal n =
     (if n < 10 then [digits ! n] else decimal (n div 10) @ [digits ! (n mod 10)])"

declare decimal.simps [simp del]

text \<open>\<^verbatim>\<open>`op_${Date.now()}_${Math.random().toString(36).substr(2, 9)}`\<close>: \<open>now\<close> is the
  clock and \<open>rnd\<close> the random suffix.\<close>

definition generateOpId :: "nat \<Rightarrow> string \<Rightarrow> string" where
  "generateOpId now rnd = ''op_'' @ decimal now @ ''_'' @ rnd"

subsection \<open>Enqueueing\<close>

text \<open>\<open>now\<close> and \<open>rnd\<close> make the id, \<open>now'\<close> is the second \<^verbatim>\<open>Date.now()\<close>, the timestamp.
  The caller's record is spread first, so whatever it holds in the four fields is
  overwritten. \<^verbatim>\<open>setImmediate\<close> is a timer of delay 0.\<close>

definition queueOperation :: "sync_config \<Rightarrow> nat \<Rightarrow> string \<Rightarrow> nat \<Rightarrow> operation \<Rightarrow> sync_state
    \<Rightarrow> string \<times> sync_state" where
  "queueOperation cfg now rnd now' x s =
     (let i = generateOpId now rnd;
          fullOperation = x\<lparr>op_id := i, timestamp := now', status := Pending, retryCount := 0\<rparr>;
          s1 = s\<lparr>storage := saveOperation fullOperation (storage s)\<rparr>;
          s2 = emit (OperationQueued fullOperation) s1
      in (i, if isOnline s2 \<and> activeSyncCount s2 < maxConcurrentSync cfg
             then schedule ProcessPendingOperations 0 s2 else s2))"

subsection \<open>The loop of a drain\<close>

text \<open>The \<^verbatim>\<open>for\<close> loop of \<^verbatim>\<open>processPendingOperations\<close>. It does not await the calls it
  starts, so during the loop only \<^verbatim>\<open>activeSyncCount\<close> changes. The result is the counter
  after the loop and the operations started, in the order they were started.\<close>

fun dispatchLoop :: "sync_config \<Rightarrow> nat \<Rightarrow> operation list \<Rightarrow> nat \<times> operation list" where
  "dispatchLoop cfg active [] = (active, [])"
| "dispatchLoop cfg active (x # xs) =
     (if active \<ge> maxConcurrentSync cfg then (active, [])
      else if retryCount x \<ge> maxRetries cfg then dispatchLoop cfg active xs
      else (let (active', started) = dispatchLoop cfg (active + 1) xs
            in (active', x # started)))"

text \<open>\<^verbatim>\<open>[...pendingOps, ...failedOps].sort((a, b) => a.timestamp - b.timestamp)\<close>; the sort
  is stable.\<close>

definition allOps :: "offline_db \<Rightarrow> operation list" where
  "allOps db = sort_key timestamp (getOperations (Some Pending) db @ getOperations (Some Failed) db)"

subsection \<open>Executing one operation\<close>

text \<open>The \<^verbatim>\<open>createData\<close> objects built from the payload of a create operation.\<close>

definition noteCreateData :: "op_data \<Rightarrow> create_note_body" where
  "noteCreateData d = \<lparr>cb_title = d_title d, cb_content = d_content d,
                         cb_folder_id = d_folder_id d\<rparr>"

definition folderCreateData :: "op_data \<Rightarrow> create_folder_body" where
  "folderCreateData d = \<lparr>fb_name = d_name d, fb_parent_id = d_parent_id d\<rparr>"

definition succeeded :: sync_result where
  "succeeded = \<lparr>success = True, r_error = None, conflicts = []\<rparr>"

text \<open>The operation kind is one of the four, so the \<^verbatim>\<open>default\<close> branch of the
  \<^verbatim>\<open>switch\<close> cannot be taken. A call that throws leaves the state as it was.\<close>

definition executeNoteOperation :: "api \<Rightarrow> op_kind \<Rightarrow> string \<Rightarrow> op_data \<Rightarrow> sync_state
    \<Rightarrow> (api_error + sync_result) \<times> sync_state" where
  "executeNoteOperation a k i d s =
     (case k of
        Create \<Rightarrow>
          (case notes_create a (noteCreateData d) of
             Inl e \<Rightarrow> (Inl e, s)
           | Inr createdNote \<Rightarrow>
               (Inr succeeded,
                s\<lparr>content := addNote createdNote (removeNote i (content s)),
                  storage := saveNote createdNote (deleteNote i (storage s))\<rparr>))
      | Update \<Rightarrow>
          (case notes_update a i \<lparr>un_title = d_title d, un_content = d_content d,
                                  un_folder_id = d_folder_id d, un_version = d_version d\<rparr> of
             Inl e \<Rightarrow> (Inl e, s)
           | Inr updatedNote \<Rightarrow>
               (Inr succeeded,
                s\<lparr>content := updateNote i (NoteData updatedNote) (content s),
                  storage := saveNote updatedNote (storage s)\<rparr>))
      | Delete \<Rightarrow>
          (case notes_delete a i of
             Inl e \<Rightarrow> (Inl e, s)
           | Inr _ \<Rightarrow>
               (Inr succeeded,
                s\<lparr>content := removeNote i (content s), storage := deleteNote i (storage s)\<rparr>))
      | Move \<Rightarrow>
          (case notes_move a i (d_folder_id d) of
             Inl e \<Rightarrow> (Inl e, s)
           | Inr movedNote \<Rightarrow>
               (Inr succeeded,
                s\<lparr>content := updateNote i (NoteData movedNote) (content s),
                  storage := saveNote movedNote (storage s)\<rparr>)))"

definition executeFolderOperation :: "api \<Rightarrow> op_kind \<Rightarrow> string \<Rightarrow> op_data \<Rightarrow> sync_state
    \<Rightarrow> (api_error + sync_result) \<times> sync_state" where
  "executeFolderOperation a k i d s =
     (case k of
        Create \<Rightarrow>
          (case folders_create a (folderCreateData d) of
             Inl e \<Rightarrow> (Inl e, s)
           | Inr createdFolder \<Rightarrow>
               (Inr succeeded,
                s\<lparr>content := addFolder createdFolder (removeFolder i (content s)),
                  storage := saveFolder createdFolder (deleteFolder i (storage s))\<rparr>))
      | Update \<Rightarrow>
          (case folders_update a i \<lparr>uf_name = d_name d, uf_parent_id = d_parent_id d\<rparr> of
             Inl e \<Rightarrow> (Inl e, s)
           | Inr updatedFolder \<Rightarrow>
               (Inr succeeded,
                s\<lparr>content := updateFolder i (FolderData updatedFolder) (content s),
                  storage := saveFolder updatedFolder (storage s)\<rparr>))
      | Delete \<Rightarrow>
          (case folders_delete a i of
             Inl e \<Rightarrow> (Inl e, s)
           | Inr _ \<Rightarrow>
               (Inr succeeded,
                s\<lparr>content := removeFolder i (content s), storage := deleteFolder i (storage s)\<rparr>))
      | Move \<Rightarrow>
          (case folders_move a i (d_parent_id d) of
             Inl e \<Rightarrow> (Inl e, s)
           | Inr movedFolder \<Rightarrow>
               (Inr succeeded,
                s\<lparr>content := updateFolder i (FolderData movedFolder) (content s),
                  storage := saveFolder movedFolder (storage s)\<rparr>)))"

definition handleConflict :: "operation \<Rightarrow> json \<Rightarrow> sync_state \<Rightarrow> sync_result \<times> sync_state" where
  "handleConflict x conflictData s =
     (let cs = [\<lparr>operationId = op_id x, localData = data x, remoteData = conflictData,
                 field = ''content''\<rparr>]
      in (\<lparr>success = False, r_error = Some ''Conflict detected'', conflicts = cs\<rparr>,
          emit (ConflictEvent x cs) s))"

text \<open>\<^verbatim>\<open>executeOperation\<close>: first its \<^verbatim>\<open>try\<close> block, then the whole. The entity type is
  one of the two, so the \<^verbatim>\<open>Unknown entity type\<close> branch cannot be taken. Only an
  \<^verbatim>\<open>ApiError\<close> can carry the status 409.\<close>

definition executeOperationTry :: "api \<Rightarrow> operation \<Rightarrow> sync_state
    \<Rightarrow> (api_error + sync_result) \<times> sync_state" where
  "executeOperationTry a x s =
     (if entityType x = NoteEntity
      then executeNoteOperation a (op_type x) (entityId x) (data x) s
      else executeFolderOperation a (op_type x) (entityId x) (data x) s)"

definition executeOperation :: "api \<Rightarrow> operation \<Rightarrow> sync_state
    \<Rightarrow> (api_error + sync_result) \<times> sync_state" where
  "executeOperation a x s =
     (case executeOperationTry a x s of
        (Inl e, s') \<Rightarrow>
          (if e_status e = 409
           then (let (r, s'') = handleConflict x (e_data e) s' in (Inr r, s''))
           else (Inl e, s'))
      | (Inr r, s') \<Rightarrow> (Inr r, s'))"

subsection \<open>One call, and the run that starts it\<close>

text \<open>
  The \<^verbatim>\<open>catch\<close> block of \<^verbatim>\<open>processOperation\<close>, entered with the error \<open>err\<close>. It counts
  from the retry count of the operation object the call was started with. When its own
  \<^verbatim>\<open>updateOperation\<close> rejects, that rejection leaves the block and no retry is set.
\<close>

definition processOperationCatch :: "sync_config \<Rightarrow> operation \<Rightarrow> thrown \<Rightarrow> sync_state
    \<Rightarrow> thrown option \<times> sync_state" where
  "processOperationCatch cfg x err s =
     (let newRetryCount = retryCount x + 1;
          st = (if newRetryCount \<ge> maxRetries cfg then Failed else Pending)
      in case updateOperation (op_id x)
                \<lparr>p_status = Some st, p_retryCount = Some newRetryCount,
                 p_lastError = Some (Some (message err))\<rparr> (storage s) of
           None \<Rightarrow> (Some (PlainError ''Operation not found''), s)
         | Some db \<Rightarrow>
             (Some err,
              (if st = Pending
               then schedule ProcessPendingOperations (retryDelayMs cfg * newRetryCount)
                      (s\<lparr>storage := db\<rparr>)
               else s\<lparr>storage := db\<rparr>)))"

text \<open>\<^verbatim>\<open>result.error || 'Operation failed'\<close>.\<close>

definition resultError :: "sync_result \<Rightarrow> string" where
  "resultError r =
     (case r_error r of None \<Rightarrow> ''Operation failed''
      | Some m \<Rightarrow> (if m = [] then ''Operation failed'' else m))"

text \<open>
  The first step of \<^verbatim>\<open>processOperation\<close>: the write of status \<^verbatim>\<open>'syncing'\<close>, which also
  clears \<^verbatim>\<open>lastError\<close>. The result is \<open>None\<close> when \<^verbatim>\<open>updateOperation\<close> rejects.
\<close>

definition processOperationBegin :: "operation \<Rightarrow> offline_db \<Rightarrow> offline_db option" where
  "processOperationBegin x db =
     updateOperation (op_id x)
       \<lparr>p_status = Some Syncing, p_retryCount = None, p_lastError = Some None\<rparr> db"

text \<open>\<^verbatim>\<open>processOperation\<close> from its second step on, against the API \<open>a\<close>: the call of
  \<^verbatim>\<open>executeOperation\<close> and what follows it. The result is \<open>None\<close> when the promise
  resolves and the error when it rejects.\<close>

definition processOperationResume :: "sync_config \<Rightarrow> api \<Rightarrow> operation \<Rightarrow> sync_state
    \<Rightarrow> thrown option \<times> sync_state" where
  "processOperationResume cfg a x s =
     (case executeOperation a x s of
        (Inl e, s2) \<Rightarrow> processOperationCatch cfg x (ApiFailure e) s2
      | (Inr r, s2) \<Rightarrow>
          (if success r
           then (case updateOperation (op_id x)
                        \<lparr>p_status = Some Synced, p_retryCount = None, p_lastError = None\<rparr>
                        (storage s2) of
                   None \<Rightarrow>
                     processOperationCatch cfg x (PlainError ''Operation not found'') s2
                 | Some db3 \<Rightarrow>
                     (None, schedule (DeleteOperation (op_id x)) 60000 (s2\<lparr>storage := db3\<rparr>)))
           else processOperationCatch cfg x (PlainError (resultError r)) s2))"

text \<open>\<^verbatim>\<open>processOperation\<close> from start to end, with nothing else running in between.\<close>

definition processOperation :: "sync_config \<Rightarrow> api \<Rightarrow> operation \<Rightarrow> sync_state
    \<Rightarrow> thrown option \<times> sync_state" where
  "processOperation cfg a x s =
     (case processOperationBegin x (storage s) of
        None \<Rightarrow> processOperationCatch cfg x (PlainError ''Operation not found'') s
      | Some db1 \<Rightarrow> processOperationResume cfg a x (s\<lparr>storage := db1\<rparr>))"

text \<open>The callbacks the drain attaches to a call: \<^verbatim>\<open>then\<close> or \<^verbatim>\<open>catch\<close> emits its event
  and \<^verbatim>\<open>finally\<close> takes the call off the counter.\<close>

definition callbacks :: "operation \<Rightarrow> thrown option \<Rightarrow> sync_state \<Rightarrow> sync_state" where
  "callbacks x r s =
     (let s1 = emit (case r of None \<Rightarrow> OperationSynced x | Some err \<Rightarrow> OperationFailed x err) s
      in s1\<lparr>activeSyncCount := activeSyncCount s1 - 1\<rparr>)"

text \<open>
  The calls the loop has started take their first step, in the order they were started.
  A call whose write of \<^verbatim>\<open>'syncing'\<close> went through is in flight from then on. A call
  whose write was rejected goes through its \<^verbatim>\<open>catch\<close> block and its callbacks without
  ever reaching the API.
\<close>

fun startCalls :: "sync_config \<Rightarrow> operation list \<Rightarrow> sync_state \<Rightarrow> sync_state" where
  "startCalls cfg [] s = s"
| "startCalls cfg (x # xs) s =
     startCalls cfg xs
       (case processOperationBegin x (storage s) of
          Some db \<Rightarrow> s\<lparr>storage := db, running := running s @ [x]\<rparr>
        | None \<Rightarrow>
            (let (r, s1) = processOperationCatch cfg x (PlainError ''Operation not found'') s
             in callbacks x r s1))"

text \<open>
  One run of \<^verbatim>\<open>processPendingOperations\<close>, its two reads of the store taken together.
  The callbacks of the started calls have not run when \<^verbatim>\<open>syncCompleted\<close> is emitted, so
  the event reports no failure and nothing processed. Each started call has asked the
  store for its write of \<^verbatim>\<open>'syncing'\<close> before the function returns, and the store serves
  that write before any read that is asked for later; so the first steps of the started
  calls belong to the run, after its last statement.
\<close>

definition processPendingOperations :: "sync_config \<Rightarrow> sync_state \<Rightarrow> sync_state" where
  "processPendingOperations cfg s =
     (if \<not> isOnline s \<or> isSyncing s then s
      else (let s1 = emit SyncStarted (s\<lparr>isSyncing := True\<rparr>);
                ops = allOps (storage s1)
            in if ops = [] then (emit (SyncCompleted True 0 None) s1)\<lparr>isSyncing := False\<rparr>
               else (let (active', started) = dispatchLoop cfg (activeSyncCount s1) ops;
                         s2 = emit (SyncCompleted True 0 (Some 0)) (s1\<lparr>activeSyncCount := active'\<rparr>)
                     in startCalls cfg started (s2\<lparr>isSyncing := False\<rparr>))))"

text \<open>A call in flight settles: the rest of \<^verbatim>\<open>processOperation\<close> runs against the API
  \<open>a\<close>, then the callbacks.\<close>

definition settle :: "sync_config \<Rightarrow> api \<Rightarrow> operation \<Rightarrow> sync_state \<Rightarrow> sync_state" where
  "settle cfg a x s =
     (let (r, s1) = processOperationResume cfg a x s;
          s2 = callbacks x r s1
      in s2\<lparr>running := remove1 x (running s2)\<rparr>)"

subsection \<open>Manual retry and cancel\<close>

definition retryOperation :: "sync_config \<Rightarrow> string \<Rightarrow> sync_state \<Rightarrow> thrown option \<times> sync_state" where
  "retryOperation cfg i s =
     (case findOperation i (getOperations None (storage s)) of
        None \<Rightarrow> (Some (PlainError ''Operation not found''), s)
      | Some _ \<Rightarrow>
          (case updateOperation i
                  \<lparr>p_status = Some Pending, p_retryCount = Some 0, p_lastError = Some None\<rparr>
                  (storage s) of
             None \<Rightarrow> (Some (PlainError ''Operation not found''), s)
           | Some db \<Rightarrow>
               (None, if isOnline s then processPendingOperations cfg (s\<lparr>storage := db\<rparr>)
                      else s\<lparr>storage := db\<rparr>)))"

definition cancelOperation :: "string \<Rightarrow> sync_state \<Rightarrow> sync_state" where
  "cancelOperation i s =
     (let s1 = (case findOperation i (getOperations None (storage s)) of
                  None \<Rightarrow> s
                | Some x \<Rightarrow>
                    (if op_type x = Create \<and> entityType x = NoteEntity
                     then s\<lparr>content := removeNote (entityId x) (content s),
                            storage := deleteNote (entityId x) (storage s)\<rparr>
                     else if op_type x = Create \<and> entityType x = FolderEntity
                     then s\<lparr>content := removeFolder (entityId x) (content s),
                            storage := deleteFolder (entityId x) (storage s)\<rparr>
                     else s))
      in emit (OperationCancelled i) (s1\<lparr>storage := deleteOperation i (storage s1)\<rparr>))"

subsection \<open>The service over time\<close>

text \<open>
  The states the service can be in. It starts with no call counted and not syncing;
  the projection and the durable store hold whatever an earlier session left. Then
  operations are enqueued, the queue is drained (by a timer, an event or a caller), a
  started call settles against some API behaviour, connectivity changes, the user
  retries or cancels, and the timer set after a success deletes the synced record.
\<close>

inductive reachable :: "sync_config \<Rightarrow> sync_state \<Rightarrow> bool" for cfg :: sync_config where
  started: "activeSyncCount s = 0 \<Longrightarrow> running s = [] \<Longrightarrow> \<not> isSyncing s \<Longrightarrow> reachable cfg s"
| enqueued: "reachable cfg s \<Longrightarrow> reachable cfg (snd (queueOperation cfg now rnd now' x s))"
| drained: "reachable cfg s \<Longrightarrow> reachable cfg (processPendingOperations cfg s)"
| settled: "reachable cfg s \<Longrightarrow> x \<in> set (running s) \<Longrightarrow> reachable cfg (settle cfg a x s)"
| connectivity: "reachable cfg s \<Longrightarrow> reachable cfg (s\<lparr>isOnline := b\<rparr>)"
| retried: "reachable cfg s \<Longrightarrow> reachable cfg (snd (retryOperation cfg i s))"
| cancelled: "reachable cfg s \<Longrightarrow> reachable cfg (cancelOperation i s)"
| purged: "reachable cfg s \<Longrightarrow> reachable cfg (s\<lparr>storage := deleteOperation i (storage s)\<rparr>)"

text \<open>The operations a drain may start: not yet at the retry limit.\<close>

definition eligible :: "sync_config \<Rightarrow> operation \<Rightarrow> bool" where
  "eligible cfg x = (retryCount x < maxRetries cfg)"

text \<open>What executing an operation against the API leaves alone: the operation log, the
  timers, the counter and the started calls, and the two flags.\<close>

definition sameQueue :: "sync_state \<Rightarrow> sync_state \<Rightarrow> bool" where
  "sameQueue s s' =
     (db_operations (storage s') = db_operations (storage s) \<and> timers s' = timers s \<and>
      activeSyncCount s' = activeSyncCount s \<and> running s' = running s \<and>
      isOnline s' = isOnline s \<and> isSyncing s' = isSyncing s)"

text \<open>The operations a drain looks at, in the order it looks at them: pending and
  failed ones, by timestamp, without those at the retry limit.\<close>

definition candidates :: "sync_config \<Rightarrow> offline_db \<Rightarrow> operation list" where
  "candidates cfg db = filter (eligible cfg) (allOps db)"

section \<open>The create requests of the API client (services/api.ts)\<close>

text \<open>What \<^verbatim>\<open>request\<close> hands to \<^verbatim>\<open>fetch\<close>: the URL and the \<^verbatim>\<open>RequestInit\<close> with its
  method, headers and body (the body as the JSON value that was serialised).\<close>

record fetch_request =
  rq_url :: string
  rq_method :: string
  rq_headers :: "(string \<times> string) list"
  rq_body :: "json option"

text \<open>\<^verbatim>\<open>request(endpoint, options)\<close> for options that give a method and a body and no
  headers: the content type, and the bearer token when one is held (an empty string is
  falsy).\<close>

definition request :: "string \<Rightarrow> string option \<Rightarrow> string \<Rightarrow> string \<Rightarrow> json option
    \<Rightarrow> fetch_request" where
  "request baseUrl accessToken endpoint method body =
     \<lparr>rq_url = baseUrl @ endpoint, rq_method = method,
      rq_headers = (''Content-Type'', ''application/json'') #
        (case accessToken of
           None \<Rightarrow> []
         | Some t \<Rightarrow> (if t = [] then [] else [(''Authorization'', ''Bearer '' @ t)])),
      rq_body = body\<rparr>"

text \<open>\<^verbatim>\<open>JSON.stringify\<close> of the two create bodies: a property that is \<^verbatim>\<open>undefined\<close> is
  left out, \<^verbatim>\<open>null\<close> is kept.\<close>

definition stringField :: "string \<Rightarrow> string option \<Rightarrow> (string \<times> json) list" where
  "stringField k v = (case v of None \<Rightarrow> [] | Some s \<Rightarrow> [(k, JStr s)])"

definition nullableField :: "string \<Rightarrow> string option option \<Rightarrow> (string \<times> json) list" where
  "nullableField k v =
     (case v of None \<Rightarrow> [] | Some None \<Rightarrow> [(k, JNull)] | Some (Some s) \<Rightarrow> [(k, JStr s)])"

definition stringifyNoteBody :: "create_note_body \<Rightarrow> json" where
  "stringifyNoteBody b =
     JObj (stringField ''title'' (cb_title b) @ stringField ''content'' (cb_content b)
           @ nullableField ''folder_id'' (cb_folder_id b))"

definition stringifyFolderBody :: "create_folder_body \<Rightarrow> json" where
  "stringifyFolderBody b =
     JObj (stringField ''name'' (fb_name b) @ nullableField ''parent_id'' (fb_parent_id b))"

text \<open>\<^verbatim>\<open>api.notes.create\<close> and \<^verbatim>\<open>api.folders.create\<close> up to the call of \<^verbatim>\<open>fetch\<close>.\<close>

definition notesCreateRequest :: "string \<Rightarrow> string option \<Rightarrow> create_note_body \<Rightarrow> fetch_request" where
  "notesCreateRequest baseUrl accessToken b =
     request baseUrl accessToken ''/notes'' ''POST'' (Some (stringifyNoteBody b))"

definition foldersCreateRequest :: "string \<Rightarrow> string option \<Rightarrow> create_folder_body
    \<Rightarrow> fetch_request" where
  "foldersCreateRequest baseUrl accessToken b =
     request baseUrl accessToken ''/folders'' ''POST'' (Some (stringifyFolderBody b))"

text \<open>The request the sync queue issues for a create operation, through
  \<^verbatim>\<open>executeNoteOperation\<close> or \<^verbatim>\<open>executeFolderOperation\<close>.\<close>

definition createRequestOf :: "string \<Rightarrow> string option \<Rightarrow> operation \<Rightarrow> fetch_request" where
  "createRequestOf baseUrl accessToken x =
     (if entityType x = NoteEntity
      then notesCreateRequest baseUrl accessToken (noteCreateData (data x))
      else foldersCreateRequest baseUrl accessToken (folderCreateData (data x)))"

section \<open>Push notifications (services/websocket.ts)\<close>

record note_update_message =
  m_note_id :: string
  m_title :: "string option"
  m_content :: "string option"
  m_version :: int
  m_user_id :: string
  m_operation :: op_kind

record folder_update_message =
  fm_folder_id :: string
  fm_name :: "string option"
  fm_parent_id :: "string option option"
  fm_user_id :: string
  fm_operation :: op_kind

text \<open>The refreshes a handler starts without awaiting them: \<^verbatim>\<open>contentStore.syncNotes()\<close>
  and \<^verbatim>\<open>contentStore.syncFolders()\<close>.\<close>

datatype refresh = SyncNotes | SyncFolders

text \<open>
  The two handlers. \<open>localUser\<close> is \<^verbatim>\<open>authStore.user?.id\<close>, \<open>None\<close> when nobody is logged
  in, which no \<^verbatim>\<open>user_id\<close> string equals. The result is the refreshes started, in
  order, and the projection after the handler has returned.
\<close>

definition handleNoteUpdate :: "string option \<Rightarrow> note_update_message \<Rightarrow> content_state
    \<Rightarrow> refresh list \<times> content_state" where
  "handleNoteUpdate localUser d cs =
     (if Some (m_user_id d) = localUser then ([], cs)
      else (case m_operation d of
              Create \<Rightarrow> ([SyncNotes], cs)
            | Update \<Rightarrow>
                (case cs_notes cs (m_note_id d) of
                   None \<Rightarrow> ([], cs)
                 | Some currentNote \<Rightarrow>
                     (if n_version currentNote < m_version d then ([SyncNotes], cs) else ([], cs)))
            | Delete \<Rightarrow> ([], removeNote (m_note_id d) cs)
            | Move \<Rightarrow> ([SyncNotes], cs)))"

definition handleFolderUpdate :: "string option \<Rightarrow> folder_update_message \<Rightarrow> content_state
    \<Rightarrow> refresh list \<times> content_state" where
  "handleFolderUpdate localUser d cs =
     (if Some (fm_user_id d) = localUser then ([], cs)
      else (case fm_operation d of
              Create \<Rightarrow> ([SyncFolders], cs)
            | Update \<Rightarrow> ([SyncFolders], cs)
            | Delete \<Rightarrow> ([SyncFolders], cs)
            | Move \<Rightarrow> ([SyncFolders], cs)))"

text \<open>The status and message of the records in the optimistic log, by id.\<close>

definition opLog :: "content_state \<Rightarrow> (string \<times> opt_status \<times> string option) list" where
  "opLog cs = map (\<lambda>x. (oo_id x, oo_status x, oo_error x)) (optimisticOps cs)"

text \<open>How an optimistic mutation has settled, given the answer \<open>resp\<close> of the API: the
  promise is fulfilled with the server's value and the log record of the mutation is
  \<^verbatim>\<open>success\<close>, or the promise is rejected with the API's error and the record is
  \<^verbatim>\<open>error\<close> with its message.\<close>

definition settledWith :: "content_state \<Rightarrow> string \<Rightarrow> api_error + 'r
    \<Rightarrow> (thrown + 'r) \<times> content_state \<Rightarrow> bool" where
  "settledWith cs opId resp r =
     (case resp of
        Inr v \<Rightarrow> fst r = Inr v \<and> opLog (snd r) = opLog cs @ [(opId, OptSuccess, None)]
      | Inl e \<Rightarrow> fst r = Inl (ApiFailure e) \<and>
                 opLog (snd r) = opLog cs @ [(opId, OptError, Some (e_message e))])"

section \<open>Concrete data for the examples\<close>

definition defaultConfig :: sync_config where
  "defaultConfig = constructor \<lparr>o_maxRetries = None, o_retryDelayMs = None,
     o_maxConcurrentSync = None, o_syncIntervalMs = None\<rparr>"

definition noData :: op_data where
  "noData = \<lparr>d_title = None, d_content = None, d_folder_id = None, d_version = 0,
     d_name = None, d_parent_id = None\<rparr>"

definition emptyDb :: offline_db where
  "emptyDb = \<lparr>db_notes = Map.empty, db_folders = Map.empty, db_operations = []\<rparr>"

definition freshState :: sync_state where
  "freshState = \<lparr>content = initialState, storage = emptyDb, activeSyncCount = 0,
     isOnline = True, isSyncing = False, emitted = [], timers = [], running = []\<rparr>"

text \<open>An update of note \<open>n\<close> with the title \<open>t\<close>, created at time \<open>ts\<close>, as stored under
  the id \<open>i\<close>.\<close>

definition pendingUpdate :: "string \<Rightarrow> string \<Rightarrow> string \<Rightarrow> nat \<Rightarrow> operation" where
  "pendingUpdate i n t ts =
     \<lparr>op_id = i, op_type = Update, entityType = NoteEntity, entityId = n,
      data = noData\<lparr>d_title := Some t, d_version := 3\<rparr>, timestamp = ts, userId = ''u1'',
      status = Pending, retryCount = 0, lastError = None\<rparr>"

text \<open>What a caller might pass to \<^verbatim>\<open>queueOperation\<close> against its declared type: a record
  that already has an id, a status and a retry count.\<close>

definition callerOp :: operation where
  "callerOp = (pendingUpdate ''mine'' ''n1'' ''Draft'' 5)\<lparr>status := Failed, retryCount := 7\<rparr>"

text \<open>Five updates of five different notes in the log, the service idle and online.\<close>

definition fiveQueued :: sync_state where
  "fiveQueued = freshState\<lparr>storage := emptyDb\<lparr>db_operations :=
     [pendingUpdate ''a'' ''n5'' ''E'' 50, pendingUpdate ''b'' ''n4'' ''D'' 40,
      pendingUpdate ''c'' ''n3'' ''C'' 30, pendingUpdate ''d'' ''n2'' ''B'' 20,
      pendingUpdate ''e'' ''n1'' ''A'' 10]\<rparr>\<rparr>"

text \<open>An API whose every call throws the error \<open>e\<close>.\<close>

definition failingApi :: "api_error \<Rightarrow> api" where
  "failingApi e =
     \<lparr>notes_create = (\<lambda>_. Inl e), notes_update = (\<lambda>_ _. Inl e), notes_delete = (\<lambda>_. Inl e),
      notes_move = (\<lambda>_ _. Inl e), notes_list = Inl e,
      folders_create = (\<lambda>_. Inl e), folders_update = (\<lambda>_ _. Inl e),
      folders_delete = (\<lambda>_. Inl e), folders_move = (\<lambda>_ _. Inl e), folders_list = Inl e\<rparr>"

definition networkError :: api_error where
  "networkError = \<lparr>e_message = ''Network error'', e_status = 0, e_data = JNull\<rparr>"

definition versionConflict :: api_error where
  "versionConflict = \<lparr>e_message = ''Version conflict'', e_status = 409,
     e_data = JObj [(''current_version'', JNum 4)]\<rparr>"

text \<open>One update of note \<open>n1\<close> in the log, not yet tried, the service idle and online.\<close>

definition oneQueued :: sync_state where
  "oneQueued = freshState\<lparr>storage := emptyDb\<lparr>db_operations :=
     [pendingUpdate ''op1'' ''n1'' ''Local'' 10]\<rparr>\<rparr>"

text \<open>The state after the call for that update has been rejected with a version
  conflict.\<close>

definition afterConflict :: sync_state where
  "afterConflict =
     snd (processOperation defaultConfig (failingApi versionConflict)
            (pendingUpdate ''op1'' ''n1'' ''Local'' 10) oneQueued)"

text \<open>The drain the retry timer runs, and the started call rejected with a version
  conflict once more.\<close>

definition afterRetry :: sync_state where
  "afterRetry =
     settle defaultConfig (failingApi versionConflict)
       (hd (running (processPendingOperations defaultConfig afterConflict)))
       (processPendingOperations defaultConfig afterConflict)"

text \<open>The state after the call for that update has failed with a network error
  instead.\<close>

definition afterNetworkError :: sync_state where
  "afterNetworkError =
     snd (processOperation defaultConfig (failingApi networkError)
            (pendingUpdate ''op1'' ''n1'' ''Local'' 10) oneQueued)"

text \<open>The same failure as the service goes through it: a drain starts the update, the
  call settles with a network error; and the state after another update has been
  enqueued right then.\<close>

definition failedOnce :: sync_state where
  "failedOnce =
     settle defaultConfig (failingApi networkError) (pendingUpdate ''op1'' ''n1'' ''Local'' 10)
       (processPendingOperations defaultConfig oneQueued)"

definition enqueuedAfterFailure :: sync_state where
  "enqueuedAfterFailure =
     snd (queueOperation defaultConfig 20 ''r'' 20 (pendingUpdate ''new'' ''n2'' ''Other'' 0)
            failedOnce)"

text \<open>The same update in the log after two failed tries, and the state after its third
  try has failed with a network error.\<close>

definition twiceFailed :: sync_state where
  "twiceFailed = freshState\<lparr>storage := emptyDb\<lparr>db_operations :=
     [(pendingUpdate ''op1'' ''n1'' ''Local'' 10)
        \<lparr>retryCount := 2, lastError := Some ''Network error''\<rparr>]\<rparr>\<rparr>"

definition afterThirdFailure :: sync_state where
  "afterThirdFailure =
     snd (processOperation defaultConfig (failingApi networkError)
            ((pendingUpdate ''op1'' ''n1'' ''Local'' 10)
               \<lparr>retryCount := 2, lastError := Some ''Network error''\<rparr>) twiceFailed)"

text \<open>Two operations enqueued into the empty log with the same reading of the clock and
  the same random suffix.\<close>

definition sameDrawTwice :: sync_state where
  "sameDrawTwice =
     snd (queueOperation defaultConfig 1700000000000 ''k3j9x2m1q'' 1700000000000
            (pendingUpdate ''other'' ''n2'' ''Second'' 0)
            (snd (queueOperation defaultConfig 1700000000000 ''k3j9x2m1q'' 1700000000000
                    callerOp freshState)))"

text \<open>The Conflict objects an event carries.\<close>

fun eventConflicts :: "sync_event \<Rightarrow> conflict list" where
  "eventConflicts (ConflictEvent x cs) = cs"
| "eventConflicts _ = []"

text \<open>Two updates of the same note in the log: title \<open>A\<close>, then title \<open>B\<close>.\<close>

definition twoOnSameNote :: sync_state where
  "twoOnSameNote = freshState\<lparr>storage := emptyDb\<lparr>db_operations :=
     [pendingUpdate ''a'' ''n1'' ''A'' 10, pendingUpdate ''b'' ''n1'' ''B'' 20]\<rparr>\<rparr>"

text \<open>A projection holding note \<open>n1\<close> at version 3 and folder \<open>f1\<close>.\<close>

definition serverNote :: Note where
  "serverNote = \<lparr>n_id = ''n1'', n_title = ''Server'', n_content = ''text'', n_folder_id = None,
     n_user_id = ''u1'', n_version = 3, n_created_at = ''2024-01-01T00:00:00.000Z'',
     n_updated_at = ''2024-01-01T00:00:00.000Z'', n_size_bytes = None\<rparr>"

definition folder1 :: Folder where
  "folder1 = \<lparr>f_id = ''f1'', f_name = ''Work'', f_parent_id = None, f_path = ''Work'',
     f_user_id = ''u1'', f_created_at = ''2024-01-01T00:00:00.000Z'',
     f_updated_at = ''2024-01-01T00:00:00.000Z'', f_note_count = None,
     f_subfolder_count = None\<rparr>"

definition projection1 :: content_state where
  "projection1 = initialState\<lparr>cs_notes := [''n1'' \<mapsto> serverNote],
     cs_folders := [''f1'' \<mapsto> folder1]\<rparr>"

text \<open>Notifications caused by another user, \<open>u2\<close>.\<close>

definition noteUpdated :: "int \<Rightarrow> note_update_message" where
  "noteUpdated v = \<lparr>m_note_id = ''n1'', m_title = Some ''Theirs'', m_content = None,
     m_version = v, m_user_id = ''u2'', m_operation = Update\<rparr>"

definition folderNotified :: "op_kind \<Rightarrow> folder_update_message" where
  "folderNotified k = \<lparr>fm_folder_id = ''f1'', fm_name = None, fm_parent_id = None,
     fm_user_id = ''u2'', fm_operation = k\<rparr>"

text \<open>Two create operations for two different notes that happen to have the same title
  and content, as they sit in the log.\<close>

definition draftCreate :: "string \<Rightarrow> string \<Rightarrow> nat \<Rightarrow> operation" where
  "draftCreate i tempId ts =
     \<lparr>op_id = i, op_type = Create, entityType = NoteEntity, entityId = tempId,
      data = noData\<lparr>d_title := Some ''Draft'', d_content := Some ''text'',
                     d_folder_id := Some None\<rparr>,
      timestamp = ts, userId = ''u1'', status = Pending, retryCount = 0, lastError = None\<rparr>"

text \<open>An API whose every call succeeds: it returns the note \<open>n\<close>, the folder \<open>g\<close>,
  nothing for a delete, and these two for the lists.\<close>

definition answeringApi :: "Note \<Rightarrow> Folder \<Rightarrow> api" where
  "answeringApi n g =
     \<lparr>notes_create = (\<lambda>_. Inr n), notes_update = (\<lambda>_ _. Inr n), notes_delete = (\<lambda>_. Inr ()),
      notes_move = (\<lambda>_ _. Inr n), notes_list = Inr [n],
      folders_create = (\<lambda>_. Inr g), folders_update = (\<lambda>_ _. Inr g),
      folders_delete = (\<lambda>_. Inr ()), folders_move = (\<lambda>_ _. Inr g), folders_list = Inr [g]\<rparr>"

text \<open>The edit of note \<open>n1\<close> the user makes against version 3, and the record the server
  holds after another client's write.\<close>

definition localEdit :: update_note_request where
  "localEdit = \<lparr>un_title = Some ''Local'', un_content = None, un_folder_id = None,
     un_version = 3\<rparr>"

definition remoteNote :: Note where
  "remoteNote = serverNote\<lparr>n_title := ''Remote'', n_version := 4\<rparr>"

text \<open>The note the server stores for the draft, under its permanent id.\<close>

definition storedDraft :: Note where
  "storedDraft = \<lparr>n_id = ''n-42'', n_title = ''Draft'', n_content = ''text'', n_folder_id = None,
     n_user_id = ''u1'', n_version = 1, n_created_at = ''2024-01-02T00:00:00.000Z'',
     n_updated_at = ''2024-01-02T00:00:00.000Z'', n_size_bytes = Some 4\<rparr>"

text \<open>Note \<open>n1\<close> as the projection shows it after the local edit, and the service with
  that edit in its log, failed on a conflict.\<close>

definition localNote :: Note where
  "localNote = serverNote\<lparr>n_title := ''Local''\<rparr>"

definition conflictedEdit :: sync_state where
  "conflictedEdit = freshState
     \<lparr>content := initialState\<lparr>cs_notes := [''n1'' \<mapsto> localNote]\<rparr>,
      storage := emptyDb\<lparr>db_notes := [''n1'' \<mapsto> localNote],
        db_operations := [(pendingUpdate ''op1'' ''n1'' ''Local'' 10)
          \<lparr>status := Failed, retryCount := 3, lastError := Some ''Conflict detected''\<rparr>]\<rparr>\<rparr>"

text \<open>The same edit as the store's own optimistic log holds it, with the snapshot taken
  before the edit.\<close>

definition editInStore :: content_state where
  "editInStore = initialState
     \<lparr>cs_notes := [''n1'' \<mapsto> localNote],
      optimisticOps := [optimisticOp ''temp_9'' Update NoteEntity ''n1''
                          (Some (NoteData serverNote)) (Some (NoteData localNote))]\<rparr>"

text \<open>A draft created offline under a provisional id, in the projection, in the durable
  store and as a create operation in the log.\<close>

definition provisionalDraft :: Note where
  "provisionalDraft = \<lparr>n_id = ''temp_1_x'', n_title = ''Draft'', n_content = ''text'',
     n_folder_id = None, n_user_id = ''current_user'', n_version = 1,
     n_created_at = ''2024-01-02T00:00:00.000Z'', n_updated_at = ''2024-01-02T00:00:00.000Z'',
     n_size_bytes = None\<rparr>"

definition draftQueued :: sync_state where
  "draftQueued = freshState
     \<lparr>content := initialState\<lparr>cs_notes := [''temp_1_x'' \<mapsto> provisionalDraft]\<rparr>,
      storage := emptyDb\<lparr>db_notes := [''temp_1_x'' \<mapsto> provisionalDraft],
        db_operations := [draftCreate ''op_1_a'' ''temp_1_x'' 1]\<rparr>\<rparr>"

section \<open>The durable store and operation ids: basic facts\<close>

lemma decimal_not_Nil: "decimal n \<noteq> []"
  by (subst decimal.simps) simp

lemma digit_char_inj: "m < 10 \<Longrightarrow> n < 10 \<Longrightarrow> digits ! m = digits ! n \<Longrightarrow> m = n"
proof -
  assume a: "m < 10" "n < 10" and e: "digits ! m = digits ! n"
  have "distinct digits" and "length digits = 10" by (simp_all add: digits_def)
  with a e show "m = n" by (simp add: nth_eq_iff_index_eq)
qed

lemma digit_char_not_underscore: "n < 10 \<Longrightarrow> digits ! n \<noteq> CHR ''_''"
proof -
  assume "n < 10"
  moreover have "length digits = 10" by (simp add: digits_def)
  ultimately have "digits ! n \<in> set digits" by (simp only: nth_mem)
  moreover have "CHR ''_'' \<notin> set digits" by (simp add: digits_def)
  ultimately show ?thesis by metis
qed

lemma decimal_no_underscore: "CHR ''_'' \<notin> set (decimal n)"
proof (induction n rule: decimal.induct)
  case (1 n)
  show ?case
  proof (cases "n < 10")
    case True
    then show ?thesis using digit_char_not_underscore [of n] by (subst decimal.simps) simp
  next
    case False
    have "n mod 10 < 10" by simp
    then have "digits ! (n mod 10) \<noteq> CHR ''_''" by (rule digit_char_not_underscore)
    with False 1 show ?thesis by (subst decimal.simps) auto
  qed
qed

lemma decimal_inj: "decimal m = decimal n \<Longrightarrow> m = n"
proof (induction m arbitrary: n rule: decimal.induct)
  case (1 m)
  show ?case
  proof (cases "m < 10")
    case mlt: True
    show ?thesis
    proof (cases "n < 10")
      case True
      with mlt 1(2) show ?thesis
        by (metis decimal.simps digit_char_inj list.inject)
    next
      case False
      then have "decimal n = decimal (n div 10) @ [digits ! (n mod 10)]"
        by (subst decimal.simps) simp
      moreover have "decimal m = [digits ! m]" using mlt by (subst decimal.simps) simp
      ultimately show ?thesis using 1(2) decimal_not_Nil [of "n div 10"] by (cases "decimal (n div 10)") auto
    qed
  next
    case mge: False
    then have dm: "decimal m = decimal (m div 10) @ [digits ! (m mod 10)]"
      by (subst decimal.simps) simp
    show ?thesis
    proof (cases "n < 10")
      case True
      then have "decimal n = [digits ! n]" by (subst decimal.simps) simp
      with dm 1(2) decimal_not_Nil [of "m div 10"] show ?thesis by (cases "decimal (m div 10)") auto
    next
      case False
      then have dn: "decimal n = decimal (n div 10) @ [digits ! (n mod 10)]"
        by (subst decimal.simps) simp
      from dm dn 1(2) have e1: "decimal (m div 10) = decimal (n div 10)"
        and e2: "digits ! (m mod 10) = digits ! (n mod 10)" by auto
      from 1(1) [OF mge e1] have "m div 10 = n div 10" .
      moreover have "m mod 10 = n mod 10" using e2 by (intro digit_char_inj) auto
      ultimately show ?thesis by (metis div_mult_mod_eq)
    qed
  qed
qed

lemma split_at_first:
  "c \<notin> set xs \<Longrightarrow> c \<notin> set ys \<Longrightarrow> xs @ c # us = ys @ c # vs \<Longrightarrow> xs = ys \<and> us = vs"
proof (induction xs arbitrary: ys)
  case Nil
  then show ?case by (cases ys) auto
next
  case (Cons x xs)
  then show ?case by (cases ys) auto
qed

lemma generateOpId_inj:
  "generateOpId t r = generateOpId t' r' \<longleftrightarrow> t = t' \<and> r = r'"
proof
  assume "generateOpId t r = generateOpId t' r'"
  then have "decimal t @ CHR ''_'' # r = decimal t' @ CHR ''_'' # r'"
    by (simp add: generateOpId_def)
  then have "decimal t = decimal t' \<and> r = r'"
    by (rule split_at_first [OF decimal_no_underscore decimal_no_underscore])
  then show "t = t' \<and> r = r'" using decimal_inj by blast
qed simp

lemma findOperation_putOperation_same:
  "findOperation (op_id x) (putOperation x ys) = Some x"
  by (induction ys) auto

lemma findOperation_putOperation_other:
  "i \<noteq> op_id x \<Longrightarrow> findOperation i (putOperation x ys) = findOperation i ys"
  by (induction ys) auto

lemma findOperation_op_id: "findOperation i ys = Some y \<Longrightarrow> op_id y = i"
  by (induction ys) (auto split: if_splits)

lemma findOperation_filter_out: "findOperation i (filter (\<lambda>x. op_id x \<noteq> i) ys) = None"
  by (induction ys) auto

lemma findOperation_member: "x \<in> set ys \<Longrightarrow> findOperation (op_id x) ys \<noteq> None"
  by (induction ys) auto

lemma findOperation_Some_member: "findOperation i ys = Some y \<Longrightarrow> y \<in> set ys"
  by (induction ys) (auto split: if_splits)

lemma findOperation_putOperation_keeps:
  "findOperation i ys \<noteq> None \<Longrightarrow> findOperation i (putOperation x ys) \<noteq> None"
  by (cases "i = op_id x")
     (simp_all add: findOperation_putOperation_same findOperation_putOperation_other)

lemma op_id_applyPatch [simp]: "op_id (applyPatch p y) = op_id y"
  by (simp add: applyPatch_def)

lemma updateOperation_found:
  assumes "findOperation i (db_operations db) = Some y"
  shows "updateOperation i p db
           = Some (db\<lparr>db_operations := putOperation (applyPatch p y) (db_operations db)\<rparr>)"
  using assms by (simp add: updateOperation_def)

lemma findOperation_after_update:
  assumes "findOperation i (db_operations db) = Some y"
      and "updateOperation i p db = Some db'"
  shows "findOperation i (db_operations db') = Some (applyPatch p y)"
proof -
  have "op_id (applyPatch p y) = i" using assms(1) by (simp add: findOperation_op_id)
  then show ?thesis
    using assms findOperation_putOperation_same [of "applyPatch p y" "db_operations db"]
    by (auto simp: updateOperation_def)
qed

lemma dispatchLoop_started:
  "snd (dispatchLoop cfg k ops) = take (maxConcurrentSync cfg - k) (filter (eligible cfg) ops)"
proof (induction ops arbitrary: k)
  case Nil
  then show ?case by simp
next
  case (Cons x xs)
  show ?case
  proof (cases "k \<ge> maxConcurrentSync cfg")
    case True
    then show ?thesis by simp
  next
    case open_slot: False
    show ?thesis
    proof (cases "eligible cfg x")
      case True
      then have "snd (dispatchLoop cfg k (x # xs)) = x # snd (dispatchLoop cfg (k + 1) xs)"
        using open_slot by (simp add: eligible_def split: prod.splits)
      also have "\<dots> = x # take (maxConcurrentSync cfg - (k + 1)) (filter (eligible cfg) xs)"
        by (simp only: Cons.IH)
      also have "\<dots> = take (maxConcurrentSync cfg - k) (filter (eligible cfg) (x # xs))"
      proof -
        obtain m where m: "maxConcurrentSync cfg - k = Suc m" using open_slot
          by (cases "maxConcurrentSync cfg - k") auto
        then have "maxConcurrentSync cfg - (k + 1) = m" by simp
        with m True show ?thesis by simp
      qed
      finally show ?thesis .
    next
      case False
      then show ?thesis using open_slot Cons.IH [of k] by (simp add: eligible_def)
    qed
  qed
qed

lemma dispatchLoop_counter:
  "fst (dispatchLoop cfg k ops) = k + length (snd (dispatchLoop cfg k ops))"
proof (induction ops arbitrary: k)
  case Nil
  then show ?case by simp
next
  case (Cons x xs)
  show ?case
  proof (cases "k \<ge> maxConcurrentSync cfg \<or> retryCount x \<ge> maxRetries cfg")
    case True
    then show ?thesis using Cons.IH [of k] by auto
  next
    case False
    then show ?thesis using Cons.IH [of "k + 1"] by (auto split: prod.splits)
  qed
qed

lemma sorted_allOps: "sorted (map timestamp (allOps db))"
  by (simp add: allOps_def)

lemma sorted_take_filter:
  "sorted (map f xs) \<Longrightarrow> sorted (map f (take n (filter P xs)))"
proof -
  assume "sorted (map f xs)"
  then have "sorted (map f (filter P xs))" by (rule sorted_filter)
  then show ?thesis by (simp add: take_map [symmetric])
qed

lemma decimal_example: "decimal 1700000000000 = ''1700000000000''"
  by (simp add: decimal.simps digits_def)

lemma queueOperation_stores:
  "db_operations (storage (snd (queueOperation cfg now rnd now' x s)))
     = putOperation (x\<lparr>op_id := generateOpId now rnd, timestamp := now', status := Pending,
                       retryCount := 0\<rparr>) (db_operations (storage s))"
  by (simp add: queueOperation_def Let_def saveOperation_def emit_def schedule_def)

lemma queueOperation_returns:
  "fst (queueOperation cfg now rnd now' x s) = generateOpId now rnd"
  by (simp add: queueOperation_def Let_def)

text \<open>A \<^verbatim>\<open>put\<close> under a key undoes an earlier \<^verbatim>\<open>put\<close> under the same key.\<close>

lemma putOperation_overwrites:
  "op_id x = op_id y \<Longrightarrow> putOperation y (putOperation x ys) = putOperation y ys"
  by (induction ys) auto

section \<open>Enqueueing\<close>

text \<open>
  Claim C10 as stated fails. The id is made from a reading of the clock and a random
  suffix and is not checked against the log. Two operations enqueued with the same
  reading and the same suffix get the same id, and the log then holds one record, that
  of the second operation: the first is gone.
\<close>

theorem equal_draws_overwrite_counterexample:
  "fst (queueOperation defaultConfig 1700000000000 ''k3j9x2m1q'' 1700000000000 callerOp freshState)
     = ''op_1700000000000_k3j9x2m1q'' \<and>
   fst (queueOperation defaultConfig 1700000000000 ''k3j9x2m1q'' 1700000000000
          (pendingUpdate ''other'' ''n2'' ''Second'' 0)
          (snd (queueOperation defaultConfig 1700000000000 ''k3j9x2m1q'' 1700000000000
                  callerOp freshState)))
     = ''op_1700000000000_k3j9x2m1q'' \<and>
   map entityId (db_operations (storage (snd (queueOperation defaultConfig 1700000000000
          ''k3j9x2m1q'' 1700000000000 callerOp freshState)))) = [''n1''] \<and>
   map (\<lambda>y. (op_id y, entityId y)) (db_operations (storage sameDrawTwice))
     = [(''op_1700000000000_k3j9x2m1q'', ''n2'')]"
proof -
  have i: "generateOpId 1700000000000 ''k3j9x2m1q'' = ''op_1700000000000_k3j9x2m1q''"
    by (simp add: generateOpId_def decimal_example)
  have a: "fst (queueOperation defaultConfig 1700000000000 ''k3j9x2m1q'' 1700000000000 callerOp
                  freshState) = ''op_1700000000000_k3j9x2m1q''"
    by (simp only: queueOperation_returns i)
  have b: "fst (queueOperation defaultConfig 1700000000000 ''k3j9x2m1q'' 1700000000000
          (pendingUpdate ''other'' ''n2'' ''Second'' 0)
          (snd (queueOperation defaultConfig 1700000000000 ''k3j9x2m1q'' 1700000000000
                  callerOp freshState))) = ''op_1700000000000_k3j9x2m1q''"
    by (simp only: queueOperation_returns i)
  have c: "map entityId (db_operations (storage (snd (queueOperation defaultConfig 1700000000000
          ''k3j9x2m1q'' 1700000000000 callerOp freshState)))) = [''n1'']"
    by (simp add: queueOperation_stores i freshState_def emptyDb_def callerOp_def
          pendingUpdate_def)
  have d: "map (\<lambda>y. (op_id y, entityId y)) (db_operations (storage sameDrawTwice))
             = [(''op_1700000000000_k3j9x2m1q'', ''n2'')]"
    by (simp add: sameDrawTwice_def queueOperation_stores i freshState_def emptyDb_def
          pendingUpdate_def)
  show ?thesis by (rule conjI [OF a conjI [OF b conjI [OF c d]]])
qed

text \<open>
  Claim C10, amended. Whatever record the caller passes, \<^verbatim>\<open>queueOperation\<close> returns the
  id made from the clock and the random suffix, and the log then holds, under that id,
  the caller's record with that id, the new timestamp, the status \<^verbatim>\<open>pending\<close> and the
  retry count 0; the records under every other id are as they were. The id is a function
  of the two draws only: it differs from another generated id exactly when the draws
  differ. The log is not looked at: a record already under that id is replaced, so of
  two operations enqueued with the same draws the log keeps the second only.
\<close>

theorem queueOperation_enters_pending:
  "(case queueOperation cfg now rnd now' x s of
      (i, s') \<Rightarrow>
        i = generateOpId now rnd \<and>
        findOperation i (getOperations None (storage s'))
          = Some (x\<lparr>op_id := i, timestamp := now', status := Pending, retryCount := 0\<rparr>) \<and>
        (\<forall>j. j \<noteq> i \<longrightarrow>
           findOperation j (getOperations None (storage s'))
             = findOperation j (getOperations None (storage s))) \<and>
        (\<forall>x2 now2. db_operations (storage (snd (queueOperation cfg now rnd now2 x2 s')))
                     = db_operations (storage (snd (queueOperation cfg now rnd now2 x2 s))))) \<and>
   (\<forall>t r. (generateOpId t r = generateOpId now rnd) = (t = now \<and> r = rnd))"
proof -
  let ?g = "generateOpId now rnd"
  let ?full = "x\<lparr>op_id := ?g, timestamp := now', status := Pending, retryCount := 0\<rparr>"
  obtain i s' where q: "queueOperation cfg now rnd now' x s = (i, s')"
    by (cases "queueOperation cfg now rnd now' x s")
  have i: "i = ?g" using queueOperation_returns [of cfg now rnd now' x s] q by simp
  have st: "db_operations (storage s') = putOperation ?full (db_operations (storage s))"
    using queueOperation_stores [of cfg now rnd now' x s] q by simp
  have c1: "findOperation i (getOperations None (storage s'))
              = Some (x\<lparr>op_id := i, timestamp := now', status := Pending, retryCount := 0\<rparr>)"
    using findOperation_putOperation_same [of ?full "db_operations (storage s)"]
    by (simp add: getOperations_def st i)
  have c2: "\<forall>j. j \<noteq> i \<longrightarrow>
              findOperation j (getOperations None (storage s'))
                = findOperation j (getOperations None (storage s))"
  proof (intro allI impI)
    fix j assume "j \<noteq> i"
    then have "j \<noteq> op_id ?full" by (simp add: i)
    then show "findOperation j (getOperations None (storage s'))
                = findOperation j (getOperations None (storage s))"
      by (simp add: getOperations_def st findOperation_putOperation_other)
  qed
  have c4: "\<forall>x2 now2. db_operations (storage (snd (queueOperation cfg now rnd now2 x2 s')))
                     = db_operations (storage (snd (queueOperation cfg now rnd now2 x2 s)))"
    by (simp add: queueOperation_stores st putOperation_overwrites)
  have c3: "\<forall>t r. (generateOpId t r = generateOpId now rnd) = (t = now \<and> r = rnd)"
    using generateOpId_inj by blast
  show ?thesis unfolding q prod.case
    by (rule conjI [OF conjI [OF i conjI [OF c1 conjI [OF c2 c4]]] c3])
qed

text \<open>The same at a concrete call: the caller's record claims the id \<open>mine\<close>, the
  status \<^verbatim>\<open>failed\<close> and seven retries, and none of the three survives.\<close>

theorem queueOperation_enters_pending_witness:
  "fst (queueOperation defaultConfig 1700000000000 ''k3j9x2m1q'' 1700000000001 callerOp freshState)
     = ''op_1700000000000_k3j9x2m1q'' \<and>
   map (\<lambda>y. (op_id y, status y, retryCount y, timestamp y))
     (db_operations (storage (snd (queueOperation defaultConfig 1700000000000 ''k3j9x2m1q''
        1700000000001 callerOp freshState))))
     = [(''op_1700000000000_k3j9x2m1q'', Pending, 0, 1700000000001)] \<and>
   findOperation ''op_1700000000000_k3j9x2m1q''
     (getOperations None (storage (snd (queueOperation defaultConfig 1700000000000 ''k3j9x2m1q''
        1700000000001 callerOp freshState))))
     = Some (callerOp\<lparr>op_id := ''op_1700000000000_k3j9x2m1q'', timestamp := 1700000000001,
                      status := Pending, retryCount := 0\<rparr>)"
proof -
  let ?q = "queueOperation defaultConfig 1700000000000 ''k3j9x2m1q'' 1700000000001 callerOp
              freshState"
  have i: "generateOpId 1700000000000 ''k3j9x2m1q'' = ''op_1700000000000_k3j9x2m1q''"
    by (simp add: generateOpId_def decimal_example)
  note T = queueOperation_enters_pending
             [where cfg = defaultConfig and now = 1700000000000 and rnd = "''k3j9x2m1q''"
                and now' = 1700000000001 and x = callerOp and s = freshState,
              unfolded case_prod_unfold]
  have a: "fst ?q = ''op_1700000000000_k3j9x2m1q''"
    using T [THEN conjunct1, THEN conjunct1] by (simp only: i)
  have b: "findOperation ''op_1700000000000_k3j9x2m1q'' (getOperations None (storage (snd ?q)))
          = Some (callerOp\<lparr>op_id := ''op_1700000000000_k3j9x2m1q'', timestamp := 1700000000001,
                           status := Pending, retryCount := 0\<rparr>)"
    using T [THEN conjunct1, THEN conjunct2, THEN conjunct1] by (simp only: a)
  have c: "map (\<lambda>y. (op_id y, status y, retryCount y, timestamp y))
             (db_operations (storage (snd ?q)))
             = [(''op_1700000000000_k3j9x2m1q'', Pending, 0, 1700000000001)]"
    by (simp add: queueOperation_def Let_def i saveOperation_def emit_def schedule_def
          freshState_def emptyDb_def)
  from a c b show ?thesis by (intro conjI)
qed

section \<open>The sync queue: what a call and a drain change\<close>

lemma executeNoteOperation_frame:
  "sameQueue s (snd (executeNoteOperation a k i d s)) \<and>
   emitted (snd (executeNoteOperation a k i d s)) = emitted s"
  by (cases k)
     (simp_all add: executeNoteOperation_def sameQueue_def saveNote_def deleteNote_def
        split: sum.splits)

lemma executeFolderOperation_frame:
  "sameQueue s (snd (executeFolderOperation a k i d s)) \<and>
   emitted (snd (executeFolderOperation a k i d s)) = emitted s"
  by (cases k)
     (simp_all add: executeFolderOperation_def sameQueue_def saveFolder_def deleteFolder_def
        split: sum.splits)

lemma executeOperationTry_frame:
  "sameQueue s (snd (executeOperationTry a x s)) \<and>
   emitted (snd (executeOperationTry a x s)) = emitted s"
  by (simp add: executeOperationTry_def executeNoteOperation_frame executeFolderOperation_frame)

lemma executeNoteOperation_throws:
  "fst (executeNoteOperation a k i d s) = Inl e \<Longrightarrow> snd (executeNoteOperation a k i d s) = s"
  by (cases k) (simp_all add: executeNoteOperation_def split: sum.splits)

lemma executeFolderOperation_throws:
  "fst (executeFolderOperation a k i d s) = Inl e \<Longrightarrow> snd (executeFolderOperation a k i d s) = s"
  by (cases k) (simp_all add: executeFolderOperation_def split: sum.splits)

lemma executeOperationTry_throws:
  "fst (executeOperationTry a x s) = Inl e \<Longrightarrow> snd (executeOperationTry a x s) = s"
  by (simp add: executeOperationTry_def executeNoteOperation_throws executeFolderOperation_throws
        split: if_splits)

text \<open>Whether the API call throws, and what, does not depend on the state.\<close>

lemma executeNoteOperation_outcome:
  "(fst (executeNoteOperation a k i d s) = Inl e) = (fst (executeNoteOperation a k i d s') = Inl e)"
  by (cases k) (simp_all add: executeNoteOperation_def split: sum.splits)

lemma executeFolderOperation_outcome:
  "(fst (executeFolderOperation a k i d s) = Inl e) = (fst (executeFolderOperation a k i d s') = Inl e)"
  by (cases k) (simp_all add: executeFolderOperation_def split: sum.splits)

lemma executeOperationTry_outcome:
  "(fst (executeOperationTry a x s) = Inl e) = (fst (executeOperationTry a x s') = Inl e)"
  using executeNoteOperation_outcome [of a "op_type x" "entityId x" "data x" s e s']
        executeFolderOperation_outcome [of a "op_type x" "entityId x" "data x" s e s']
  by (simp add: executeOperationTry_def)

lemma executeOperation_frame: "sameQueue s (snd (executeOperation a x s))"
proof (cases "executeOperationTry a x s")
  case (Pair r s1)
  have f: "sameQueue s s1" using executeOperationTry_frame [of s a x] Pair by simp
  show ?thesis
  proof (cases r)
    case (Inl e)
    then show ?thesis using Pair f
      by (simp add: executeOperation_def handleConflict_def Let_def emit_def sameQueue_def)
  next
    case (Inr res)
    then show ?thesis using Pair f by (simp add: executeOperation_def)
  qed
qed

lemma processOperationCatch_counters:
  "activeSyncCount (snd (processOperationCatch cfg x err s)) = activeSyncCount s \<and>
   running (snd (processOperationCatch cfg x err s)) = running s"
  by (simp add: processOperationCatch_def Let_def schedule_def split: option.splits)

lemma processOperationResume_counters:
  "activeSyncCount (snd (processOperationResume cfg a x s)) = activeSyncCount s \<and>
   running (snd (processOperationResume cfg a x s)) = running s"
proof -
  obtain r s2 where ex: "executeOperation a x s = (r, s2)" by (cases "executeOperation a x s")
  have f: "activeSyncCount s2 = activeSyncCount s \<and> running s2 = running s"
    using executeOperation_frame [of s a x] ex by (simp add: sameQueue_def)
  show ?thesis
  proof (cases r)
    case (Inl e)
    then show ?thesis using ex f
      by (simp add: processOperationResume_def processOperationCatch_counters)
  next
    case (Inr res)
    then show ?thesis using ex f
      by (simp add: processOperationResume_def processOperationCatch_counters schedule_def
            split: option.splits)
  qed
qed

lemma processOperation_counters:
  "activeSyncCount (snd (processOperation cfg a x s)) = activeSyncCount s \<and>
   running (snd (processOperation cfg a x s)) = running s"
proof (cases "processOperationBegin x (storage s)")
  case None
  then show ?thesis by (simp add: processOperation_def processOperationCatch_counters)
next
  case (Some db1)
  then show ?thesis
    using processOperationResume_counters [of cfg a x "s\<lparr>storage := db1\<rparr>"]
    by (simp add: processOperation_def)
qed

lemma settle_counters:
  "activeSyncCount (settle cfg a x s) = activeSyncCount s - 1 \<and>
   running (settle cfg a x s) = remove1 x (running s)"
  using processOperationResume_counters [of cfg a x s]
  by (cases "processOperationResume cfg a x s") (simp add: settle_def callbacks_def emit_def)

text \<open>The write of \<^verbatim>\<open>'syncing'\<close> on a logged operation.\<close>

lemma processOperationBegin_found:
  assumes "findOperation (op_id x) (db_operations db) = Some y"
  shows "processOperationBegin x db
           = Some (db\<lparr>db_operations := putOperation (y\<lparr>status := Syncing, lastError := None\<rparr>)
                                          (db_operations db)\<rparr>)"
  using updateOperation_found [OF assms] by (simp add: processOperationBegin_def applyPatch_def)

lemma processOperationBegin_absent:
  "findOperation (op_id x) (db_operations db) = None \<Longrightarrow> processOperationBegin x db = None"
  by (simp add: processOperationBegin_def updateOperation_def)

text \<open>One first step: what it does to the record under a key.\<close>

lemma startCalls_step_log:
  "findOperation i (db_operations (storage
       (case processOperationBegin x (storage s) of
          Some db \<Rightarrow> s\<lparr>storage := db, running := running s @ [x]\<rparr>
        | None \<Rightarrow>
            (let (r, s1) = processOperationCatch cfg x (PlainError ''Operation not found'') s
             in callbacks x r s1))))
     = (if i = op_id x
        then map_option (\<lambda>y. y\<lparr>status := Syncing, lastError := None\<rparr>)
               (findOperation i (db_operations (storage s)))
        else findOperation i (db_operations (storage s)))"
proof (cases "findOperation (op_id x) (db_operations (storage s))")
  case None
  then show ?thesis
    by (simp add: processOperationBegin_absent processOperationCatch_def updateOperation_def
          callbacks_def emit_def)
next
  case (Some y)
  have y: "op_id (y\<lparr>status := Syncing, lastError := None\<rparr>) = op_id x"
    using Some findOperation_op_id [of "op_id x" "db_operations (storage s)" y] by simp
  show ?thesis
  proof (cases "i = op_id x")
    case True
    then show ?thesis
      using Some y findOperation_putOperation_same
              [of "y\<lparr>status := Syncing, lastError := None\<rparr>" "db_operations (storage s)"]
      by (simp add: processOperationBegin_found [OF Some])
  next
    case False
    then show ?thesis
      using Some y findOperation_putOperation_other
              [of i "y\<lparr>status := Syncing, lastError := None\<rparr>" "db_operations (storage s)"]
      by (simp add: processOperationBegin_found [OF Some])
  qed
qed

text \<open>The first steps of the started calls leave each record of the log as it was or mark
  it \<^verbatim>\<open>syncing\<close> with no error message.\<close>

lemma startCalls_log:
  "findOperation i (db_operations (storage (startCalls cfg xs s)))
     = (if i \<in> op_id ` set xs
        then map_option (\<lambda>y. y\<lparr>status := Syncing, lastError := None\<rparr>)
               (findOperation i (db_operations (storage s)))
        else findOperation i (db_operations (storage s)))"
proof (induction xs arbitrary: s)
  case Nil
  then show ?case by simp
next
  case (Cons x xs)
  let ?s1 = "(case processOperationBegin x (storage s) of
          Some db \<Rightarrow> s\<lparr>storage := db, running := running s @ [x]\<rparr>
        | None \<Rightarrow>
            (let (r, s1) = processOperationCatch cfg x (PlainError ''Operation not found'') s
             in callbacks x r s1))"
  have st: "startCalls cfg (x # xs) s = startCalls cfg xs ?s1" by simp
  have idem: "\<And>v. map_option (\<lambda>y. y\<lparr>status := Syncing, lastError := None\<rparr>)
                (map_option (\<lambda>y. y\<lparr>status := Syncing, lastError := None\<rparr>) v)
              = map_option (\<lambda>y. y\<lparr>status := Syncing, lastError := None\<rparr>) v"
    by (simp add: option.map_comp comp_def)
  show ?case
    unfolding st Cons.IH [of ?s1] startCalls_step_log [where x = x and s = s and cfg = cfg]
    by (simp add: idem)
qed

text \<open>When every started operation is in the log, every call is in flight afterwards.\<close>

lemma startCalls_effect:
  "\<forall>x\<in>set xs. findOperation (op_id x) (db_operations (storage s)) \<noteq> None \<Longrightarrow>
   running (startCalls cfg xs s) = running s @ xs \<and>
   activeSyncCount (startCalls cfg xs s) = activeSyncCount s \<and>
   content (startCalls cfg xs s) = content s \<and>
   isOnline (startCalls cfg xs s) = isOnline s \<and>
   isSyncing (startCalls cfg xs s) = isSyncing s \<and>
   timers (startCalls cfg xs s) = timers s \<and>
   emitted (startCalls cfg xs s) = emitted s \<and>
   db_notes (storage (startCalls cfg xs s)) = db_notes (storage s) \<and>
   db_folders (storage (startCalls cfg xs s)) = db_folders (storage s)"
proof (induction xs arbitrary: s)
  case Nil
  then show ?case by simp
next
  case (Cons x xs)
  obtain y where y: "findOperation (op_id x) (db_operations (storage s)) = Some y"
    using Cons.prems by auto
  let ?db = "(storage s)\<lparr>db_operations := putOperation (y\<lparr>status := Syncing, lastError := None\<rparr>)
                                             (db_operations (storage s))\<rparr>"
  let ?s1 = "s\<lparr>storage := ?db, running := running s @ [x]\<rparr>"
  have st: "startCalls cfg (x # xs) s = startCalls cfg xs ?s1"
    by (simp add: processOperationBegin_found [OF y])
  have "\<forall>x'\<in>set xs. findOperation (op_id x') (db_operations (storage ?s1)) \<noteq> None"
    using Cons.prems by (simp add: findOperation_putOperation_keeps)
  from Cons.IH [OF this] show ?case unfolding st by simp
qed

lemma allOps_logged: "x \<in> set (allOps db) \<Longrightarrow> findOperation (op_id x) (db_operations db) \<noteq> None"
  by (rule findOperation_member) (auto simp: allOps_def getOperations_def)

lemma processPendingOperations_effect:
  "isOnline s \<Longrightarrow> \<not> isSyncing s \<Longrightarrow>
   running (processPendingOperations cfg s)
     = running s @ take (maxConcurrentSync cfg - activeSyncCount s)
                     (filter (eligible cfg) (allOps (storage s))) \<and>
   activeSyncCount (processPendingOperations cfg s)
     = activeSyncCount s + length (take (maxConcurrentSync cfg - activeSyncCount s)
                                     (filter (eligible cfg) (allOps (storage s)))) \<and>
   content (processPendingOperations cfg s) = content s \<and>
   isOnline (processPendingOperations cfg s) \<and> \<not> isSyncing (processPendingOperations cfg s)"
proof -
  assume on: "isOnline s" "\<not> isSyncing s"
  let ?ops = "allOps (storage s)"
  obtain k st where d: "dispatchLoop cfg (activeSyncCount s) ?ops = (k, st)"
    by (cases "dispatchLoop cfg (activeSyncCount s) ?ops")
  have st: "st = take (maxConcurrentSync cfg - activeSyncCount s) (filter (eligible cfg) ?ops)"
    using dispatchLoop_started [of cfg "activeSyncCount s" ?ops] d by simp
  have k: "k = activeSyncCount s + length st"
    using dispatchLoop_counter [of cfg "activeSyncCount s" ?ops] d by simp
  show ?thesis
  proof (cases "?ops = []")
    case True
    then show ?thesis using on by (simp add: processPendingOperations_def Let_def emit_def)
  next
    case False
    let ?s2 = "s\<lparr>activeSyncCount := k,
                 emitted := emitted s @ [SyncStarted, SyncCompleted True 0 (Some 0)],
                 isSyncing := False\<rparr>"
    have p: "processPendingOperations cfg s = startCalls cfg st ?s2"
      using False on d by (simp add: processPendingOperations_def Let_def emit_def)
    have "set st \<subseteq> set ?ops" unfolding st by (meson in_set_takeD filter_is_subset subsetI subsetD)
    then have "\<forall>x\<in>set st. findOperation (op_id x) (db_operations (storage ?s2)) \<noteq> None"
      using allOps_logged [of _ "storage s"] by auto
    from startCalls_effect [OF this, of cfg] show ?thesis
      unfolding p using on st k by simp
  qed
qed

text \<open>A drain leaves each record of the log as it was, except that the records of the
  operations it starts are \<^verbatim>\<open>syncing\<close> with no error message.\<close>

lemma processPendingOperations_marks:
  assumes "isOnline s" "\<not> isSyncing s"
  shows "findOperation i (db_operations (storage (processPendingOperations cfg s)))
     = (if i \<in> op_id ` set (take (maxConcurrentSync cfg - activeSyncCount s)
                               (candidates cfg (storage s)))
        then map_option (\<lambda>y. y\<lparr>status := Syncing, lastError := None\<rparr>)
               (findOperation i (db_operations (storage s)))
        else findOperation i (db_operations (storage s)))"
proof (cases "allOps (storage s) = []")
  case True
  then show ?thesis using assms
    by (simp add: processPendingOperations_def Let_def emit_def candidates_def)
next
  case False
  obtain k st where d: "dispatchLoop cfg (activeSyncCount s) (allOps (storage s)) = (k, st)"
    by (cases "dispatchLoop cfg (activeSyncCount s) (allOps (storage s))")
  have st: "st = take (maxConcurrentSync cfg - activeSyncCount s) (candidates cfg (storage s))"
    using dispatchLoop_started [of cfg "activeSyncCount s" "allOps (storage s)"] d
    by (simp add: candidates_def)
  let ?s2 = "s\<lparr>activeSyncCount := k,
               emitted := emitted s @ [SyncStarted, SyncCompleted True 0 (Some 0)],
               isSyncing := False\<rparr>"
  have p: "processPendingOperations cfg s = startCalls cfg st ?s2"
    using False assms d by (simp add: processPendingOperations_def Let_def emit_def)
  show ?thesis unfolding p startCalls_log by (simp add: st)
qed

lemma processPendingOperations_idle:
  "\<not> isOnline s \<or> isSyncing s \<Longrightarrow> processPendingOperations cfg s = s"
  by (simp add: processPendingOperations_def)

lemma processPendingOperations_invariant:
  assumes "length (running s) = activeSyncCount s" "activeSyncCount s \<le> maxConcurrentSync cfg"
  shows "length (running (processPendingOperations cfg s))
           = activeSyncCount (processPendingOperations cfg s) \<and>
         activeSyncCount (processPendingOperations cfg s) \<le> maxConcurrentSync cfg"
proof (cases "isOnline s \<and> \<not> isSyncing s")
  case True
  then show ?thesis using assms processPendingOperations_effect [of s cfg] by simp
next
  case False
  then show ?thesis using assms processPendingOperations_idle [of s cfg] by auto
qed

lemma reachable_invariant:
  "reachable cfg s \<Longrightarrow>
   length (running s) = activeSyncCount s \<and> activeSyncCount s \<le> maxConcurrentSync cfg"
proof (induction rule: reachable.induct)
  case (started s)
  then show ?case by simp
next
  case (enqueued s now rnd now' x)
  then show ?case by (simp add: queueOperation_def Let_def emit_def schedule_def)
next
  case (drained s)
  then show ?case using processPendingOperations_invariant [of s cfg] by simp
next
  case (settled s x a)
  then have "length (remove1 x (running s)) = activeSyncCount s - 1"
    by (simp add: length_remove1)
  moreover have "activeSyncCount s - 1 \<le> maxConcurrentSync cfg" using settled.IH by linarith
  ultimately show ?case using settle_counters [of cfg a x s] by simp
next
  case (connectivity s b)
  then show ?case by simp
next
  case (retried s i)
  show ?case
  proof (cases "findOperation i (getOperations None (storage s))")
    case None
    then show ?thesis using retried by (simp add: retryOperation_def)
  next
    case (Some y)
    show ?thesis
    proof (cases "updateOperation i
        \<lparr>p_status = Some Pending, p_retryCount = Some 0, p_lastError = Some None\<rparr> (storage s)")
      case None
      then show ?thesis using Some retried by (simp add: retryOperation_def)
    next
      case upd: (Some db)
      have "length (running (s\<lparr>storage := db\<rparr>)) = activeSyncCount (s\<lparr>storage := db\<rparr>)"
        and "activeSyncCount (s\<lparr>storage := db\<rparr>) \<le> maxConcurrentSync cfg"
        using retried by simp_all
      then show ?thesis
        using Some upd retried processPendingOperations_invariant [of "s\<lparr>storage := db\<rparr>" cfg]
        by (simp add: retryOperation_def)
    qed
  qed
next
  case (cancelled s i)
  then show ?case by (simp add: cancelOperation_def Let_def emit_def split: option.splits)
next
  case (purged s i)
  then show ?case by simp
qed

section \<open>Bounded concurrency and the order of dispatch\<close>

lemma sorted_take_drop:
  assumes "sorted (map f ys)" "a \<in> set (take k ys)" "b \<in> set (drop k ys)"
  shows "f a \<le> f b"
proof -
  have "map f ys = map f (take k ys) @ map f (drop k ys)"
    by (simp only: map_append [symmetric] append_take_drop_id)
  then have "sorted (map f (take k ys) @ map f (drop k ys))" using assms(1) by simp
  then have "\<forall>u \<in> set (map f (take k ys)). \<forall>v \<in> set (map f (drop k ys)). u \<le> v"
    by (simp only: sorted_append) simp
  then show ?thesis using assms(2,3) by simp
qed

lemma set_candidates:
  "set (candidates cfg db)
     = {x \<in> set (db_operations db).
          (status x = Pending \<or> status x = Failed) \<and> retryCount x < maxRetries cfg}"
  by (auto simp: candidates_def allOps_def getOperations_def eligible_def)

lemma sorted_candidates: "sorted (map timestamp (candidates cfg db))"
  unfolding candidates_def using sorted_allOps by (rule sorted_filter)

lemma orDefault_values: "orDefault None d = d" "0 < n \<Longrightarrow> orDefault (Some n) d = n"
  by (simp_all add: orDefault_def)

text \<open>
  Claim C6. In every state the service can reach, the started and unsettled calls are as
  many as \<^verbatim>\<open>activeSyncCount\<close> says and never more than \<^verbatim>\<open>maxConcurrentSync\<close>, which is
  3 unless the options give a positive number. A drain of an online, idle service
  starts the first free slots' worth of the candidates; the candidates are exactly the
  pending and failed operations below the retry limit, in ascending timestamp order, so
  no operation left behind is older than one that was started.
\<close>

theorem in_flight_bounded_oldest_first:
  assumes "reachable cfg s"
  shows "length (running s) = activeSyncCount s \<and>
         activeSyncCount s \<le> maxConcurrentSync cfg \<and>
         (isOnline s \<and> \<not> isSyncing s \<longrightarrow>
            running (processPendingOperations cfg s)
              = running s @ take (maxConcurrentSync cfg - activeSyncCount s)
                              (candidates cfg (storage s))) \<and>
         set (candidates cfg (storage s))
           = {x \<in> set (db_operations (storage s)).
                (status x = Pending \<or> status x = Failed) \<and> retryCount x < maxRetries cfg} \<and>
         sorted (map timestamp (candidates cfg (storage s))) \<and>
         (\<forall>k. \<forall>a \<in> set (take k (candidates cfg (storage s))).
               \<forall>b \<in> set (drop k (candidates cfg (storage s))). timestamp a \<le> timestamp b) \<and>
         maxConcurrentSync (constructor (opts\<lparr>o_maxConcurrentSync := None\<rparr>)) = 3 \<and>
         (\<forall>n. 0 < n \<longrightarrow> maxConcurrentSync (constructor (opts\<lparr>o_maxConcurrentSync := Some n\<rparr>)) = n)"
proof -
  have inv: "length (running s) = activeSyncCount s \<and> activeSyncCount s \<le> maxConcurrentSync cfg"
    using assms by (rule reachable_invariant)
  have drain: "isOnline s \<and> \<not> isSyncing s \<longrightarrow>
            running (processPendingOperations cfg s)
              = running s @ take (maxConcurrentSync cfg - activeSyncCount s)
                              (candidates cfg (storage s))"
    using processPendingOperations_effect [of s cfg] by (simp add: candidates_def)
  have order: "\<forall>k. \<forall>a \<in> set (take k (candidates cfg (storage s))).
               \<forall>b \<in> set (drop k (candidates cfg (storage s))). timestamp a \<le> timestamp b"
    using sorted_take_drop [OF sorted_candidates] by blast
  have dflt: "maxConcurrentSync (constructor (opts\<lparr>o_maxConcurrentSync := None\<rparr>)) = 3"
    by (simp add: constructor_def orDefault_values)
  have conf: "\<forall>n. 0 < n \<longrightarrow>
                maxConcurrentSync (constructor (opts\<lparr>o_maxConcurrentSync := Some n\<rparr>)) = n"
    by (simp add: constructor_def orDefault_values)
  show ?thesis
    by (rule conjI [OF conjunct1 [OF inv] conjI [OF conjunct2 [OF inv] conjI [OF drain
          conjI [OF set_candidates conjI [OF sorted_candidates conjI [OF order
          conjI [OF dflt conf]]]]]]])
qed

lemma pendingUpdate_fields [simp]:
  "op_id (pendingUpdate i n t ts) = i" "timestamp (pendingUpdate i n t ts) = ts"
  "status (pendingUpdate i n t ts) = Pending" "retryCount (pendingUpdate i n t ts) = 0"
  "entityId (pendingUpdate i n t ts) = n" "entityType (pendingUpdate i n t ts) = NoteEntity"
  "op_type (pendingUpdate i n t ts) = Update" "lastError (pendingUpdate i n t ts) = None"
  by (simp_all add: pendingUpdate_def)

lemma defaultConfig_values [simp]:
  "maxRetries defaultConfig = 3" "retryDelayMs defaultConfig = 5000"
  "maxConcurrentSync defaultConfig = 3" "syncIntervalMs defaultConfig = 30000"
  by (simp_all add: defaultConfig_def constructor_def orDefault_def)

lemma fiveQueued_drained:
  "running (processPendingOperations defaultConfig fiveQueued)
     = [pendingUpdate ''e'' ''n1'' ''A'' 10, pendingUpdate ''d'' ''n2'' ''B'' 20,
        pendingUpdate ''c'' ''n3'' ''C'' 30] \<and>
   activeSyncCount (processPendingOperations defaultConfig fiveQueued) = 3 \<and>
   isOnline (processPendingOperations defaultConfig fiveQueued) \<and>
   \<not> isSyncing (processPendingOperations defaultConfig fiveQueued)"
proof -
  have idle: "isOnline fiveQueued" "\<not> isSyncing fiveQueued"
    by (simp_all add: fiveQueued_def freshState_def)
  have st: "take (maxConcurrentSync defaultConfig - activeSyncCount fiveQueued)
              (filter (eligible defaultConfig) (allOps (storage fiveQueued)))
            = [pendingUpdate ''e'' ''n1'' ''A'' 10, pendingUpdate ''d'' ''n2'' ''B'' 20,
               pendingUpdate ''c'' ''n3'' ''C'' 30]"
    by (simp add: eligible_def allOps_def getOperations_def fiveQueued_def freshState_def
          emptyDb_def)
  have c: "activeSyncCount fiveQueued = 0" "running fiveQueued = []"
    by (simp_all add: fiveQueued_def freshState_def)
  show ?thesis
    using processPendingOperations_effect [OF idle, of defaultConfig, unfolded st]
    by (simp add: c)
qed

text \<open>After that drain the three started operations are \<^verbatim>\<open>syncing\<close> in the log.\<close>

lemma fiveQueued_marked:
  "map (\<lambda>i. map_option status (findOperation i (db_operations (storage
          (processPendingOperations defaultConfig fiveQueued))))) [''a'', ''b'', ''c'', ''d'', ''e'']
     = [Some Pending, Some Pending, Some Syncing, Some Syncing, Some Syncing]"
proof -
  have idle: "isOnline fiveQueued" "\<not> isSyncing fiveQueued"
    by (simp_all add: fiveQueued_def freshState_def)
  have st: "take (maxConcurrentSync defaultConfig - activeSyncCount fiveQueued)
              (candidates defaultConfig (storage fiveQueued))
            = [pendingUpdate ''e'' ''n1'' ''A'' 10, pendingUpdate ''d'' ''n2'' ''B'' 20,
               pendingUpdate ''c'' ''n3'' ''C'' 30]"
    by (simp add: candidates_def eligible_def allOps_def getOperations_def fiveQueued_def
          freshState_def emptyDb_def)
  show ?thesis
    unfolding list.map processPendingOperations_marks [OF idle] st
    by (simp add: fiveQueued_def freshState_def emptyDb_def)
qed

text \<open>Five operations on five notes with the default bound: the drain starts the three
  oldest, the counter stands at 3, and a second drain starts nothing more.\<close>

theorem in_flight_bounded_oldest_first_witness:
  "reachable defaultConfig (processPendingOperations defaultConfig fiveQueued) \<and>
   map op_id (running (processPendingOperations defaultConfig fiveQueued)) = [''e'', ''d'', ''c''] \<and>
   length (running (processPendingOperations defaultConfig fiveQueued))
     = activeSyncCount (processPendingOperations defaultConfig fiveQueued) \<and>
   activeSyncCount (processPendingOperations defaultConfig fiveQueued) \<le> 3 \<and>
   running (processPendingOperations defaultConfig
              (processPendingOperations defaultConfig fiveQueued))
     = running (processPendingOperations defaultConfig fiveQueued)"
proof -
  let ?s1 = "processPendingOperations defaultConfig fiveQueued"
  have r0: "reachable defaultConfig fiveQueued"
    by (rule reachable.started) (simp_all add: fiveQueued_def freshState_def)
  have r1: "reachable defaultConfig ?s1" by (rule reachable.drained [OF r0])
  note T = in_flight_bounded_oldest_first [OF r1]
  have ids: "map op_id (running ?s1) = [''e'', ''d'', ''c'']"
    by (simp add: fiveQueued_drained)
  have len: "length (running ?s1) = activeSyncCount ?s1" by (rule T [THEN conjunct1])
  have bound: "activeSyncCount ?s1 \<le> 3"
    using T [THEN conjunct2, THEN conjunct1] by simp
  have again: "running (processPendingOperations defaultConfig ?s1) = running ?s1"
    using T [THEN conjunct2, THEN conjunct2, THEN conjunct1] fiveQueued_drained by simp
  show ?thesis by (rule conjI [OF r1 conjI [OF ids conjI [OF len conjI [OF bound again]]]])
qed

section \<open>Failure, retry and conflict in the sync queue\<close>

lemma findOperation_after_delete: "findOperation i (db_operations (deleteOperation i db)) = None"
  by (simp add: deleteOperation_def findOperation_filter_out)

lemma dispatchLoop_eligible: "z \<in> set (snd (dispatchLoop cfg k ops)) \<Longrightarrow> eligible cfg z"
proof -
  assume "z \<in> set (snd (dispatchLoop cfg k ops))"
  then have "z \<in> set (take (maxConcurrentSync cfg - k) (filter (eligible cfg) ops))"
    by (simp only: dispatchLoop_started)
  then have "z \<in> set (filter (eligible cfg) ops)" by (rule in_set_takeD)
  then show ?thesis by simp
qed

text \<open>The first step of \<^verbatim>\<open>processOperation\<close> on a logged operation.\<close>

lemma mark_syncing:
  assumes "findOperation (op_id x) (db_operations (storage s)) = Some y"
  shows "\<exists>db1. processOperationBegin x (storage s) = Some db1 \<and>
               findOperation (op_id x) (db_operations db1)
                 = Some (y\<lparr>status := Syncing, lastError := None\<rparr>)"
proof -
  let ?p = "\<lparr>p_status = Some Syncing, p_retryCount = None, p_lastError = Some None\<rparr>"
  let ?db1 = "(storage s)\<lparr>db_operations := putOperation (applyPatch ?p y) (db_operations (storage s))\<rparr>"
  have u: "updateOperation (op_id x) ?p (storage s) = Some ?db1"
    using assms by (rule updateOperation_found)
  have "findOperation (op_id x) (db_operations ?db1) = Some (applyPatch ?p y)"
    using assms u by (rule findOperation_after_update)
  moreover have "applyPatch ?p y = y\<lparr>status := Syncing, lastError := None\<rparr>"
    by (simp add: applyPatch_def)
  ultimately show ?thesis using u by (simp add: processOperationBegin_def)
qed

text \<open>The \<^verbatim>\<open>catch\<close> block on a logged operation: the record gets the new count, the
  status and the message, a retry is set only below the limit, and the error is
  rethrown.\<close>

lemma processOperationCatch_logged:
  assumes "findOperation (op_id x) (db_operations (storage s)) = Some y"
  shows "fst (processOperationCatch cfg x err s) = Some err \<and>
         findOperation (op_id x)
             (db_operations (storage (snd (processOperationCatch cfg x err s))))
           = Some (y\<lparr>status := (if retryCount x + 1 \<ge> maxRetries cfg then Failed else Pending),
                     retryCount := retryCount x + 1, lastError := Some (message err)\<rparr>) \<and>
         timers (snd (processOperationCatch cfg x err s))
           = timers s @ (if retryCount x + 1 < maxRetries cfg
                         then [(retryDelayMs cfg * (retryCount x + 1), ProcessPendingOperations)]
                         else []) \<and>
         emitted (snd (processOperationCatch cfg x err s)) = emitted s \<and>
         content (snd (processOperationCatch cfg x err s)) = content s"
proof -
  let ?st = "if retryCount x + 1 \<ge> maxRetries cfg then Failed else Pending"
  let ?p = "\<lparr>p_status = Some ?st, p_retryCount = Some (retryCount x + 1),
             p_lastError = Some (Some (message err))\<rparr>"
  let ?db = "(storage s)\<lparr>db_operations := putOperation (applyPatch ?p y) (db_operations (storage s))\<rparr>"
  have u: "updateOperation (op_id x) ?p (storage s) = Some ?db"
    using assms by (rule updateOperation_found)
  have f: "findOperation (op_id x) (db_operations ?db) = Some (applyPatch ?p y)"
    using assms u by (rule findOperation_after_update)
  have p: "applyPatch ?p y = y\<lparr>status := ?st, retryCount := retryCount x + 1,
                                lastError := Some (message err)\<rparr>"
    by (simp add: applyPatch_def)
  show ?thesis
  proof (cases "retryCount x + 1 \<ge> maxRetries cfg")
    case True
    then show ?thesis using u f p
      by (simp add: processOperationCatch_def Let_def schedule_def)
  next
    case False
    then show ?thesis using u f p
      by (simp add: processOperationCatch_def Let_def schedule_def)
  qed
qed

text \<open>\<^verbatim>\<open>executeOperation\<close> when the API call throws: a 409 becomes a conflict result
  and one \<^verbatim>\<open>conflict\<close> event, any other error is rethrown.\<close>

lemma executeOperation_throws:
  assumes "fst (executeOperationTry a x s) = Inl e"
  shows "executeOperation a x s
           = (if e_status e = 409
              then (Inr \<lparr>success = False, r_error = Some ''Conflict detected'',
                         conflicts = [\<lparr>operationId = op_id x, localData = data x,
                                       remoteData = e_data e, field = ''content''\<rparr>]\<rparr>,
                    emit (ConflictEvent x [\<lparr>operationId = op_id x, localData = data x,
                                            remoteData = e_data e, field = ''content''\<rparr>]) s)
              else (Inl e, s))"
proof -
  have "snd (executeOperationTry a x s) = s" using assms by (rule executeOperationTry_throws)
  with assms have "executeOperationTry a x s = (Inl e, s)"
    by (cases "executeOperationTry a x s") simp
  then show ?thesis by (simp add: executeOperation_def handleConflict_def Let_def)
qed

text \<open>\<^verbatim>\<open>processOperation\<close> on a logged operation whose API call throws \<open>e\<close>.\<close>

lemma processOperation_rejected:
  assumes found: "findOperation (op_id x) (db_operations (storage s)) = Some y"
      and fails: "fst (executeOperationTry a x s) = Inl e"
  defines "err \<equiv> (if e_status e = 409 then PlainError ''Conflict detected'' else ApiFailure e)"
  shows "fst (processOperation cfg a x s) = Some err \<and>
         findOperation (op_id x) (db_operations (storage (snd (processOperation cfg a x s))))
           = Some (y\<lparr>status := (if retryCount x + 1 \<ge> maxRetries cfg then Failed else Pending),
                     retryCount := retryCount x + 1, lastError := Some (message err)\<rparr>) \<and>
         timers (snd (processOperation cfg a x s))
           = timers s @ (if retryCount x + 1 < maxRetries cfg
                         then [(retryDelayMs cfg * (retryCount x + 1), ProcessPendingOperations)]
                         else []) \<and>
         emitted (snd (processOperation cfg a x s))
           = emitted s @ (if e_status e = 409
                          then [ConflictEvent x [\<lparr>operationId = op_id x, localData = data x,
                                                  remoteData = e_data e, field = ''content''\<rparr>]]
                          else []) \<and>
         content (snd (processOperation cfg a x s)) = content s"
proof -
  let ?y1 = "y\<lparr>status := Syncing, lastError := None\<rparr>"
  obtain db1 where u: "processOperationBegin x (storage s) = Some db1"
    and f1: "findOperation (op_id x) (db_operations db1) = Some ?y1"
    using mark_syncing [OF found] by metis
  let ?s1 = "s\<lparr>storage := db1\<rparr>"
  have fails1: "fst (executeOperationTry a x ?s1) = Inl e"
    using fails executeOperationTry_outcome [of a x s e ?s1] by simp
  note ex = executeOperation_throws [OF fails1]
  show ?thesis
  proof (cases "e_status e = 409")
    case True
    let ?c = "[\<lparr>operationId = op_id x, localData = data x, remoteData = e_data e,
                field = ''content''\<rparr>]"
    let ?s2 = "emit (ConflictEvent x ?c) ?s1"
    have f2: "findOperation (op_id x) (db_operations (storage ?s2)) = Some ?y1"
      using f1 by (simp add: emit_def)
    have p: "processOperation cfg a x s
               = processOperationCatch cfg x (PlainError ''Conflict detected'') ?s2"
      using u ex True by (simp add: processOperation_def processOperationResume_def resultError_def)
    show ?thesis
      using processOperationCatch_logged [OF f2, of cfg "PlainError ''Conflict detected''"] True
      by (simp add: p err_def emit_def)
  next
    case False
    have f2: "findOperation (op_id x) (db_operations (storage ?s1)) = Some ?y1"
      using f1 by simp
    have p: "processOperation cfg a x s = processOperationCatch cfg x (ApiFailure e) ?s1"
      using u ex False by (simp add: processOperation_def processOperationResume_def)
    show ?thesis
      using processOperationCatch_logged [OF f2, of cfg "ApiFailure e"] False
      by (simp add: p err_def)
  qed
qed

text \<open>A manual retry of a logged operation: the record is \<^verbatim>\<open>pending\<close> with count 0 and no
  message, or \<^verbatim>\<open>syncing\<close> when the drain that the retry runs has started it.\<close>

lemma retryOperation_logged:
  assumes "findOperation i (db_operations (storage s)) = Some z"
  shows "fst (retryOperation cfg i s) = None \<and>
         findOperation i (db_operations (storage (snd (retryOperation cfg i s))))
           = Some (z\<lparr>status := (if i \<in> op_id ` set (drop (length (running s))
                                                      (running (snd (retryOperation cfg i s))))
                                 then Syncing else Pending),
                     retryCount := 0, lastError := None\<rparr>)"
proof -
  let ?p = "\<lparr>p_status = Some Pending, p_retryCount = Some 0, p_lastError = Some None\<rparr>"
  let ?db = "(storage s)\<lparr>db_operations := putOperation (applyPatch ?p z) (db_operations (storage s))\<rparr>"
  let ?s1 = "s\<lparr>storage := ?db\<rparr>"
  have u: "updateOperation i ?p (storage s) = Some ?db"
    using assms by (rule updateOperation_found)
  have f: "findOperation i (db_operations ?db) = Some (applyPatch ?p z)"
    using assms u by (rule findOperation_after_update)
  have p: "applyPatch ?p z = z\<lparr>status := Pending, retryCount := 0, lastError := None\<rparr>"
    by (simp add: applyPatch_def)
  have ret: "retryOperation cfg i s
               = (None, if isOnline s then processPendingOperations cfg ?s1 else ?s1)"
    using assms u by (simp add: retryOperation_def getOperations_def)
  show ?thesis
  proof (cases "isOnline s \<and> \<not> isSyncing s")
    case True
    have on: "isOnline ?s1" "\<not> isSyncing ?s1" using True by simp_all
    have r: "snd (retryOperation cfg i s) = processPendingOperations cfg ?s1"
      using ret True by simp
    have "running (processPendingOperations cfg ?s1)
            = running ?s1 @ take (maxConcurrentSync cfg - activeSyncCount ?s1)
                              (filter (eligible cfg) (allOps (storage ?s1)))"
      by (rule processPendingOperations_effect [OF on, of cfg, THEN conjunct1])
    then have dr: "drop (length (running s)) (running (processPendingOperations cfg ?s1))
            = take (maxConcurrentSync cfg - activeSyncCount ?s1) (candidates cfg (storage ?s1))"
      by (simp add: candidates_def)
    have m: "findOperation i (db_operations (storage (processPendingOperations cfg ?s1)))
         = (if i \<in> op_id ` set (take (maxConcurrentSync cfg - activeSyncCount ?s1)
                                   (candidates cfg (storage ?s1)))
            then map_option (\<lambda>y. y\<lparr>status := Syncing, lastError := None\<rparr>)
                   (findOperation i (db_operations (storage ?s1)))
            else findOperation i (db_operations (storage ?s1)))"
      by (rule processPendingOperations_marks [OF on])
    have f1: "findOperation i (db_operations (storage ?s1))
                = Some (z\<lparr>status := Pending, retryCount := 0, lastError := None\<rparr>)"
      using f p by simp
    have c1: "fst (retryOperation cfg i s) = None" using ret by simp
    have c2: "findOperation i (db_operations (storage (snd (retryOperation cfg i s))))
           = Some (z\<lparr>status := (if i \<in> op_id ` set (drop (length (running s))
                                                      (running (snd (retryOperation cfg i s))))
                                 then Syncing else Pending),
                     retryCount := 0, lastError := None\<rparr>)"
      unfolding r dr m f1 by simp
    show ?thesis by (rule conjI [OF c1 c2])
  next
    case False
    have "processPendingOperations cfg ?s1 = ?s1" if "isOnline s"
      using that False processPendingOperations_idle [of ?s1 cfg] by simp
    then have r: "snd (retryOperation cfg i s) = ?s1" using ret by (cases "isOnline s") simp_all
    have c1: "fst (retryOperation cfg i s) = None" using ret by simp
    have c2: "findOperation i (db_operations (storage (snd (retryOperation cfg i s))))
           = Some (z\<lparr>status := (if i \<in> op_id ` set (drop (length (running s))
                                                      (running (snd (retryOperation cfg i s))))
                                 then Syncing else Pending),
                     retryCount := 0, lastError := None\<rparr>)"
      unfolding r using f p by simp
    show ?thesis by (rule conjI [OF c1 c2])
  qed
qed

lemma cancelOperation_removes:
  "findOperation i (db_operations (storage (cancelOperation i s))) = None"
  by (simp add: cancelOperation_def Let_def emit_def deleteNote_def deleteFolder_def
        deleteOperation_def findOperation_filter_out split: option.splits)

lemma failingApi_throws:
  "fst (executeOperationTry (failingApi e) x s) = Inl e"
  by (cases "op_type x")
     (simp_all add: executeOperationTry_def executeNoteOperation_def executeFolderOperation_def
        failingApi_def)

lemma oneQueued_logged:
  "findOperation ''op1'' (db_operations (storage oneQueued))
     = Some (pendingUpdate ''op1'' ''n1'' ''Local'' 10)"
  by (simp add: oneQueued_def freshState_def emptyDb_def)

lemma afterNetworkError_value:
  "afterNetworkError = oneQueued
     \<lparr>storage := emptyDb\<lparr>db_operations :=
        [(pendingUpdate ''op1'' ''n1'' ''Local'' 10)
           \<lparr>status := Pending, retryCount := 1, lastError := Some ''Network error''\<rparr>]\<rparr>,
      timers := [(5000, ProcessPendingOperations)]\<rparr>"
  by (simp add: afterNetworkError_def processOperation_def processOperationBegin_def
        processOperationResume_def updateOperation_def oneQueued_def
        freshState_def emptyDb_def applyPatch_def executeOperation_def executeOperationTry_def
        executeNoteOperation_def failingApi_def networkError_def handleConflict_def Let_def
        emit_def resultError_def processOperationCatch_def schedule_def)

lemma afterThirdFailure_value:
  "afterThirdFailure = twiceFailed
     \<lparr>storage := emptyDb\<lparr>db_operations :=
        [(pendingUpdate ''op1'' ''n1'' ''Local'' 10)
           \<lparr>status := Failed, retryCount := 3, lastError := Some ''Network error''\<rparr>]\<rparr>\<rparr>"
  by (simp add: afterThirdFailure_def processOperation_def processOperationBegin_def
        processOperationResume_def updateOperation_def twiceFailed_def
        freshState_def emptyDb_def applyPatch_def executeOperation_def executeOperationTry_def
        executeNoteOperation_def failingApi_def networkError_def handleConflict_def Let_def
        emit_def resultError_def processOperationCatch_def schedule_def)

lemma oneQueued_drained:
  "processPendingOperations defaultConfig oneQueued
     = oneQueued
        \<lparr>storage := emptyDb\<lparr>db_operations :=
           [(pendingUpdate ''op1'' ''n1'' ''Local'' 10)\<lparr>status := Syncing\<rparr>]\<rparr>,
         activeSyncCount := 1,
         emitted := [SyncStarted, SyncCompleted True 0 (Some 0)],
         running := [pendingUpdate ''op1'' ''n1'' ''Local'' 10]\<rparr>"
  by (simp add: processPendingOperations_def Let_def emit_def allOps_def getOperations_def
        oneQueued_def freshState_def emptyDb_def processOperationBegin_def
        updateOperation_def applyPatch_def pendingUpdate_def)

lemma failedOnce_value:
  "failedOnce = oneQueued
     \<lparr>storage := emptyDb\<lparr>db_operations :=
        [(pendingUpdate ''op1'' ''n1'' ''Local'' 10)
           \<lparr>status := Pending, retryCount := 1, lastError := Some ''Network error''\<rparr>]\<rparr>,
      activeSyncCount := 0,
      emitted := [SyncStarted, SyncCompleted True 0 (Some 0),
                  OperationFailed (pendingUpdate ''op1'' ''n1'' ''Local'' 10)
                    (ApiFailure networkError)],
      timers := [(5000, ProcessPendingOperations)],
      running := []\<rparr>"
  unfolding failedOnce_def oneQueued_drained
  by (simp add: settle_def callbacks_def processOperationResume_def updateOperation_def
        oneQueued_def freshState_def emptyDb_def applyPatch_def executeOperation_def
        executeOperationTry_def executeNoteOperation_def failingApi_def networkError_def
        handleConflict_def Let_def emit_def resultError_def processOperationCatch_def
        schedule_def)

lemma enqueuedAfterFailure_value:
  "enqueuedAfterFailure = failedOnce
     \<lparr>storage := emptyDb\<lparr>db_operations :=
        [(pendingUpdate ''op1'' ''n1'' ''Local'' 10)
           \<lparr>status := Pending, retryCount := 1, lastError := Some ''Network error''\<rparr>,
         (pendingUpdate ''new'' ''n2'' ''Other'' 0)\<lparr>op_id := ''op_20_r'', timestamp := 20\<rparr>]\<rparr>,
      emitted := emitted failedOnce @ [OperationQueued
         ((pendingUpdate ''new'' ''n2'' ''Other'' 0)\<lparr>op_id := ''op_20_r'', timestamp := 20\<rparr>)],
      timers := [(5000, ProcessPendingOperations), (0, ProcessPendingOperations)]\<rparr>"
  unfolding enqueuedAfterFailure_def failedOnce_value
  by (simp add: queueOperation_def Let_def generateOpId_def decimal.simps digits_def
        saveOperation_def emit_def schedule_def oneQueued_def freshState_def emptyDb_def
        pendingUpdate_def)

text \<open>
  Claim C5 as stated fails. A drain starts an update under the default configuration
  and the call fails with a network error: the record is \<^verbatim>\<open>pending\<close> with count 1 and a
  drain is set 5000 ms later. An operation enqueued right then sets a drain with no
  delay. That drain comes first, and it starts the failed operation again along with
  the new one: the retry has not waited for the delay.
\<close>

theorem retry_before_delay_counterexample:
  "reachable defaultConfig (processPendingOperations defaultConfig enqueuedAfterFailure) \<and>
   map (\<lambda>y. (op_id y, status y, retryCount y)) (db_operations (storage failedOnce))
     = [(''op1'', Pending, 1)] \<and>
   timers failedOnce = [(5000, ProcessPendingOperations)] \<and>
   timers enqueuedAfterFailure = [(5000, ProcessPendingOperations), (0, ProcessPendingOperations)] \<and>
   map (\<lambda>y. (op_id y, retryCount y))
       (running (processPendingOperations defaultConfig enqueuedAfterFailure))
     = [(''op1'', 1), (''op_20_r'', 0)]"
proof -
  have r0: "reachable defaultConfig oneQueued"
    by (rule reachable.started) (simp_all add: oneQueued_def freshState_def)
  have r1: "reachable defaultConfig (processPendingOperations defaultConfig oneQueued)"
    by (rule reachable.drained [OF r0])
  have inflight: "pendingUpdate ''op1'' ''n1'' ''Local'' 10
                    \<in> set (running (processPendingOperations defaultConfig oneQueued))"
    by (simp add: oneQueued_drained)
  have r2: "reachable defaultConfig failedOnce"
    unfolding failedOnce_def by (rule reachable.settled [OF r1 inflight])
  have r3: "reachable defaultConfig enqueuedAfterFailure"
    unfolding enqueuedAfterFailure_def by (rule reachable.enqueued [OF r2])
  have r: "reachable defaultConfig (processPendingOperations defaultConfig enqueuedAfterFailure)"
    by (rule reachable.drained [OF r3])
  have a: "map (\<lambda>y. (op_id y, status y, retryCount y)) (db_operations (storage failedOnce))
             = [(''op1'', Pending, 1)]"
    by (simp add: failedOnce_value)
  have b: "timers failedOnce = [(5000, ProcessPendingOperations)]"
    by (simp add: failedOnce_value)
  have c: "timers enqueuedAfterFailure
             = [(5000, ProcessPendingOperations), (0, ProcessPendingOperations)]"
    by (simp add: enqueuedAfterFailure_value)
  have idle: "isOnline enqueuedAfterFailure" "\<not> isSyncing enqueuedAfterFailure"
    by (simp_all add: enqueuedAfterFailure_value failedOnce_value oneQueued_def
          freshState_def)
  have st: "take (maxConcurrentSync defaultConfig - activeSyncCount enqueuedAfterFailure)
              (filter (eligible defaultConfig) (allOps (storage enqueuedAfterFailure)))
            = [(pendingUpdate ''op1'' ''n1'' ''Local'' 10)
                 \<lparr>status := Pending, retryCount := 1, lastError := Some ''Network error''\<rparr>,
               (pendingUpdate ''new'' ''n2'' ''Other'' 0)\<lparr>op_id := ''op_20_r'', timestamp := 20\<rparr>]"
    by (simp add: enqueuedAfterFailure_value failedOnce_value eligible_def allOps_def
          getOperations_def oneQueued_def freshState_def emptyDb_def)
  have r0': "running enqueuedAfterFailure = []"
    by (simp add: enqueuedAfterFailure_value failedOnce_value oneQueued_def freshState_def)
  have "running (processPendingOperations defaultConfig enqueuedAfterFailure)
          = [(pendingUpdate ''op1'' ''n1'' ''Local'' 10)
                 \<lparr>status := Pending, retryCount := 1, lastError := Some ''Network error''\<rparr>,
             (pendingUpdate ''new'' ''n2'' ''Other'' 0)\<lparr>op_id := ''op_20_r'', timestamp := 20\<rparr>]"
    using processPendingOperations_effect [OF idle, of defaultConfig, THEN conjunct1]
    by (simp only: st r0' append_Nil)
  then have d: "map (\<lambda>y. (op_id y, retryCount y))
       (running (processPendingOperations defaultConfig enqueuedAfterFailure))
     = [(''op1'', 1), (''op_20_r'', 0)]"
    by simp
  show ?thesis by (rule conjI [OF r conjI [OF a conjI [OF b conjI [OF c d]]]])
qed

text \<open>
  Claim C5, amended. When the API call of a logged operation throws an error other than
  a version conflict, \<^verbatim>\<open>processOperation\<close> rejects with that error and the logged record
  gets the incremented retry count and the message. Below the limit (3 by default) the
  record is \<^verbatim>\<open>pending\<close> again at once and a drain is set after \<^verbatim>\<open>retryDelayMs\<close> times the
  new count; the record is a candidate of every drain from then on, so that drain, or
  any drain that runs before it, starts the operation again when the service is online
  and idle and the operation is within the free slots, and marks it \<^verbatim>\<open>syncing\<close>. At the
  limit the record is \<^verbatim>\<open>failed\<close>, no drain is set, and no drain starts it. In both cases
  \<^verbatim>\<open>retryOperation\<close> still finds the record and resets it to count 0 with no message,
  \<^verbatim>\<open>pending\<close> or, when the drain it runs has started the operation, \<^verbatim>\<open>syncing\<close>; and
  \<^verbatim>\<open>cancelOperation\<close> removes it.
\<close>

theorem retry_pending_at_once_and_limit:
  fixes cfg :: sync_config
  assumes found: "findOperation (op_id x) (db_operations (storage s)) = Some y"
      and fails: "fst (executeOperationTry a x s) = Inl e"
      and retryable: "e_status e \<noteq> 409"
  defines "n \<equiv> retryCount x + 1"
      and "s' \<equiv> snd (processOperation cfg a x s)"
  defines "z \<equiv> y\<lparr>status := (if n \<ge> maxRetries cfg then Failed else Pending),
                   retryCount := n, lastError := Some (e_message e)\<rparr>"
  shows "fst (processOperation cfg a x s) = Some (ApiFailure e) \<and>
         findOperation (op_id x) (db_operations (storage s')) = Some z \<and>
         timers s' = timers s @ (if n < maxRetries cfg
                                 then [(retryDelayMs cfg * n, ProcessPendingOperations)] else []) \<and>
         (n < maxRetries cfg \<longrightarrow>
            status z = Pending \<and> z \<in> set (candidates cfg (storage s')) \<and>
            (isOnline s' \<and> \<not> isSyncing s' \<and>
             z \<in> set (take (maxConcurrentSync cfg - activeSyncCount s')
                         (candidates cfg (storage s'))) \<longrightarrow>
               z \<in> set (running (processPendingOperations cfg s')) \<and>
               findOperation (op_id x)
                   (db_operations (storage (processPendingOperations cfg s')))
                 = Some (z\<lparr>status := Syncing, lastError := None\<rparr>))) \<and>
         (maxRetries cfg \<le> n \<longrightarrow>
            status z = Failed \<and> z \<notin> set (candidates cfg (storage s')) \<and>
            (\<forall>k ops. z \<notin> set (snd (dispatchLoop cfg k ops))) \<and>
            (z \<notin> set (running s') \<longrightarrow> z \<notin> set (running (processPendingOperations cfg s')))) \<and>
         fst (retryOperation cfg (op_id x) s') = None \<and>
         findOperation (op_id x) (db_operations (storage (snd (retryOperation cfg (op_id x) s'))))
           = Some (z\<lparr>status := (if op_id x \<in> op_id ` set (drop (length (running s'))
                                       (running (snd (retryOperation cfg (op_id x) s'))))
                                 then Syncing else Pending),
                     retryCount := 0, lastError := None\<rparr>) \<and>
         findOperation (op_id x) (db_operations (storage (cancelOperation (op_id x) s'))) = None \<and>
         maxRetries (constructor (opts\<lparr>o_maxRetries := None\<rparr>)) = 3"
proof -
  note R = processOperation_rejected [OF found fails, of cfg]
  have c1: "fst (processOperation cfg a x s) = Some (ApiFailure e)"
    using R [THEN conjunct1] retryable by simp
  have c2: "findOperation (op_id x) (db_operations (storage s')) = Some z"
    using R [THEN conjunct2, THEN conjunct1] retryable by (simp add: s'_def z_def n_def)
  have c3: "timers s' = timers s @ (if n < maxRetries cfg
              then [(retryDelayMs cfg * n, ProcessPendingOperations)] else [])"
    using R [THEN conjunct2, THEN conjunct2, THEN conjunct1] by (simp add: s'_def n_def)
  have mem: "z \<in> set (db_operations (storage s'))"
    using c2 by (rule findOperation_Some_member)
  have idz: "op_id z = op_id x" using c2 by (rule findOperation_op_id)
  have c4: "n < maxRetries cfg \<longrightarrow>
            status z = Pending \<and> z \<in> set (candidates cfg (storage s')) \<and>
            (isOnline s' \<and> \<not> isSyncing s' \<and>
             z \<in> set (take (maxConcurrentSync cfg - activeSyncCount s')
                         (candidates cfg (storage s'))) \<longrightarrow>
               z \<in> set (running (processPendingOperations cfg s')) \<and>
               findOperation (op_id x)
                   (db_operations (storage (processPendingOperations cfg s')))
                 = Some (z\<lparr>status := Syncing, lastError := None\<rparr>))"
  proof
    assume lt: "n < maxRetries cfg"
    have p: "status z = Pending" using lt by (simp add: z_def)
    have rc: "retryCount z < maxRetries cfg" using lt by (simp add: z_def)
    have cand: "z \<in> set (candidates cfg (storage s'))"
      using mem p rc by (simp add: set_candidates)
    have drain: "isOnline s' \<and> \<not> isSyncing s' \<and>
             z \<in> set (take (maxConcurrentSync cfg - activeSyncCount s')
                         (candidates cfg (storage s'))) \<longrightarrow>
               z \<in> set (running (processPendingOperations cfg s')) \<and>
               findOperation (op_id x)
                   (db_operations (storage (processPendingOperations cfg s')))
                 = Some (z\<lparr>status := Syncing, lastError := None\<rparr>)"
    proof
      assume h: "isOnline s' \<and> \<not> isSyncing s' \<and>
             z \<in> set (take (maxConcurrentSync cfg - activeSyncCount s')
                         (candidates cfg (storage s')))"
      then have on: "isOnline s'" "\<not> isSyncing s'" by simp_all
      have first: "z \<in> set (take (maxConcurrentSync cfg - activeSyncCount s')
                         (candidates cfg (storage s')))" using h by simp
      have "running (processPendingOperations cfg s')
              = running s' @ take (maxConcurrentSync cfg - activeSyncCount s')
                                (candidates cfg (storage s'))"
        using processPendingOperations_effect [OF on, of cfg, THEN conjunct1]
        by (simp add: candidates_def)
      then have d1: "z \<in> set (running (processPendingOperations cfg s'))" using first by simp
      have "op_id x \<in> op_id ` set (take (maxConcurrentSync cfg - activeSyncCount s')
                         (candidates cfg (storage s')))"
        using first idz by (metis imageI)
      then have d2: "findOperation (op_id x)
                   (db_operations (storage (processPendingOperations cfg s')))
                 = Some (z\<lparr>status := Syncing, lastError := None\<rparr>)"
        using processPendingOperations_marks [OF on, of "op_id x" cfg] c2 by simp
      show "z \<in> set (running (processPendingOperations cfg s')) \<and>
               findOperation (op_id x)
                   (db_operations (storage (processPendingOperations cfg s')))
                 = Some (z\<lparr>status := Syncing, lastError := None\<rparr>)"
        by (rule conjI [OF d1 d2])
    qed
    show "status z = Pending \<and> z \<in> set (candidates cfg (storage s')) \<and>
            (isOnline s' \<and> \<not> isSyncing s' \<and>
             z \<in> set (take (maxConcurrentSync cfg - activeSyncCount s')
                         (candidates cfg (storage s'))) \<longrightarrow>
               z \<in> set (running (processPendingOperations cfg s')) \<and>
               findOperation (op_id x)
                   (db_operations (storage (processPendingOperations cfg s')))
                 = Some (z\<lparr>status := Syncing, lastError := None\<rparr>))"
      by (rule conjI [OF p conjI [OF cand drain]])
  qed
  have c5: "maxRetries cfg \<le> n \<longrightarrow>
            status z = Failed \<and> z \<notin> set (candidates cfg (storage s')) \<and>
            (\<forall>k ops. z \<notin> set (snd (dispatchLoop cfg k ops))) \<and>
            (z \<notin> set (running s') \<longrightarrow> z \<notin> set (running (processPendingOperations cfg s')))"
  proof
    assume lim: "maxRetries cfg \<le> n"
    then have ne: "\<not> eligible cfg z" by (simp add: eligible_def z_def)
    have f1: "status z = Failed" using lim by (simp add: z_def)
    have f2: "z \<notin> set (candidates cfg (storage s'))" using ne by (simp add: candidates_def)
    have f3: "\<forall>k ops. z \<notin> set (snd (dispatchLoop cfg k ops))"
      using ne dispatchLoop_eligible by blast
    have f4: "z \<notin> set (running s') \<longrightarrow> z \<notin> set (running (processPendingOperations cfg s'))"
    proof (cases "isOnline s' \<and> \<not> isSyncing s'")
      case True
      then have on: "isOnline s'" "\<not> isSyncing s'" by simp_all
      have "running (processPendingOperations cfg s')
              = running s' @ take (maxConcurrentSync cfg - activeSyncCount s')
                                (candidates cfg (storage s'))"
        using processPendingOperations_effect [OF on, of cfg, THEN conjunct1]
        by (simp add: candidates_def)
      moreover have "z \<notin> set (take (maxConcurrentSync cfg - activeSyncCount s')
                                (candidates cfg (storage s')))"
        using f2 in_set_takeD by metis
      ultimately show ?thesis by simp
    next
      case False
      then show ?thesis using processPendingOperations_idle [of s' cfg] by auto
    qed
    show "status z = Failed \<and> z \<notin> set (candidates cfg (storage s')) \<and>
            (\<forall>k ops. z \<notin> set (snd (dispatchLoop cfg k ops))) \<and>
            (z \<notin> set (running s') \<longrightarrow> z \<notin> set (running (processPendingOperations cfg s')))"
      by (rule conjI [OF f1 conjI [OF f2 conjI [OF f3 f4]]])
  qed
  note Q = retryOperation_logged [OF c2, of cfg]
  have c8: "findOperation (op_id x) (db_operations (storage (cancelOperation (op_id x) s'))) = None"
    by (rule cancelOperation_removes)
  have c9: "maxRetries (constructor (opts\<lparr>o_maxRetries := None\<rparr>)) = 3"
    by (simp add: constructor_def orDefault_values)
  show ?thesis
    by (rule conjI [OF c1 conjI [OF c2 conjI [OF c3 conjI [OF c4 conjI [OF c5
          conjI [OF conjunct1 [OF Q] conjI [OF conjunct2 [OF Q] conjI [OF c8 c9]]]]]]]])
qed

text \<open>
  The first failure of an update with a network error, under the defaults: the record
  is pending again with count 1, a drain is set 5000 ms later, and a drain of that
  state starts the operation and marks it \<^verbatim>\<open>syncing\<close>. The third failure: the record is
  \<^verbatim>\<open>failed\<close> with count 3, no drain is set, and a drain does not start it.
\<close>

theorem retry_pending_at_once_and_limit_witness:
  "fst (processOperation defaultConfig (failingApi networkError)
          (pendingUpdate ''op1'' ''n1'' ''Local'' 10) oneQueued)
     = Some (ApiFailure networkError) \<and>
   findOperation ''op1'' (db_operations (storage afterNetworkError))
     = Some ((pendingUpdate ''op1'' ''n1'' ''Local'' 10)
               \<lparr>status := Pending, retryCount := 1, lastError := Some ''Network error''\<rparr>) \<and>
   timers afterNetworkError = [(5000, ProcessPendingOperations)] \<and>
   (pendingUpdate ''op1'' ''n1'' ''Local'' 10)
       \<lparr>status := Pending, retryCount := 1, lastError := Some ''Network error''\<rparr>
     \<in> set (running (processPendingOperations defaultConfig afterNetworkError)) \<and>
   findOperation ''op1''
       (db_operations (storage (processPendingOperations defaultConfig afterNetworkError)))
     = Some ((pendingUpdate ''op1'' ''n1'' ''Local'' 10)
               \<lparr>status := Syncing, retryCount := 1, lastError := None\<rparr>) \<and>
   findOperation ''op1'' (db_operations (storage afterThirdFailure))
     = Some ((pendingUpdate ''op1'' ''n1'' ''Local'' 10)
               \<lparr>status := Failed, retryCount := 3, lastError := Some ''Network error''\<rparr>) \<and>
   timers afterThirdFailure = [] \<and>
   (pendingUpdate ''op1'' ''n1'' ''Local'' 10)
       \<lparr>status := Failed, retryCount := 3, lastError := Some ''Network error''\<rparr>
     \<notin> set (running (processPendingOperations defaultConfig afterThirdFailure))"
proof -
  let ?x = "pendingUpdate ''op1'' ''n1'' ''Local'' 10"
  let ?z = "?x\<lparr>status := Pending, retryCount := 1, lastError := Some ''Network error''\<rparr>"
  let ?x2 = "?x\<lparr>retryCount := 2, lastError := Some ''Network error''\<rparr>"
  let ?z2 = "?x\<lparr>status := Failed, retryCount := 3, lastError := Some ''Network error''\<rparr>"
  have retryable: "e_status networkError \<noteq> 409" by (simp add: networkError_def)
  have found: "findOperation (op_id ?x) (db_operations (storage oneQueued)) = Some ?x"
    using oneQueued_logged by simp
  have fails: "fst (executeOperationTry (failingApi networkError) ?x oneQueued) = Inl networkError"
    by (rule failingApi_throws)
  note T = retry_pending_at_once_and_limit
             [OF found fails retryable, of defaultConfig, folded afterNetworkError_def]
  have z: "?x\<lparr>status := (if retryCount ?x + 1 \<ge> maxRetries defaultConfig then Failed else Pending),
              retryCount := retryCount ?x + 1, lastError := Some (e_message networkError)\<rparr> = ?z"
    by (simp add: networkError_def)
  have a: "fst (processOperation defaultConfig (failingApi networkError) ?x oneQueued)
             = Some (ApiFailure networkError)"
    by (rule T [THEN conjunct1])
  have b: "findOperation ''op1'' (db_operations (storage afterNetworkError)) = Some ?z"
    using T [THEN conjunct2, THEN conjunct1] by (simp add: networkError_def)
  have c: "timers afterNetworkError = [(5000, ProcessPendingOperations)]"
    using T [THEN conjunct2, THEN conjunct2, THEN conjunct1]
    by (simp add: oneQueued_def freshState_def)
  have below: "retryCount ?x + 1 < maxRetries defaultConfig" by simp
  have first: "isOnline afterNetworkError \<and> \<not> isSyncing afterNetworkError \<and>
               ?z \<in> set (take (maxConcurrentSync defaultConfig - activeSyncCount afterNetworkError)
                           (candidates defaultConfig (storage afterNetworkError)))"
    by (simp add: afterNetworkError_value candidates_def eligible_def allOps_def
          getOperations_def oneQueued_def freshState_def emptyDb_def)
  have d: "?z \<in> set (running (processPendingOperations defaultConfig afterNetworkError)) \<and>
           findOperation (op_id ?x)
               (db_operations (storage (processPendingOperations defaultConfig afterNetworkError)))
             = Some (?z\<lparr>status := Syncing, lastError := None\<rparr>)"
    using T [THEN conjunct2, THEN conjunct2, THEN conjunct2, THEN conjunct1, THEN mp,
             OF below, THEN conjunct2, THEN conjunct2, unfolded z] first
    by (rule mp)
  have d1: "?z \<in> set (running (processPendingOperations defaultConfig afterNetworkError))"
    by (rule d [THEN conjunct1])
  have d2: "findOperation ''op1''
       (db_operations (storage (processPendingOperations defaultConfig afterNetworkError)))
     = Some (?x\<lparr>status := Syncing, retryCount := 1, lastError := None\<rparr>)"
    using d [THEN conjunct2] by simp
  have found2: "findOperation (op_id ?x2) (db_operations (storage twiceFailed)) = Some ?x2"
    by (simp add: twiceFailed_def freshState_def emptyDb_def)
  have fails2: "fst (executeOperationTry (failingApi networkError) ?x2 twiceFailed)
                  = Inl networkError"
    by (rule failingApi_throws)
  note U = retry_pending_at_once_and_limit
             [OF found2 fails2 retryable, of defaultConfig, folded afterThirdFailure_def]
  have z2: "?x2\<lparr>status := (if retryCount ?x2 + 1 \<ge> maxRetries defaultConfig then Failed else Pending),
              retryCount := retryCount ?x2 + 1, lastError := Some (e_message networkError)\<rparr> = ?z2"
    by (simp add: networkError_def)
  have limit: "maxRetries defaultConfig \<le> retryCount ?x2 + 1" by simp
  have e: "findOperation ''op1'' (db_operations (storage afterThirdFailure)) = Some ?z2"
    using U [THEN conjunct2, THEN conjunct1] by (simp add: networkError_def)
  have f: "timers afterThirdFailure = []"
    using U [THEN conjunct2, THEN conjunct2, THEN conjunct1]
    by (simp add: twiceFailed_def freshState_def)
  have idle2: "?z2 \<notin> set (running afterThirdFailure)"
    by (simp add: afterThirdFailure_value twiceFailed_def freshState_def)
  have g: "?z2 \<notin> set (running (processPendingOperations defaultConfig afterThirdFailure))"
    using U [THEN conjunct2, THEN conjunct2, THEN conjunct2, THEN conjunct2, THEN conjunct1,
             THEN mp, OF limit, THEN conjunct2, THEN conjunct2, THEN conjunct2, unfolded z2]
          idle2
    by (rule mp)
  show ?thesis
    by (rule conjI [OF a conjI [OF b conjI [OF c conjI [OF d1 conjI [OF d2
          conjI [OF e conjI [OF f g]]]]]]])
qed

lemma afterConflict_value:
  "afterConflict = oneQueued
     \<lparr>storage := emptyDb\<lparr>db_operations :=
        [(pendingUpdate ''op1'' ''n1'' ''Local'' 10)
           \<lparr>status := Pending, retryCount := 1, lastError := Some ''Conflict detected''\<rparr>]\<rparr>,
      emitted := [ConflictEvent (pendingUpdate ''op1'' ''n1'' ''Local'' 10)
                    [\<lparr>operationId = ''op1'', localData = data (pendingUpdate ''op1'' ''n1'' ''Local'' 10),
                      remoteData = JObj [(''current_version'', JNum 4)], field = ''content''\<rparr>]],
      timers := [(5000, ProcessPendingOperations)]\<rparr>"
  by (simp add: afterConflict_def processOperation_def processOperationBegin_def
        processOperationResume_def updateOperation_def oneQueued_def
        freshState_def emptyDb_def applyPatch_def executeOperation_def executeOperationTry_def
        executeNoteOperation_def failingApi_def versionConflict_def handleConflict_def Let_def
        emit_def resultError_def processOperationCatch_def schedule_def)

lemma afterConflict_drained:
  "processPendingOperations defaultConfig afterConflict
     = afterConflict
        \<lparr>storage := emptyDb\<lparr>db_operations :=
           [(pendingUpdate ''op1'' ''n1'' ''Local'' 10)
              \<lparr>status := Syncing, retryCount := 1, lastError := None\<rparr>]\<rparr>,
         activeSyncCount := 1,
         emitted := emitted afterConflict @ [SyncStarted, SyncCompleted True 0 (Some 0)],
         running := [(pendingUpdate ''op1'' ''n1'' ''Local'' 10)
           \<lparr>status := Pending, retryCount := 1, lastError := Some ''Conflict detected''\<rparr>]\<rparr>"
  by (simp add: afterConflict_value processPendingOperations_def Let_def emit_def allOps_def
        getOperations_def oneQueued_def freshState_def emptyDb_def processOperationBegin_def
        updateOperation_def applyPatch_def)

lemma afterRetry_conflicts:
  "map operationId (concat (map eventConflicts (emitted afterRetry))) = [''op1'', ''op1'']"
  unfolding afterRetry_def afterConflict_drained
  by (simp add: afterConflict_value settle_def callbacks_def
        processOperationResume_def updateOperation_def oneQueued_def
        freshState_def emptyDb_def applyPatch_def executeOperation_def executeOperationTry_def
        executeNoteOperation_def failingApi_def versionConflict_def handleConflict_def Let_def
        emit_def resultError_def processOperationCatch_def schedule_def)

text \<open>
  Claim C1 as stated fails. An update is rejected with 409 under the default
  configuration: its logged status is \<^verbatim>\<open>pending\<close> (the log has no \<^verbatim>\<open>conflicted\<close> status),
  a drain is set 5000 ms later, that drain starts the operation again, and when the
  server answers 409 again a second Conflict object for the same operation exists.
\<close>

theorem conflict_is_retried_counterexample:
  "map status (db_operations (storage afterConflict)) = [Pending] \<and>
   timers afterConflict = [(5000, ProcessPendingOperations)] \<and>
   map op_id (running (processPendingOperations defaultConfig afterConflict)) = [''op1''] \<and>
   map operationId (concat (map eventConflicts (emitted afterRetry))) = [''op1'', ''op1'']"
proof -
  have a: "map status (db_operations (storage afterConflict)) = [Pending]"
    by (simp add: afterConflict_value)
  have b: "timers afterConflict = [(5000, ProcessPendingOperations)]"
    by (simp add: afterConflict_value)
  have c: "map op_id (running (processPendingOperations defaultConfig afterConflict)) = [''op1'']"
    by (simp add: afterConflict_drained)
  show ?thesis by (rule conjI [OF a conjI [OF b conjI [OF c afterRetry_conflicts]]])
qed

text \<open>
  Claim C1, amended. When the API call of a logged operation is rejected with 409, that
  run of \<^verbatim>\<open>processOperation\<close> emits one \<^verbatim>\<open>conflict\<close> event carrying exactly one Conflict
  object, which names the operation and holds its payload and the body of the
  rejection. The operation is then handled as any failed one: the run rejects with
  \<^verbatim>\<open>Conflict detected\<close>, the logged record gets the incremented retry count and that
  message, and it is \<^verbatim>\<open>pending\<close> with a drain set after \<^verbatim>\<open>retryDelayMs\<close> times the new
  count, or \<^verbatim>\<open>failed\<close> with no drain set once the count has reached \<^verbatim>\<open>maxRetries\<close>.
\<close>

theorem conflict_handled_as_failure:
  fixes cfg :: sync_config
  assumes found: "findOperation (op_id x) (db_operations (storage s)) = Some y"
      and fails: "fst (executeOperationTry a x s) = Inl e"
      and conflict: "e_status e = 409"
  defines "n \<equiv> retryCount x + 1"
      and "s' \<equiv> snd (processOperation cfg a x s)"
  shows "emitted s' = emitted s @ [ConflictEvent x [\<lparr>operationId = op_id x, localData = data x,
                                     remoteData = e_data e, field = ''content''\<rparr>]] \<and>
         fst (processOperation cfg a x s) = Some (PlainError ''Conflict detected'') \<and>
         findOperation (op_id x) (db_operations (storage s'))
           = Some (y\<lparr>status := (if n \<ge> maxRetries cfg then Failed else Pending),
                     retryCount := n, lastError := Some ''Conflict detected''\<rparr>) \<and>
         timers s' = timers s @ (if n < maxRetries cfg
                                 then [(retryDelayMs cfg * n, ProcessPendingOperations)] else []) \<and>
         content s' = content s"
proof -
  note R = processOperation_rejected [OF found fails, of cfg]
  have c1: "emitted s' = emitted s @ [ConflictEvent x [\<lparr>operationId = op_id x, localData = data x,
                                     remoteData = e_data e, field = ''content''\<rparr>]]"
    using R [THEN conjunct2, THEN conjunct2, THEN conjunct2, THEN conjunct1] conflict
    by (simp add: s'_def)
  have c2: "fst (processOperation cfg a x s) = Some (PlainError ''Conflict detected'')"
    using R [THEN conjunct1] conflict by simp
  have c3: "findOperation (op_id x) (db_operations (storage s'))
           = Some (y\<lparr>status := (if n \<ge> maxRetries cfg then Failed else Pending),
                     retryCount := n, lastError := Some ''Conflict detected''\<rparr>)"
    using R [THEN conjunct2, THEN conjunct1] conflict by (simp add: s'_def n_def)
  have c4: "timers s' = timers s @ (if n < maxRetries cfg
                                 then [(retryDelayMs cfg * n, ProcessPendingOperations)] else [])"
    using R [THEN conjunct2, THEN conjunct2, THEN conjunct1] by (simp add: s'_def n_def)
  have c5: "content s' = content s"
    using R [THEN conjunct2, THEN conjunct2, THEN conjunct2, THEN conjunct2]
    by (simp add: s'_def)
  show ?thesis by (rule conjI [OF c1 conjI [OF c2 conjI [OF c3 conjI [OF c4 c5]]]])
qed

text \<open>The same rejection at the concrete update: one Conflict object, and the record
  back to \<^verbatim>\<open>pending\<close> with count 1.\<close>

theorem conflict_handled_as_failure_witness:
  "map operationId (concat (map eventConflicts (emitted afterConflict))) = [''op1''] \<and>
   findOperation ''op1'' (db_operations (storage afterConflict))
     = Some ((pendingUpdate ''op1'' ''n1'' ''Local'' 10)
               \<lparr>status := Pending, retryCount := 1, lastError := Some ''Conflict detected''\<rparr>) \<and>
   timers afterConflict = [(5000, ProcessPendingOperations)]"
proof -
  let ?x = "pendingUpdate ''op1'' ''n1'' ''Local'' 10"
  have found: "findOperation (op_id ?x) (db_operations (storage oneQueued)) = Some ?x"
    using oneQueued_logged by simp
  have fails: "fst (executeOperationTry (failingApi versionConflict) ?x oneQueued)
                 = Inl versionConflict"
    by (rule failingApi_throws)
  have conflict: "e_status versionConflict = 409" by (simp add: versionConflict_def)
  note T = conflict_handled_as_failure [OF found fails conflict, of defaultConfig,
             folded afterConflict_def]
  have a: "map operationId (concat (map eventConflicts (emitted afterConflict))) = [''op1'']"
    using T [THEN conjunct1] by (simp add: oneQueued_def freshState_def)
  have b: "findOperation ''op1'' (db_operations (storage afterConflict))
     = Some (?x\<lparr>status := Pending, retryCount := 1, lastError := Some ''Conflict detected''\<rparr>)"
    using T [THEN conjunct2, THEN conjunct2, THEN conjunct1] by simp
  have c: "timers afterConflict = [(5000, ProcessPendingOperations)]"
    using T [THEN conjunct2, THEN conjunct2, THEN conjunct2, THEN conjunct1]
    by (simp add: oneQueued_def freshState_def)
  show ?thesis by (rule conjI [OF a conjI [OF b c]])
qed

section \<open>Operations on the same entity\<close>

lemma twoOnSameNote_drained:
  "running (processPendingOperations defaultConfig twoOnSameNote)
     = [pendingUpdate ''a'' ''n1'' ''A'' 10, pendingUpdate ''b'' ''n1'' ''B'' 20]"
proof -
  have idle: "isOnline twoOnSameNote" "\<not> isSyncing twoOnSameNote"
    by (simp_all add: twoOnSameNote_def freshState_def)
  have st: "take (maxConcurrentSync defaultConfig - activeSyncCount twoOnSameNote)
              (filter (eligible defaultConfig) (allOps (storage twoOnSameNote)))
            = [pendingUpdate ''a'' ''n1'' ''A'' 10, pendingUpdate ''b'' ''n1'' ''B'' 20]"
    by (simp add: eligible_def allOps_def getOperations_def twoOnSameNote_def freshState_def
          emptyDb_def)
  have c: "running twoOnSameNote = []" by (simp add: twoOnSameNote_def freshState_def)
  show ?thesis
    using processPendingOperations_effect [OF idle, of defaultConfig]
    by (simp only: st c) simp
qed

text \<open>Both records are \<^verbatim>\<open>syncing\<close> after that drain, and a second drain starts nothing.\<close>

lemma twoOnSameNote_marked:
  "map status (db_operations (storage (processPendingOperations defaultConfig twoOnSameNote)))
     = [Syncing, Syncing] \<and>
   running (processPendingOperations defaultConfig
              (processPendingOperations defaultConfig twoOnSameNote))
     = [pendingUpdate ''a'' ''n1'' ''A'' 10, pendingUpdate ''b'' ''n1'' ''B'' 20]"
proof -
  let ?s1 = "processPendingOperations defaultConfig twoOnSameNote"
  have v: "?s1 = twoOnSameNote
     \<lparr>storage := emptyDb\<lparr>db_operations :=
        [(pendingUpdate ''a'' ''n1'' ''A'' 10)\<lparr>status := Syncing\<rparr>,
         (pendingUpdate ''b'' ''n1'' ''B'' 20)\<lparr>status := Syncing\<rparr>]\<rparr>,
      activeSyncCount := 2,
      emitted := [SyncStarted, SyncCompleted True 0 (Some 0)],
      running := [pendingUpdate ''a'' ''n1'' ''A'' 10, pendingUpdate ''b'' ''n1'' ''B'' 20]\<rparr>"
    by (simp add: processPendingOperations_def Let_def emit_def allOps_def getOperations_def
          twoOnSameNote_def freshState_def emptyDb_def processOperationBegin_def
          updateOperation_def applyPatch_def pendingUpdate_def)
  have a: "map status (db_operations (storage ?s1)) = [Syncing, Syncing]"
    unfolding v by simp
  have b: "running (processPendingOperations defaultConfig ?s1)
             = [pendingUpdate ''a'' ''n1'' ''A'' 10, pendingUpdate ''b'' ''n1'' ''B'' 20]"
    unfolding v
    by (simp add: processPendingOperations_def Let_def emit_def allOps_def getOperations_def
          twoOnSameNote_def freshState_def emptyDb_def)
  show ?thesis by (rule conjI [OF a b])
qed

text \<open>
  Claim C2 as stated fails. With two updates of the same note in the log, one drain of
  the idle service starts both: the reached state has two unsettled calls, and both
  target note \<open>n1\<close>.
\<close>

theorem same_entity_in_flight_counterexample:
  "reachable defaultConfig (processPendingOperations defaultConfig twoOnSameNote) \<and>
   map op_id (running (processPendingOperations defaultConfig twoOnSameNote)) = [''a'', ''b''] \<and>
   map entityId (running (processPendingOperations defaultConfig twoOnSameNote))
     = [''n1'', ''n1'']"
proof -
  have "reachable defaultConfig twoOnSameNote"
    by (rule reachable.started) (simp_all add: twoOnSameNote_def freshState_def)
  then have r: "reachable defaultConfig (processPendingOperations defaultConfig twoOnSameNote)"
    by (rule reachable.drained)
  have a: "map op_id (running (processPendingOperations defaultConfig twoOnSameNote))
             = [''a'', ''b'']"
    by (simp add: twoOnSameNote_drained)
  have b: "map entityId (running (processPendingOperations defaultConfig twoOnSameNote))
             = [''n1'', ''n1'']"
    by (simp add: twoOnSameNote_drained)
  show ?thesis by (rule conjI [OF r conjI [OF a b]])
qed

lemma dispatchLoop_relabel:
  "snd (dispatchLoop cfg k (map (\<lambda>x. x\<lparr>entityId := f x\<rparr>) ops))
     = map (\<lambda>x. x\<lparr>entityId := f x\<rparr>) (snd (dispatchLoop cfg k ops))"
proof -
  have "filter (eligible cfg) (map (\<lambda>x. x\<lparr>entityId := f x\<rparr>) ops)
          = map (\<lambda>x. x\<lparr>entityId := f x\<rparr>) (filter (eligible cfg) ops)"
    by (induction ops) (simp_all add: eligible_def)
  then show ?thesis by (simp add: dispatchLoop_started take_map)
qed

text \<open>
  Claim C2, amended. A drain has no gate per entity. What it starts is the first free
  slots' worth of the candidates, in ascending timestamp order, so operations (on one
  entity or on several) are started in creation order; and which operations the loop
  starts does not depend on the entities they target, so operations on the same entity
  are started together like any others.
\<close>

theorem dispatch_in_creation_order_without_entity_gate:
  "(isOnline s \<and> \<not> isSyncing s \<longrightarrow>
      running (processPendingOperations cfg s)
        = running s @ take (maxConcurrentSync cfg - activeSyncCount s)
                         (candidates cfg (storage s))) \<and>
   sorted (map timestamp (take (maxConcurrentSync cfg - activeSyncCount s)
                            (candidates cfg (storage s)))) \<and>
   (\<forall>f k ops. snd (dispatchLoop cfg k (map (\<lambda>x. x\<lparr>entityId := f x\<rparr>) ops))
                = map (\<lambda>x. x\<lparr>entityId := f x\<rparr>) (snd (dispatchLoop cfg k ops)))"
proof -
  have a: "isOnline s \<and> \<not> isSyncing s \<longrightarrow>
      running (processPendingOperations cfg s)
        = running s @ take (maxConcurrentSync cfg - activeSyncCount s)
                         (candidates cfg (storage s))"
    using processPendingOperations_effect [of s cfg] by (simp add: candidates_def)
  have b: "sorted (map timestamp (take (maxConcurrentSync cfg - activeSyncCount s)
                            (candidates cfg (storage s))))"
    using sorted_candidates [of cfg "storage s"] by (simp add: take_map [symmetric])
  have c: "\<forall>f k ops. snd (dispatchLoop cfg k (map (\<lambda>x. x\<lparr>entityId := f x\<rparr>) ops))
                = map (\<lambda>x. x\<lparr>entityId := f x\<rparr>) (snd (dispatchLoop cfg k ops))"
    by (simp add: dispatchLoop_relabel)
  show ?thesis by (rule conjI [OF a conjI [OF b c]])
qed

text \<open>The two updates of note \<open>n1\<close>: both started by one drain, the older first.\<close>

theorem dispatch_in_creation_order_without_entity_gate_witness:
  "isOnline twoOnSameNote \<and> \<not> isSyncing twoOnSameNote \<and>
   map timestamp (running (processPendingOperations defaultConfig twoOnSameNote)) = [10, 20] \<and>
   map entityId (running (processPendingOperations defaultConfig twoOnSameNote))
     = [''n1'', ''n1'']"
proof -
  have idle: "isOnline twoOnSameNote \<and> \<not> isSyncing twoOnSameNote"
    by (simp add: twoOnSameNote_def freshState_def)
  have cands: "take (maxConcurrentSync defaultConfig - activeSyncCount twoOnSameNote)
                 (candidates defaultConfig (storage twoOnSameNote))
               = [pendingUpdate ''a'' ''n1'' ''A'' 10, pendingUpdate ''b'' ''n1'' ''B'' 20]"
    by (simp add: candidates_def eligible_def allOps_def getOperations_def twoOnSameNote_def
          freshState_def emptyDb_def)
  have "running (processPendingOperations defaultConfig twoOnSameNote)
          = running twoOnSameNote @ take (maxConcurrentSync defaultConfig
                                          - activeSyncCount twoOnSameNote)
                                       (candidates defaultConfig (storage twoOnSameNote))"
    using dispatch_in_creation_order_without_entity_gate
            [where s = twoOnSameNote and cfg = defaultConfig, THEN conjunct1] idle
    by (rule mp)
  moreover have "running twoOnSameNote = []" by (simp add: twoOnSameNote_def freshState_def)
  ultimately have r: "running (processPendingOperations defaultConfig twoOnSameNote)
          = [pendingUpdate ''a'' ''n1'' ''A'' 10, pendingUpdate ''b'' ''n1'' ''B'' 20]"
    by (simp only: cands append_Nil)
  have a: "map timestamp (running (processPendingOperations defaultConfig twoOnSameNote))
             = [10, 20]"
    by (simp add: r)
  have b: "map entityId (running (processPendingOperations defaultConfig twoOnSameNote))
             = [''n1'', ''n1'']"
    by (simp add: r)
  show ?thesis
    by (rule conjI [OF conjunct1 [OF idle] conjI [OF conjunct2 [OF idle] conjI [OF a b]]])
qed

section \<open>Create requests\<close>

text \<open>
  Claim C7 as stated fails. The request issued for a queued create of a note has the
  headers \<^verbatim>\<open>Content-Type\<close> and \<^verbatim>\<open>Authorization\<close> and a body of \<^verbatim>\<open>title\<close>,
  \<^verbatim>\<open>content\<close> and \<^verbatim>\<open>folder_id\<close>: no key. Two different operations, made at different
  times for different provisional notes, issue the same request.
\<close>

theorem create_without_key_counterexample:
  "createRequestOf ''http://localhost:3001'' (Some ''tok'') (draftCreate ''op_1_a'' ''temp_1_x'' 1)
     = \<lparr>rq_url = ''http://localhost:3001/notes'', rq_method = ''POST'',
        rq_headers = [(''Content-Type'', ''application/json''), (''Authorization'', ''Bearer tok'')],
        rq_body = Some (JObj [(''title'', JStr ''Draft''), (''content'', JStr ''text''),
                              (''folder_id'', JNull)])\<rparr> \<and>
   createRequestOf ''http://localhost:3001'' (Some ''tok'') (draftCreate ''op_2_b'' ''temp_2_y'' 2)
     = createRequestOf ''http://localhost:3001'' (Some ''tok'') (draftCreate ''op_1_a'' ''temp_1_x'' 1) \<and>
   op_id (draftCreate ''op_2_b'' ''temp_2_y'' 2) \<noteq> op_id (draftCreate ''op_1_a'' ''temp_1_x'' 1)"
  by (simp add: createRequestOf_def notesCreateRequest_def request_def stringifyNoteBody_def
        stringField_def nullableField_def noteCreateData_def draftCreate_def noData_def)

text \<open>
  Claim C7, amended. A create call carries no idempotency key. The request the sync
  queue issues for a create operation is a \<^verbatim>\<open>POST\<close> to \<^verbatim>\<open>/notes\<close> for a note and to
  \<^verbatim>\<open>/folders\<close> for a folder, whose headers are \<^verbatim>\<open>Content-Type\<close>
  and, when a token is held, \<^verbatim>\<open>Authorization\<close>, and whose body holds those of \<^verbatim>\<open>title\<close>,
  \<^verbatim>\<open>content\<close>, \<^verbatim>\<open>folder_id\<close> (for a folder \<^verbatim>\<open>name\<close>, \<^verbatim>\<open>parent_id\<close>) that the payload
  defines, and nothing else. It is
  determined by the entity type and the payload of the operation and by the token: the
  id of the operation, its timestamp, its retry count and the provisional id play no
  part, so a retried create issues the request of the first attempt once more.
\<close>

theorem create_request_determined_by_payload:
  "rq_url (createRequestOf baseUrl tok x)
     = baseUrl @ (if entityType x = NoteEntity then ''/notes'' else ''/folders'') \<and>
   rq_method (createRequestOf baseUrl tok x) = ''POST'' \<and>
   rq_headers (createRequestOf baseUrl tok x)
     = (''Content-Type'', ''application/json'') #
       (case tok of None \<Rightarrow> []
        | Some t \<Rightarrow> (if t = [] then [] else [(''Authorization'', ''Bearer '' @ t)])) \<and>
   rq_body (createRequestOf baseUrl tok x)
     = Some (if entityType x = NoteEntity
             then JObj (stringField ''title'' (d_title (data x))
                        @ stringField ''content'' (d_content (data x))
                        @ nullableField ''folder_id'' (d_folder_id (data x)))
             else JObj (stringField ''name'' (d_name (data x))
                        @ nullableField ''parent_id'' (d_parent_id (data x)))) \<and>
   (entityType x' = entityType x \<and> data x' = data x \<longrightarrow>
      createRequestOf baseUrl tok x' = createRequestOf baseUrl tok x) \<and>
   createRequestOf baseUrl tok
       (x\<lparr>status := st, retryCount := n, lastError := err\<rparr>)
     = createRequestOf baseUrl tok x"
proof -
  have u: "rq_url (createRequestOf baseUrl tok x)
     = baseUrl @ (if entityType x = NoteEntity then ''/notes'' else ''/folders'')"
    by (simp add: createRequestOf_def notesCreateRequest_def foldersCreateRequest_def request_def)
  have a: "rq_method (createRequestOf baseUrl tok x) = ''POST''"
    by (simp add: createRequestOf_def notesCreateRequest_def foldersCreateRequest_def request_def)
  have b: "rq_headers (createRequestOf baseUrl tok x)
     = (''Content-Type'', ''application/json'') #
       (case tok of None \<Rightarrow> []
        | Some t \<Rightarrow> (if t = [] then [] else [(''Authorization'', ''Bearer '' @ t)]))"
    by (simp add: createRequestOf_def notesCreateRequest_def foldersCreateRequest_def request_def)
  have c: "rq_body (createRequestOf baseUrl tok x)
     = Some (if entityType x = NoteEntity
             then JObj (stringField ''title'' (d_title (data x))
                        @ stringField ''content'' (d_content (data x))
                        @ nullableField ''folder_id'' (d_folder_id (data x)))
             else JObj (stringField ''name'' (d_name (data x))
                        @ nullableField ''parent_id'' (d_parent_id (data x))))"
    by (simp add: createRequestOf_def notesCreateRequest_def foldersCreateRequest_def request_def
          stringifyNoteBody_def stringifyFolderBody_def noteCreateData_def folderCreateData_def)
  have e: "entityType x' = entityType x \<and> data x' = data x \<longrightarrow>
      createRequestOf baseUrl tok x' = createRequestOf baseUrl tok x"
    by (simp add: createRequestOf_def)
  have f: "createRequestOf baseUrl tok (x\<lparr>status := st, retryCount := n, lastError := err\<rparr>)
             = createRequestOf baseUrl tok x"
    by (simp add: createRequestOf_def)
  show ?thesis by (rule conjI [OF u conjI [OF a conjI [OF b conjI [OF c conjI [OF e f]]]]])
qed

text \<open>The two creates of a draft: same entity type and payload, hence the same
  request, a \<^verbatim>\<open>POST\<close> to \<^verbatim>\<open>/notes\<close>.\<close>

theorem create_request_determined_by_payload_witness:
  "entityType (draftCreate ''op_2_b'' ''temp_2_y'' 2)
     = entityType (draftCreate ''op_1_a'' ''temp_1_x'' 1) \<and>
   data (draftCreate ''op_2_b'' ''temp_2_y'' 2) = data (draftCreate ''op_1_a'' ''temp_1_x'' 1) \<and>
   createRequestOf ''http://localhost:3001'' (Some ''tok'') (draftCreate ''op_2_b'' ''temp_2_y'' 2)
     = createRequestOf ''http://localhost:3001'' (Some ''tok'') (draftCreate ''op_1_a'' ''temp_1_x'' 1) \<and>
   rq_url (createRequestOf ''http://localhost:3001'' (Some ''tok'')
             (draftCreate ''op_1_a'' ''temp_1_x'' 1)) = ''http://localhost:3001/notes''"
proof -
  have same: "entityType (draftCreate ''op_2_b'' ''temp_2_y'' 2)
                = entityType (draftCreate ''op_1_a'' ''temp_1_x'' 1) \<and>
              data (draftCreate ''op_2_b'' ''temp_2_y'' 2)
                = data (draftCreate ''op_1_a'' ''temp_1_x'' 1)"
    by (simp add: draftCreate_def)
  have eq: "createRequestOf ''http://localhost:3001'' (Some ''tok'') (draftCreate ''op_2_b'' ''temp_2_y'' 2)
     = createRequestOf ''http://localhost:3001'' (Some ''tok'') (draftCreate ''op_1_a'' ''temp_1_x'' 1)"
    using create_request_determined_by_payload
            [where x = "draftCreate ''op_1_a'' ''temp_1_x'' 1"
               and x' = "draftCreate ''op_2_b'' ''temp_2_y'' 2"
               and baseUrl = "''http://localhost:3001''" and tok = "Some ''tok''",
             THEN conjunct2, THEN conjunct2, THEN conjunct2, THEN conjunct2, THEN conjunct1] same
    by (rule mp)
  have url: "rq_url (createRequestOf ''http://localhost:3001'' (Some ''tok'')
             (draftCreate ''op_1_a'' ''temp_1_x'' 1)) = ''http://localhost:3001/notes''"
    using create_request_determined_by_payload
            [where x = "draftCreate ''op_1_a'' ''temp_1_x'' 1"
               and baseUrl = "''http://localhost:3001''" and tok = "Some ''tok''",
             THEN conjunct1]
    by (simp add: draftCreate_def)
  show ?thesis
    by (rule conjI [OF conjunct1 [OF same] conjI [OF conjunct2 [OF same] conjI [OF eq url]]])
qed

section \<open>The projection: store actions\<close>

lemma cs_notes_actions [simp]:
  "cs_notes (addNote n cs) = (cs_notes cs)(n_id n \<mapsto> n)"
  "cs_notes (removeNote i cs) = (cs_notes cs)(i := None)"
  "cs_notes (addFolder g cs) = cs_notes cs"
  "cs_notes (removeFolder i cs) = cs_notes cs"
  "cs_notes (updateFolder i u cs) = cs_notes cs"
  "cs_notes (addOptimisticOp x now cs) = cs_notes cs"
  "cs_notes (markSuccess opId cs) = cs_notes cs"
  "cs_notes (markError opId e cs) = cs_notes cs"
  by (simp_all add: addNote_def removeNote_def addFolder_def removeFolder_def updateFolder_def
        addOptimisticOp_def markSuccess_def markError_def setTimeout_def updateOptimisticOp_def
        split: option.splits)

lemma cs_folders_actions [simp]:
  "cs_folders (addFolder g cs) = (cs_folders cs)(f_id g \<mapsto> g)"
  "cs_folders (removeFolder i cs) = (cs_folders cs)(i := None)"
  "cs_folders (addNote n cs) = cs_folders cs"
  "cs_folders (removeNote i cs) = cs_folders cs"
  "cs_folders (updateNote i u cs) = cs_folders cs"
  "cs_folders (addOptimisticOp x now cs) = cs_folders cs"
  "cs_folders (markSuccess opId cs) = cs_folders cs"
  "cs_folders (markError opId e cs) = cs_folders cs"
  by (simp_all add: addNote_def removeNote_def addFolder_def removeFolder_def updateNote_def
        addOptimisticOp_def markSuccess_def markError_def setTimeout_def updateOptimisticOp_def
        split: option.splits)

lemma cs_notes_updateNote [simp]:
  "cs_notes (updateNote i u cs)
     = (case cs_notes cs i of None \<Rightarrow> cs_notes cs
        | Some n \<Rightarrow> (cs_notes cs)(i \<mapsto> assignNote n u))"
  by (simp add: updateNote_def split: option.splits)

lemma cs_folders_updateFolder [simp]:
  "cs_folders (updateFolder i u cs)
     = (case cs_folders cs i of None \<Rightarrow> cs_folders cs
        | Some g \<Rightarrow> (cs_folders cs)(i \<mapsto> assignFolder g u))"
  by (simp add: updateFolder_def split: option.splits)

lemma optimisticOps_actions [simp]:
  "optimisticOps (addNote n cs) = optimisticOps cs"
  "optimisticOps (removeNote i cs) = optimisticOps cs"
  "optimisticOps (updateNote i u cs) = optimisticOps cs"
  "optimisticOps (addFolder g cs) = optimisticOps cs"
  "optimisticOps (removeFolder i cs) = optimisticOps cs"
  "optimisticOps (updateFolder i u cs) = optimisticOps cs"
  "optimisticOps (addOptimisticOp x now cs) = optimisticOps cs @ [x\<lparr>oo_timestamp := now\<rparr>]"
  by (simp_all add: addNote_def removeNote_def updateNote_def addFolder_def removeFolder_def
        updateFolder_def addOptimisticOp_def split: option.splits)

lemma opLog_actions [simp]:
  "opLog (addNote n cs) = opLog cs"
  "opLog (removeNote i cs) = opLog cs"
  "opLog (updateNote i u cs) = opLog cs"
  "opLog (addFolder g cs) = opLog cs"
  "opLog (removeFolder i cs) = opLog cs"
  "opLog (updateFolder i u cs) = opLog cs"
  by (simp_all add: opLog_def)

lemma patchFirst_fresh:
  "opId \<notin> oo_id ` set xs \<Longrightarrow> oo_id x = opId \<Longrightarrow>
   patchFirst opId st e (xs @ [x])
     = xs @ [x\<lparr>oo_status := st, oo_error := (case e of None \<Rightarrow> oo_error x | Some m \<Rightarrow> Some m)\<rparr>]"
  by (induction xs) auto

text \<open>The log after a mutation with a fresh id has been recorded and marked.\<close>

lemma opLog_marked:
  assumes fresh: "opId \<notin> fst ` set (opLog cs)"
      and logged: "opLog cs' = opLog cs @ [(opId, OptPending, None)]"
  shows "opLog (markSuccess opId cs') = opLog cs @ [(opId, OptSuccess, None)]"
    and "opLog (markError opId e cs') = opLog cs @ [(opId, OptError, Some (e_message e))]"
proof -
  from logged obtain xs x where split: "optimisticOps cs' = xs @ [x]"
    and xs: "map (\<lambda>x. (oo_id x, oo_status x, oo_error x)) xs = opLog cs"
    and x: "(oo_id x, oo_status x, oo_error x) = (opId, OptPending, None)"
    by (auto simp: opLog_def map_eq_append_conv)
  have "fst ` set (opLog cs) = oo_id ` set xs"
    unfolding xs [symmetric] by (simp add: image_image)
  then have f: "opId \<notin> oo_id ` set xs" using fresh by simp
  have i: "oo_id x = opId" using x by simp
  show "opLog (markSuccess opId cs') = opLog cs @ [(opId, OptSuccess, None)]"
    using patchFirst_fresh [OF f i, of OptSuccess None] split xs x
    by (simp add: opLog_def markSuccess_def setTimeout_def updateOptimisticOp_def)
  show "opLog (markError opId e cs') = opLog cs @ [(opId, OptError, Some (e_message e))]"
    using patchFirst_fresh [OF f i, of OptError "Some (e_message e)"] split xs x
    by (simp add: opLog_def markError_def setTimeout_def updateOptimisticOp_def)
qed

lemma opLog_recorded:
  "opLog (addOptimisticOp (optimisticOp opId k t i orig new) now cs)
     = opLog cs @ [(opId, OptPending, None)]"
  by (simp add: opLog_def optimisticOp_def)

section \<open>Optimistic mutations\<close>

lemma opLog_mark_commute [simp]:
  "opLog (markSuccess opId (addNote n cs)) = opLog (markSuccess opId cs)"
  "opLog (markSuccess opId (removeNote i cs)) = opLog (markSuccess opId cs)"
  "opLog (markSuccess opId (updateNote i u cs)) = opLog (markSuccess opId cs)"
  "opLog (markSuccess opId (addFolder g cs)) = opLog (markSuccess opId cs)"
  "opLog (markSuccess opId (removeFolder i cs)) = opLog (markSuccess opId cs)"
  "opLog (markSuccess opId (updateFolder i u cs)) = opLog (markSuccess opId cs)"
  "opLog (markError opId e (addNote n cs)) = opLog (markError opId e cs)"
  "opLog (markError opId e (removeNote i cs)) = opLog (markError opId e cs)"
  "opLog (markError opId e (updateNote i u cs)) = opLog (markError opId e cs)"
  "opLog (markError opId e (addFolder g cs)) = opLog (markError opId e cs)"
  "opLog (markError opId e (removeFolder i cs)) = opLog (markError opId e cs)"
  "opLog (markError opId e (updateFolder i u cs)) = opLog (markError opId e cs)"
  by (simp_all add: opLog_def markSuccess_def markError_def setTimeout_def updateOptimisticOp_def)

lemma opLog_mark_recorded [simp]:
  assumes "opId \<notin> fst ` set (opLog cs)"
  shows "opLog (markSuccess opId (addOptimisticOp (optimisticOp opId k t i orig new) now cs))
           = opLog cs @ [(opId, OptSuccess, None)]"
    and "opLog (markError opId e (addOptimisticOp (optimisticOp opId k t i orig new) now cs))
           = opLog cs @ [(opId, OptError, Some (e_message e))]"
  using opLog_marked [OF assms opLog_recorded] by simp_all

lemma createNoteOptimistic_settles:
  assumes fresh: "opId \<notin> fst ` set (opLog cs)"
  shows "settledWith cs opId (notes_create a (noteBody d))
           (createNoteOptimistic a tempId opId iso1 iso2 now d cs) \<and>
         cs_notes (snd (createNoteOptimistic a tempId opId iso1 iso2 now d cs))
           = (case notes_create a (noteBody d) of
                Inr created \<Rightarrow> ((cs_notes cs)(tempId := None))(n_id created \<mapsto> created)
              | Inl e \<Rightarrow> (cs_notes cs)(tempId := None)) \<and>
         cs_folders (snd (createNoteOptimistic a tempId opId iso1 iso2 now d cs)) = cs_folders cs"
  using fresh
  by (cases "notes_create a (noteBody d)")
     (simp_all add: createNoteOptimistic_def Let_def settledWith_def)

lemma createFolderOptimistic_settles:
  assumes fresh: "opId \<notin> fst ` set (opLog cs)"
  shows "settledWith cs opId (folders_create a (folderBody d))
           (createFolderOptimistic a tempId opId iso1 iso2 now d cs) \<and>
         cs_folders (snd (createFolderOptimistic a tempId opId iso1 iso2 now d cs))
           = (case folders_create a (folderBody d) of
                Inr created \<Rightarrow> ((cs_folders cs)(tempId := None))(f_id created \<mapsto> created)
              | Inl e \<Rightarrow> (cs_folders cs)(tempId := None)) \<and>
         cs_notes (snd (createFolderOptimistic a tempId opId iso1 iso2 now d cs)) = cs_notes cs"
  using fresh
  by (cases "folders_create a (folderBody d)")
     (simp_all add: createFolderOptimistic_def Let_def settledWith_def)

lemma assignNote_twice:
  "n_size_bytes v = n_size_bytes cur \<Longrightarrow>
   assignNote (assignNote cur (NoteData v)) (NoteData u) = assignNote cur (NoteData u)"
  by (simp split: option.splits)

lemma assignNote_self: "assignNote cur (NoteData cur) = cur"
  by (simp split: option.splits)

lemma assignFolder_twice:
  "f_note_count v = f_note_count cur \<Longrightarrow> f_subfolder_count v = f_subfolder_count cur \<Longrightarrow>
   assignFolder (assignFolder cur (FolderData v)) (FolderData u) = assignFolder cur (FolderData u)"
  by (simp split: option.splits)

lemma assignFolder_self: "assignFolder cur (FolderData cur) = cur"
  by (simp split: option.splits)

lemma updateNoteOptimistic_settles:
  assumes fresh: "opId \<notin> fst ` set (opLog cs)" and cur: "cs_notes cs i = Some cur"
  shows "settledWith cs opId (notes_update a i d) (updateNoteOptimistic a opId isoNow now i d cs) \<and>
         cs_notes (snd (updateNoteOptimistic a opId isoNow now i d cs))
           = (case notes_update a i d of
                Inr updated \<Rightarrow> (cs_notes cs)(i \<mapsto> assignNote cur (NoteData updated))
              | Inl e \<Rightarrow> cs_notes cs) \<and>
         cs_folders (snd (updateNoteOptimistic a opId isoNow now i d cs)) = cs_folders cs"
proof -
  let ?v = "cur\<lparr>n_title := (case un_title d of None \<Rightarrow> n_title cur | Some t \<Rightarrow> t),
                 n_content := (case un_content d of None \<Rightarrow> n_content cur | Some c \<Rightarrow> c),
                 n_folder_id := (case un_folder_id d of None \<Rightarrow> n_folder_id cur | Some g \<Rightarrow> g),
                 n_updated_at := isoNow, n_version := un_version d\<rparr>"
  have sz: "n_size_bytes ?v = n_size_bytes cur" by simp
  have restore: "(cs_notes cs)(i \<mapsto> cur) = cs_notes cs" using cur by (rule map_upd_triv)
  show ?thesis
    using fresh cur restore
    by (cases "notes_update a i d")
       (simp_all add: updateNoteOptimistic_def Let_def settledWith_def
          assignNote_twice [OF sz] assignNote_self del: assignNote.simps)
qed


lemma moveNoteOptimistic_settles:
  assumes fresh: "opId \<notin> fst ` set (opLog cs)" and cur: "cs_notes cs i = Some cur"
  shows "settledWith cs opId (notes_move a i (Some folderId))
           (moveNoteOptimistic a opId isoNow now i folderId cs) \<and>
         cs_notes (snd (moveNoteOptimistic a opId isoNow now i folderId cs))
           = (case notes_move a i (Some folderId) of
                Inr moved \<Rightarrow> (cs_notes cs)(i \<mapsto> assignNote cur (NoteData moved))
              | Inl e \<Rightarrow> cs_notes cs) \<and>
         cs_folders (snd (moveNoteOptimistic a opId isoNow now i folderId cs)) = cs_folders cs"
proof -
  let ?v = "cur\<lparr>n_folder_id := folderId, n_updated_at := isoNow\<rparr>"
  have sz: "n_size_bytes ?v = n_size_bytes cur" by simp
  have restore: "(cs_notes cs)(i \<mapsto> cur) = cs_notes cs" using cur by (rule map_upd_triv)
  show ?thesis
    using fresh cur restore
    by (cases "notes_move a i (Some folderId)")
       (simp_all add: moveNoteOptimistic_def Let_def settledWith_def
          assignNote_twice [OF sz] assignNote_self del: assignNote.simps)
qed

lemma deleteNoteOptimistic_settles:
  assumes fresh: "opId \<notin> fst ` set (opLog cs)" and cur: "cs_notes cs i = Some cur"
      and keyed: "n_id cur = i"
  shows "settledWith cs opId (notes_delete a i) (deleteNoteOptimistic a opId now i cs) \<and>
         cs_notes (snd (deleteNoteOptimistic a opId now i cs))
           = (case notes_delete a i of
                Inr _ \<Rightarrow> (cs_notes cs)(i := None)
              | Inl e \<Rightarrow> cs_notes cs) \<and>
         cs_folders (snd (deleteNoteOptimistic a opId now i cs)) = cs_folders cs"
proof -
  have restore: "(cs_notes cs)(i \<mapsto> cur) = cs_notes cs" using cur by (rule map_upd_triv)
  show ?thesis
    using fresh cur keyed restore
    by (cases "notes_delete a i")
       (simp_all add: deleteNoteOptimistic_def Let_def settledWith_def)
qed

lemma updateFolderOptimistic_settles:
  assumes fresh: "opId \<notin> fst ` set (opLog cs)" and cur: "cs_folders cs i = Some cur"
  shows "settledWith cs opId (folders_update a i d)
           (updateFolderOptimistic a opId isoNow now i d cs) \<and>
         cs_folders (snd (updateFolderOptimistic a opId isoNow now i d cs))
           = (case folders_update a i d of
                Inr updated \<Rightarrow> (cs_folders cs)(i \<mapsto> assignFolder cur (FolderData updated))
              | Inl e \<Rightarrow> cs_folders cs) \<and>
         cs_notes (snd (updateFolderOptimistic a opId isoNow now i d cs)) = cs_notes cs"
proof -
  let ?v = "cur\<lparr>f_name := (case uf_name d of None \<Rightarrow> f_name cur | Some n \<Rightarrow> n),
                 f_parent_id := (case uf_parent_id d of None \<Rightarrow> f_parent_id cur | Some g \<Rightarrow> g),
                 f_updated_at := isoNow\<rparr>"
  have c1: "f_note_count ?v = f_note_count cur" and c2: "f_subfolder_count ?v = f_subfolder_count cur"
    by simp_all
  have restore: "(cs_folders cs)(i \<mapsto> cur) = cs_folders cs" using cur by (rule map_upd_triv)
  show ?thesis
    using fresh cur restore
    by (cases "folders_update a i d")
       (simp_all add: updateFolderOptimistic_def Let_def settledWith_def
          assignFolder_twice [OF c1 c2] assignFolder_self del: assignFolder.simps)
qed

lemma moveFolderOptimistic_settles:
  assumes fresh: "opId \<notin> fst ` set (opLog cs)" and cur: "cs_folders cs i = Some cur"
  shows "settledWith cs opId (folders_move a i (Some parentId))
           (moveFolderOptimistic a opId isoNow now i parentId cs) \<and>
         cs_folders (snd (moveFolderOptimistic a opId isoNow now i parentId cs))
           = (case folders_move a i (Some parentId) of
                Inr moved \<Rightarrow> (cs_folders cs)(i \<mapsto> assignFolder cur (FolderData moved))
              | Inl e \<Rightarrow> cs_folders cs) \<and>
         cs_notes (snd (moveFolderOptimistic a opId isoNow now i parentId cs)) = cs_notes cs"
proof -
  let ?v = "cur\<lparr>f_parent_id := parentId, f_updated_at := isoNow\<rparr>"
  have c1: "f_note_count ?v = f_note_count cur" and c2: "f_subfolder_count ?v = f_subfolder_count cur"
    by simp_all
  have restore: "(cs_folders cs)(i \<mapsto> cur) = cs_folders cs" using cur by (rule map_upd_triv)
  show ?thesis
    using fresh cur restore
    by (cases "folders_move a i (Some parentId)")
       (simp_all add: moveFolderOptimistic_def Let_def settledWith_def
          assignFolder_twice [OF c1 c2] assignFolder_self del: assignFolder.simps)
qed

lemma deleteFolderOptimistic_settles:
  assumes fresh: "opId \<notin> fst ` set (opLog cs)" and cur: "cs_folders cs i = Some cur"
      and keyed: "f_id cur = i"
  shows "settledWith cs opId (folders_delete a i) (deleteFolderOptimistic a opId now i cs) \<and>
         cs_folders (snd (deleteFolderOptimistic a opId now i cs))
           = (case folders_delete a i of
                Inr _ \<Rightarrow> (cs_folders cs)(i := None)
              | Inl e \<Rightarrow> cs_folders cs) \<and>
         cs_notes (snd (deleteFolderOptimistic a opId now i cs)) = cs_notes cs"
proof -
  have restore: "(cs_folders cs)(i \<mapsto> cur) = cs_folders cs" using cur by (rule map_upd_triv)
  show ?thesis
    using fresh cur keyed restore
    by (cases "folders_delete a i")
       (simp_all add: deleteFolderOptimistic_def Let_def settledWith_def)
qed

lemma projection1_facts:
  "opLog projection1 = []" "cs_notes projection1 ''n1'' = Some serverNote"
  "cs_folders projection1 ''f1'' = Some folder1"
  by (simp_all add: projection1_def initialState_def opLog_def)

text \<open>
  Claim C3 as stated fails on a version conflict. The user retitles note \<open>n1\<close> to
  \<open>Local\<close> and the server answers 409: the promise is rejected with that error, the
  projection shows the note as it was before the edit, with the title \<open>Server\<close>, and
  the log record of the mutation is \<^verbatim>\<open>error\<close>. The optimistic value is not visible and
  nothing is marked as a conflict.
\<close>

theorem optimistic_conflict_rolls_back_counterexample:
  "fst (updateNoteOptimistic (failingApi versionConflict) ''temp_9'' ''2024-02-01T00:00:00.000Z''
          7 ''n1'' localEdit projection1)
     = Inl (ApiFailure versionConflict) \<and>
   cs_notes (snd (updateNoteOptimistic (failingApi versionConflict) ''temp_9''
                    ''2024-02-01T00:00:00.000Z'' 7 ''n1'' localEdit projection1)) ''n1''
     = Some serverNote \<and>
   n_title serverNote = ''Server'' \<and>
   opLog (snd (updateNoteOptimistic (failingApi versionConflict) ''temp_9''
                 ''2024-02-01T00:00:00.000Z'' 7 ''n1'' localEdit projection1))
     = [(''temp_9'', OptError, Some ''Version conflict'')]"
proof -
  have fresh: "''temp_9'' \<notin> fst ` set (opLog projection1)" by (simp add: projection1_facts)
  have resp: "notes_update (failingApi versionConflict) ''n1'' localEdit = Inl versionConflict"
    by (simp add: failingApi_def)
  note S = updateNoteOptimistic_settles [OF fresh projection1_facts(2),
             of "failingApi versionConflict" localEdit "''2024-02-01T00:00:00.000Z''" 7]
  have a: "fst (updateNoteOptimistic (failingApi versionConflict) ''temp_9''
                  ''2024-02-01T00:00:00.000Z'' 7 ''n1'' localEdit projection1)
             = Inl (ApiFailure versionConflict)"
    using S [THEN conjunct1] by (simp add: settledWith_def resp)
  have b: "cs_notes (snd (updateNoteOptimistic (failingApi versionConflict) ''temp_9''
                    ''2024-02-01T00:00:00.000Z'' 7 ''n1'' localEdit projection1)) ''n1''
             = Some serverNote"
    using S [THEN conjunct2, THEN conjunct1] by (simp add: resp projection1_facts)
  have c: "n_title serverNote = ''Server''" by (simp add: serverNote_def)
  have e: "opLog (snd (updateNoteOptimistic (failingApi versionConflict) ''temp_9''
                 ''2024-02-01T00:00:00.000Z'' 7 ''n1'' localEdit projection1))
             = [(''temp_9'', OptError, Some ''Version conflict'')]"
  proof -
    have "opLog (snd (updateNoteOptimistic (failingApi versionConflict) ''temp_9''
                 ''2024-02-01T00:00:00.000Z'' 7 ''n1'' localEdit projection1))
             = [(''temp_9'', OptError, Some (e_message versionConflict))]"
      using S [THEN conjunct1] by (simp add: settledWith_def resp projection1_facts)
    then show ?thesis by (simp add: versionConflict_def)
  qed
  show ?thesis by (rule conjI [OF a conjI [OF b conjI [OF c e]]])
qed

text \<open>
  Claim C3, amended. For every optimistic mutation whose log id is fresh: when the API
  answers, the promise is fulfilled with the server's record, the log record is
  \<^verbatim>\<open>success\<close>, and the projection holds what the server returned (after a create the
  provisional entity is gone and the server's record is stored under its id; after an
  update or a move each field the server returned has overwritten the entity; after a
  delete the entity is gone). When the API throws, whatever the error, a version
  conflict included, the promise is rejected with that error, the log record is
  \<^verbatim>\<open>error\<close> with its message, and the entity is as it was before the mutation (after a
  create the provisional entity is gone). The other entity map is never touched.
\<close>

theorem optimistic_mutation_outcomes:
  assumes fresh: "opId \<notin> fst ` set (opLog cs)"
  shows
   "(settledWith cs opId (notes_create a (noteBody cn))
       (createNoteOptimistic a tempId opId iso1 iso2 now cn cs) \<and>
     cs_notes (snd (createNoteOptimistic a tempId opId iso1 iso2 now cn cs))
       = (case notes_create a (noteBody cn) of
            Inr created \<Rightarrow> ((cs_notes cs)(tempId := None))(n_id created \<mapsto> created)
          | Inl e \<Rightarrow> (cs_notes cs)(tempId := None)) \<and>
     cs_folders (snd (createNoteOptimistic a tempId opId iso1 iso2 now cn cs)) = cs_folders cs) \<and>
    (cs_notes cs i = Some cur \<longrightarrow>
     settledWith cs opId (notes_update a i un) (updateNoteOptimistic a opId isoNow now i un cs) \<and>
     cs_notes (snd (updateNoteOptimistic a opId isoNow now i un cs))
       = (case notes_update a i un of
            Inr updated \<Rightarrow> (cs_notes cs)(i \<mapsto> assignNote cur (NoteData updated))
          | Inl e \<Rightarrow> cs_notes cs) \<and>
     cs_folders (snd (updateNoteOptimistic a opId isoNow now i un cs)) = cs_folders cs) \<and>
    (cs_notes cs i = Some cur \<and> n_id cur = i \<longrightarrow>
     settledWith cs opId (notes_delete a i) (deleteNoteOptimistic a opId now i cs) \<and>
     cs_notes (snd (deleteNoteOptimistic a opId now i cs))
       = (case notes_delete a i of Inr _ \<Rightarrow> (cs_notes cs)(i := None) | Inl e \<Rightarrow> cs_notes cs) \<and>
     cs_folders (snd (deleteNoteOptimistic a opId now i cs)) = cs_folders cs) \<and>
    (cs_notes cs i = Some cur \<longrightarrow>
     settledWith cs opId (notes_move a i (Some folderId))
       (moveNoteOptimistic a opId isoNow now i folderId cs) \<and>
     cs_notes (snd (moveNoteOptimistic a opId isoNow now i folderId cs))
       = (case notes_move a i (Some folderId) of
            Inr moved \<Rightarrow> (cs_notes cs)(i \<mapsto> assignNote cur (NoteData moved))
          | Inl e \<Rightarrow> cs_notes cs) \<and>
     cs_folders (snd (moveNoteOptimistic a opId isoNow now i folderId cs)) = cs_folders cs) \<and>
    (settledWith cs opId (folders_create a (folderBody cf))
       (createFolderOptimistic a tempId opId iso1 iso2 now cf cs) \<and>
     cs_folders (snd (createFolderOptimistic a tempId opId iso1 iso2 now cf cs))
       = (case folders_create a (folderBody cf) of
            Inr created \<Rightarrow> ((cs_folders cs)(tempId := None))(f_id created \<mapsto> created)
          | Inl e \<Rightarrow> (cs_folders cs)(tempId := None)) \<and>
     cs_notes (snd (createFolderOptimistic a tempId opId iso1 iso2 now cf cs)) = cs_notes cs) \<and>
    (cs_folders cs j = Some g \<longrightarrow>
     settledWith cs opId (folders_update a j uf) (updateFolderOptimistic a opId isoNow now j uf cs) \<and>
     cs_folders (snd (updateFolderOptimistic a opId isoNow now j uf cs))
       = (case folders_update a j uf of
            Inr updated \<Rightarrow> (cs_folders cs)(j \<mapsto> assignFolder g (FolderData updated))
          | Inl e \<Rightarrow> cs_folders cs) \<and>
     cs_notes (snd (updateFolderOptimistic a opId isoNow now j uf cs)) = cs_notes cs) \<and>
    (cs_folders cs j = Some g \<and> f_id g = j \<longrightarrow>
     settledWith cs opId (folders_delete a j) (deleteFolderOptimistic a opId now j cs) \<and>
     cs_folders (snd (deleteFolderOptimistic a opId now j cs))
       = (case folders_delete a j of Inr _ \<Rightarrow> (cs_folders cs)(j := None)
          | Inl e \<Rightarrow> cs_folders cs) \<and>
     cs_notes (snd (deleteFolderOptimistic a opId now j cs)) = cs_notes cs) \<and>
    (cs_folders cs j = Some g \<longrightarrow>
     settledWith cs opId (folders_move a j (Some parentId))
       (moveFolderOptimistic a opId isoNow now j parentId cs) \<and>
     cs_folders (snd (moveFolderOptimistic a opId isoNow now j parentId cs))
       = (case folders_move a j (Some parentId) of
            Inr moved \<Rightarrow> (cs_folders cs)(j \<mapsto> assignFolder g (FolderData moved))
          | Inl e \<Rightarrow> cs_folders cs) \<and>
     cs_notes (snd (moveFolderOptimistic a opId isoNow now j parentId cs)) = cs_notes cs)"
proof (intro conjI impI)
  show "settledWith cs opId (notes_create a (noteBody cn))
          (createNoteOptimistic a tempId opId iso1 iso2 now cn cs)"
    and "cs_notes (snd (createNoteOptimistic a tempId opId iso1 iso2 now cn cs))
       = (case notes_create a (noteBody cn) of
            Inr created \<Rightarrow> ((cs_notes cs)(tempId := None))(n_id created \<mapsto> created)
          | Inl e \<Rightarrow> (cs_notes cs)(tempId := None))"
    and "cs_folders (snd (createNoteOptimistic a tempId opId iso1 iso2 now cn cs)) = cs_folders cs"
    using createNoteOptimistic_settles [OF fresh, of a cn tempId iso1 iso2 now] by simp_all
  show "settledWith cs opId (folders_create a (folderBody cf))
          (createFolderOptimistic a tempId opId iso1 iso2 now cf cs)"
    and "cs_folders (snd (createFolderOptimistic a tempId opId iso1 iso2 now cf cs))
       = (case folders_create a (folderBody cf) of
            Inr created \<Rightarrow> ((cs_folders cs)(tempId := None))(f_id created \<mapsto> created)
          | Inl e \<Rightarrow> (cs_folders cs)(tempId := None))"
    and "cs_notes (snd (createFolderOptimistic a tempId opId iso1 iso2 now cf cs)) = cs_notes cs"
    using createFolderOptimistic_settles [OF fresh, of a cf tempId iso1 iso2 now] by simp_all
next
  assume cur: "cs_notes cs i = Some cur"
  show "settledWith cs opId (notes_update a i un) (updateNoteOptimistic a opId isoNow now i un cs)"
    and "cs_notes (snd (updateNoteOptimistic a opId isoNow now i un cs))
       = (case notes_update a i un of
            Inr updated \<Rightarrow> (cs_notes cs)(i \<mapsto> assignNote cur (NoteData updated))
          | Inl e \<Rightarrow> cs_notes cs)"
    and "cs_folders (snd (updateNoteOptimistic a opId isoNow now i un cs)) = cs_folders cs"
    using updateNoteOptimistic_settles [OF fresh cur, of a un isoNow now] by simp_all
  show "settledWith cs opId (notes_move a i (Some folderId))
          (moveNoteOptimistic a opId isoNow now i folderId cs)"
    and "cs_notes (snd (moveNoteOptimistic a opId isoNow now i folderId cs))
       = (case notes_move a i (Some folderId) of
            Inr moved \<Rightarrow> (cs_notes cs)(i \<mapsto> assignNote cur (NoteData moved))
          | Inl e \<Rightarrow> cs_notes cs)"
    and "cs_folders (snd (moveNoteOptimistic a opId isoNow now i folderId cs)) = cs_folders cs"
    using moveNoteOptimistic_settles [OF fresh cur, of a folderId isoNow now] by simp_all
next
  assume "cs_notes cs i = Some cur \<and> n_id cur = i"
  then have cur: "cs_notes cs i = Some cur" and keyed: "n_id cur = i" by simp_all
  show "settledWith cs opId (notes_delete a i) (deleteNoteOptimistic a opId now i cs)"
    and "cs_notes (snd (deleteNoteOptimistic a opId now i cs))
       = (case notes_delete a i of Inr _ \<Rightarrow> (cs_notes cs)(i := None) | Inl e \<Rightarrow> cs_notes cs)"
    and "cs_folders (snd (deleteNoteOptimistic a opId now i cs)) = cs_folders cs"
    using deleteNoteOptimistic_settles [OF fresh cur keyed, of a now] by simp_all
next
  assume cur: "cs_folders cs j = Some g"
  show "settledWith cs opId (folders_update a j uf)
          (updateFolderOptimistic a opId isoNow now j uf cs)"
    and "cs_folders (snd (updateFolderOptimistic a opId isoNow now j uf cs))
       = (case folders_update a j uf of
            Inr updated \<Rightarrow> (cs_folders cs)(j \<mapsto> assignFolder g (FolderData updated))
          | Inl e \<Rightarrow> cs_folders cs)"
    and "cs_notes (snd (updateFolderOptimistic a opId isoNow now j uf cs)) = cs_notes cs"
    using updateFolderOptimistic_settles [OF fresh cur, of a uf isoNow now] by simp_all
  show "settledWith cs opId (folders_move a j (Some parentId))
          (moveFolderOptimistic a opId isoNow now j parentId cs)"
    and "cs_folders (snd (moveFolderOptimistic a opId isoNow now j parentId cs))
       = (case folders_move a j (Some parentId) of
            Inr moved \<Rightarrow> (cs_folders cs)(j \<mapsto> assignFolder g (FolderData moved))
          | Inl e \<Rightarrow> cs_folders cs)"
    and "cs_notes (snd (moveFolderOptimistic a opId isoNow now j parentId cs)) = cs_notes cs"
    using moveFolderOptimistic_settles [OF fresh cur, of a parentId isoNow now] by simp_all
next
  assume "cs_folders cs j = Some g \<and> f_id g = j"
  then have cur: "cs_folders cs j = Some g" and keyed: "f_id g = j" by simp_all
  show "settledWith cs opId (folders_delete a j) (deleteFolderOptimistic a opId now j cs)"
    and "cs_folders (snd (deleteFolderOptimistic a opId now j cs))
       = (case folders_delete a j of Inr _ \<Rightarrow> (cs_folders cs)(j := None)
          | Inl e \<Rightarrow> cs_folders cs)"
    and "cs_notes (snd (deleteFolderOptimistic a opId now j cs)) = cs_notes cs"
    using deleteFolderOptimistic_settles [OF fresh cur keyed, of a now] by simp_all
qed

text \<open>The retitling of note \<open>n1\<close> accepted by a server that already holds version 4:
  the projection shows the server's record and the log record is \<^verbatim>\<open>success\<close>. And
  the deletion of \<open>n1\<close> failing on the network: the promise is rejected and the notes
  are what they were.\<close>

theorem optimistic_mutation_outcomes_witness:
  "''temp_9'' \<notin> fst ` set (opLog projection1) \<and>
   cs_notes projection1 ''n1'' = Some serverNote \<and>
   fst (updateNoteOptimistic (answeringApi remoteNote folder1) ''temp_9''
          ''2024-02-01T00:00:00.000Z'' 7 ''n1'' localEdit projection1) = Inr remoteNote \<and>
   cs_notes (snd (updateNoteOptimistic (answeringApi remoteNote folder1) ''temp_9''
                    ''2024-02-01T00:00:00.000Z'' 7 ''n1'' localEdit projection1)) ''n1''
     = Some remoteNote \<and>
   opLog (snd (updateNoteOptimistic (answeringApi remoteNote folder1) ''temp_9''
                 ''2024-02-01T00:00:00.000Z'' 7 ''n1'' localEdit projection1))
     = [(''temp_9'', OptSuccess, None)] \<and>
   fst (deleteNoteOptimistic (failingApi networkError) ''temp_9'' 7 ''n1'' projection1)
     = Inl (ApiFailure networkError) \<and>
   cs_notes (snd (deleteNoteOptimistic (failingApi networkError) ''temp_9'' 7 ''n1'' projection1))
     = cs_notes projection1"
proof -
  let ?r = "updateNoteOptimistic (answeringApi remoteNote folder1) ''temp_9''
              ''2024-02-01T00:00:00.000Z'' 7 ''n1'' localEdit projection1"
  have fresh: "''temp_9'' \<notin> fst ` set (opLog projection1)" by (simp add: projection1_facts)
  have resp: "notes_update (answeringApi remoteNote folder1) ''n1'' localEdit = Inr remoteNote"
    by (simp add: answeringApi_def)
  have asg: "assignNote serverNote (NoteData remoteNote) = remoteNote"
    by (simp add: remoteNote_def serverNote_def)
  have U: "settledWith projection1 ''temp_9''
             (notes_update (answeringApi remoteNote folder1) ''n1'' localEdit) ?r \<and>
           cs_notes (snd ?r)
             = (case notes_update (answeringApi remoteNote folder1) ''n1'' localEdit of
                  Inr updated \<Rightarrow>
                    (cs_notes projection1)(''n1'' \<mapsto> assignNote serverNote (NoteData updated))
                | Inl e \<Rightarrow> cs_notes projection1) \<and>
           cs_folders (snd ?r) = cs_folders projection1"
    using optimistic_mutation_outcomes
            [where cs = projection1 and opId = "''temp_9''" and i = "''n1''" and cur = serverNote
               and a = "answeringApi remoteNote folder1" and un = localEdit
               and isoNow = "''2024-02-01T00:00:00.000Z''" and now = 7,
             OF fresh, THEN conjunct2, THEN conjunct1]
      projection1_facts(2)
    by (rule mp)
  have a: "fst ?r = Inr remoteNote"
    using U [THEN conjunct1] by (simp add: settledWith_def resp)
  have b: "cs_notes (snd ?r) ''n1'' = Some remoteNote"
    using U [THEN conjunct2, THEN conjunct1] by (simp add: resp asg del: assignNote.simps)
  have c: "opLog (snd ?r) = [(''temp_9'', OptSuccess, None)]"
    using U [THEN conjunct1] by (simp add: settledWith_def resp projection1_facts)
  let ?q = "deleteNoteOptimistic (failingApi networkError) ''temp_9'' 7 ''n1'' projection1"
  have keyed: "cs_notes projection1 ''n1'' = Some serverNote \<and> n_id serverNote = ''n1''"
    by (simp add: projection1_facts serverNote_def)
  have gone: "notes_delete (failingApi networkError) ''n1'' = Inl networkError"
    by (simp add: failingApi_def)
  have D: "settledWith projection1 ''temp_9'' (notes_delete (failingApi networkError) ''n1'') ?q \<and>
           cs_notes (snd ?q)
             = (case notes_delete (failingApi networkError) ''n1'' of
                  Inr _ \<Rightarrow> (cs_notes projection1)(''n1'' := None)
                | Inl e \<Rightarrow> cs_notes projection1) \<and>
           cs_folders (snd ?q) = cs_folders projection1"
    using optimistic_mutation_outcomes
            [where cs = projection1 and opId = "''temp_9''" and i = "''n1''" and cur = serverNote
               and a = "failingApi networkError" and now = 7,
             OF fresh, THEN conjunct2, THEN conjunct2, THEN conjunct1]
      keyed
    by (rule mp)
  have e: "fst ?q = Inl (ApiFailure networkError)"
    using D [THEN conjunct1] by (simp add: settledWith_def gone)
  have f: "cs_notes (snd ?q) = cs_notes projection1"
    using D [THEN conjunct2, THEN conjunct1] by (simp add: gone)
  show ?thesis
    by (rule conjI [OF fresh conjI [OF projection1_facts(2) conjI [OF a conjI [OF b
          conjI [OF c conjI [OF e f]]]]]])
qed

section \<open>A provisional entity is confirmed\<close>

lemma executeOperation_create_note:
  assumes "op_type x = Create" "entityType x = NoteEntity"
      and "notes_create a (noteCreateData (data x)) = Inr created"
  shows "executeOperation a x s
           = (Inr succeeded,
              s\<lparr>content := addNote created (removeNote (entityId x) (content s)),
                storage := saveNote created (deleteNote (entityId x) (storage s))\<rparr>)"
  using assms by (simp add: executeOperation_def executeOperationTry_def executeNoteOperation_def)

lemma executeOperation_create_folder:
  assumes "op_type x = Create" "entityType x = FolderEntity"
      and "folders_create a (folderCreateData (data x)) = Inr created"
  shows "executeOperation a x s
           = (Inr succeeded,
              s\<lparr>content := addFolder created (removeFolder (entityId x) (content s)),
                storage := saveFolder created (deleteFolder (entityId x) (storage s))\<rparr>)"
  using assms
  by (simp add: executeOperation_def executeOperationTry_def executeFolderOperation_def)

text \<open>
  Claim C9. When the API answers the create of a provisional note with the stored
  record, \<^verbatim>\<open>executeOperation\<close> succeeds and both the projection and the durable store
  lose the entry under the provisional id and hold the server's record under its own
  id; with a permanent id different from the provisional one, nothing is left under
  the provisional id. The same holds for a folder, and, in the projection, for
  \<^verbatim>\<open>createNoteOptimistic\<close> and \<^verbatim>\<open>createFolderOptimistic\<close>.
\<close>

theorem provisional_entity_replaced:
  "(op_type x = Create \<and> entityType x = NoteEntity \<and>
    notes_create a (noteCreateData (data x)) = Inr created \<longrightarrow>
      fst (executeOperation a x s) = Inr succeeded \<and>
      cs_notes (content (snd (executeOperation a x s)))
        = ((cs_notes (content s))(entityId x := None))(n_id created \<mapsto> created) \<and>
      db_notes (storage (snd (executeOperation a x s)))
        = ((db_notes (storage s))(entityId x := None))(n_id created \<mapsto> created) \<and>
      (n_id created \<noteq> entityId x \<longrightarrow>
         cs_notes (content (snd (executeOperation a x s))) (entityId x) = None \<and>
         db_notes (storage (snd (executeOperation a x s))) (entityId x) = None \<and>
         cs_notes (content (snd (executeOperation a x s))) (n_id created) = Some created \<and>
         db_notes (storage (snd (executeOperation a x s))) (n_id created) = Some created)) \<and>
   (op_type x = Create \<and> entityType x = FolderEntity \<and>
    folders_create a (folderCreateData (data x)) = Inr createdF \<longrightarrow>
      fst (executeOperation a x s) = Inr succeeded \<and>
      cs_folders (content (snd (executeOperation a x s)))
        = ((cs_folders (content s))(entityId x := None))(f_id createdF \<mapsto> createdF) \<and>
      db_folders (storage (snd (executeOperation a x s)))
        = ((db_folders (storage s))(entityId x := None))(f_id createdF \<mapsto> createdF) \<and>
      (f_id createdF \<noteq> entityId x \<longrightarrow>
         cs_folders (content (snd (executeOperation a x s))) (entityId x) = None \<and>
         db_folders (storage (snd (executeOperation a x s))) (entityId x) = None \<and>
         cs_folders (content (snd (executeOperation a x s))) (f_id createdF) = Some createdF \<and>
         db_folders (storage (snd (executeOperation a x s))) (f_id createdF) = Some createdF)) \<and>
   (notes_create a (noteBody cn) = Inr created \<longrightarrow>
      fst (createNoteOptimistic a tempId opId iso1 iso2 now cn cs) = Inr created \<and>
      cs_notes (snd (createNoteOptimistic a tempId opId iso1 iso2 now cn cs))
        = ((cs_notes cs)(tempId := None))(n_id created \<mapsto> created) \<and>
      (n_id created \<noteq> tempId \<longrightarrow>
         cs_notes (snd (createNoteOptimistic a tempId opId iso1 iso2 now cn cs)) tempId = None)) \<and>
   (folders_create a (folderBody cf) = Inr createdF \<longrightarrow>
      fst (createFolderOptimistic a tempId opId iso1 iso2 now cf cs) = Inr createdF \<and>
      cs_folders (snd (createFolderOptimistic a tempId opId iso1 iso2 now cf cs))
        = ((cs_folders cs)(tempId := None))(f_id createdF \<mapsto> createdF) \<and>
      (f_id createdF \<noteq> tempId \<longrightarrow>
         cs_folders (snd (createFolderOptimistic a tempId opId iso1 iso2 now cf cs)) tempId
           = None))"
proof -
  have a: "op_type x = Create \<and> entityType x = NoteEntity \<and>
    notes_create a (noteCreateData (data x)) = Inr created \<longrightarrow>
      fst (executeOperation a x s) = Inr succeeded \<and>
      cs_notes (content (snd (executeOperation a x s)))
        = ((cs_notes (content s))(entityId x := None))(n_id created \<mapsto> created) \<and>
      db_notes (storage (snd (executeOperation a x s)))
        = ((db_notes (storage s))(entityId x := None))(n_id created \<mapsto> created) \<and>
      (n_id created \<noteq> entityId x \<longrightarrow>
         cs_notes (content (snd (executeOperation a x s))) (entityId x) = None \<and>
         db_notes (storage (snd (executeOperation a x s))) (entityId x) = None \<and>
         cs_notes (content (snd (executeOperation a x s))) (n_id created) = Some created \<and>
         db_notes (storage (snd (executeOperation a x s))) (n_id created) = Some created)"
    by (simp add: executeOperation_create_note saveNote_def deleteNote_def)
  have b: "op_type x = Create \<and> entityType x = FolderEntity \<and>
    folders_create a (folderCreateData (data x)) = Inr createdF \<longrightarrow>
      fst (executeOperation a x s) = Inr succeeded \<and>
      cs_folders (content (snd (executeOperation a x s)))
        = ((cs_folders (content s))(entityId x := None))(f_id createdF \<mapsto> createdF) \<and>
      db_folders (storage (snd (executeOperation a x s)))
        = ((db_folders (storage s))(entityId x := None))(f_id createdF \<mapsto> createdF) \<and>
      (f_id createdF \<noteq> entityId x \<longrightarrow>
         cs_folders (content (snd (executeOperation a x s))) (entityId x) = None \<and>
         db_folders (storage (snd (executeOperation a x s))) (entityId x) = None \<and>
         cs_folders (content (snd (executeOperation a x s))) (f_id createdF) = Some createdF \<and>
         db_folders (storage (snd (executeOperation a x s))) (f_id createdF) = Some createdF)"
    by (simp add: executeOperation_create_folder saveFolder_def deleteFolder_def)
  have c: "notes_create a (noteBody cn) = Inr created \<longrightarrow>
      fst (createNoteOptimistic a tempId opId iso1 iso2 now cn cs) = Inr created \<and>
      cs_notes (snd (createNoteOptimistic a tempId opId iso1 iso2 now cn cs))
        = ((cs_notes cs)(tempId := None))(n_id created \<mapsto> created) \<and>
      (n_id created \<noteq> tempId \<longrightarrow>
         cs_notes (snd (createNoteOptimistic a tempId opId iso1 iso2 now cn cs)) tempId = None)"
    by (simp add: createNoteOptimistic_def Let_def)
  have e: "folders_create a (folderBody cf) = Inr createdF \<longrightarrow>
      fst (createFolderOptimistic a tempId opId iso1 iso2 now cf cs) = Inr createdF \<and>
      cs_folders (snd (createFolderOptimistic a tempId opId iso1 iso2 now cf cs))
        = ((cs_folders cs)(tempId := None))(f_id createdF \<mapsto> createdF) \<and>
      (f_id createdF \<noteq> tempId \<longrightarrow>
         cs_folders (snd (createFolderOptimistic a tempId opId iso1 iso2 now cf cs)) tempId
           = None)"
    by (simp add: createFolderOptimistic_def Let_def)
  show ?thesis by (rule conjI [OF a conjI [OF b conjI [OF c e]]])
qed


text \<open>The draft created offline is confirmed as \<open>n-42\<close>: afterwards neither the
  projection nor the durable store holds anything under \<open>temp_1_x\<close>, and both hold the
  server's record under \<open>n-42\<close>.\<close>

theorem provisional_entity_replaced_witness:
  "fst (executeOperation (answeringApi storedDraft folder1) (draftCreate ''op_1_a'' ''temp_1_x'' 1)
          draftQueued) = Inr succeeded \<and>
   cs_notes (content draftQueued) ''temp_1_x'' = Some provisionalDraft \<and>
   cs_notes (content (snd (executeOperation (answeringApi storedDraft folder1)
       (draftCreate ''op_1_a'' ''temp_1_x'' 1) draftQueued))) ''temp_1_x'' = None \<and>
   db_notes (storage (snd (executeOperation (answeringApi storedDraft folder1)
       (draftCreate ''op_1_a'' ''temp_1_x'' 1) draftQueued))) ''temp_1_x'' = None \<and>
   cs_notes (content (snd (executeOperation (answeringApi storedDraft folder1)
       (draftCreate ''op_1_a'' ''temp_1_x'' 1) draftQueued))) ''n-42'' = Some storedDraft \<and>
   db_notes (storage (snd (executeOperation (answeringApi storedDraft folder1)
       (draftCreate ''op_1_a'' ''temp_1_x'' 1) draftQueued))) ''n-42'' = Some storedDraft"
proof -
  let ?x = "draftCreate ''op_1_a'' ''temp_1_x'' 1"
  let ?a = "answeringApi storedDraft folder1"
  let ?s' = "snd (executeOperation ?a ?x draftQueued)"
  have hyp: "op_type ?x = Create \<and> entityType ?x = NoteEntity \<and>
             notes_create ?a (noteCreateData (data ?x)) = Inr storedDraft"
    by (simp add: draftCreate_def answeringApi_def)
  have ids: "n_id storedDraft \<noteq> entityId ?x" by (simp add: storedDraft_def draftCreate_def)
  have T: "fst (executeOperation ?a ?x draftQueued) = Inr succeeded \<and>
      cs_notes (content ?s')
        = ((cs_notes (content draftQueued))(entityId ?x := None))(n_id storedDraft \<mapsto> storedDraft) \<and>
      db_notes (storage ?s')
        = ((db_notes (storage draftQueued))(entityId ?x := None))(n_id storedDraft \<mapsto> storedDraft) \<and>
      (n_id storedDraft \<noteq> entityId ?x \<longrightarrow>
         cs_notes (content ?s') (entityId ?x) = None \<and>
         db_notes (storage ?s') (entityId ?x) = None \<and>
         cs_notes (content ?s') (n_id storedDraft) = Some storedDraft \<and>
         db_notes (storage ?s') (n_id storedDraft) = Some storedDraft)"
    using provisional_entity_replaced
            [where x = ?x and a = ?a and created = storedDraft and s = draftQueued,
             THEN conjunct1] hyp
    by (rule mp)
  have P: "cs_notes (content ?s') (entityId ?x) = None \<and>
         db_notes (storage ?s') (entityId ?x) = None \<and>
         cs_notes (content ?s') (n_id storedDraft) = Some storedDraft \<and>
         db_notes (storage ?s') (n_id storedDraft) = Some storedDraft"
    using T [THEN conjunct2, THEN conjunct2, THEN conjunct2] ids by (rule mp)
  have e: "entityId ?x = ''temp_1_x''" by (simp add: draftCreate_def)
  have n: "n_id storedDraft = ''n-42''" by (simp add: storedDraft_def)
  have before: "cs_notes (content draftQueued) ''temp_1_x'' = Some provisionalDraft"
    by (simp add: draftQueued_def freshState_def initialState_def)
  show ?thesis
    using T [THEN conjunct1] P before by (simp only: e n)
qed


section \<open>Discarding a conflicted operation\<close>

lemma cancelOperation_log:
  "db_operations (storage (cancelOperation i s))
     = filter (\<lambda>x. op_id x \<noteq> i) (db_operations (storage s))"
  by (simp add: cancelOperation_def Let_def emit_def deleteNote_def deleteFolder_def
        deleteOperation_def split: option.splits)

lemma cancelOperation_entities:
  assumes "findOperation i (db_operations (storage s)) = Some x"
  shows "(op_type x \<noteq> Create \<longrightarrow>
            content (cancelOperation i s) = content s \<and>
            db_notes (storage (cancelOperation i s)) = db_notes (storage s) \<and>
            db_folders (storage (cancelOperation i s)) = db_folders (storage s)) \<and>
         (op_type x = Create \<and> entityType x = NoteEntity \<longrightarrow>
            cs_notes (content (cancelOperation i s)) = (cs_notes (content s))(entityId x := None) \<and>
            db_notes (storage (cancelOperation i s)) = (db_notes (storage s))(entityId x := None)) \<and>
         (op_type x = Create \<and> entityType x = FolderEntity \<longrightarrow>
            cs_folders (content (cancelOperation i s))
              = (cs_folders (content s))(entityId x := None) \<and>
            db_folders (storage (cancelOperation i s))
              = (db_folders (storage s))(entityId x := None))"
  using assms
  by (cases "entityType x")
     (simp_all add: cancelOperation_def Let_def emit_def getOperations_def deleteNote_def
        deleteFolder_def deleteOperation_def)

lemma cs_notes_log_actions [simp]:
  "cs_notes (setTimeout t ms cs) = cs_notes cs"
  "cs_notes (updateOptimisticOp opId st e cs) = cs_notes cs"
  by (simp_all add: setTimeout_def updateOptimisticOp_def)

lemma resolveConflict_reject_note:
  assumes "find (\<lambda>x. oo_id x = opId) (optimisticOps cs) = Some x"
      and "originalData x = Some orig" and "oo_entityType x = NoteEntity"
      and "cs_notes cs (oo_entityId x) = Some cur"
  shows "cs_notes (resolveConflict opId Reject cs)
           = (cs_notes cs)(oo_entityId x \<mapsto> assignNote cur orig)"
  using assms by (simp add: resolveConflict_def)

lemma conflictedEdit_cancelled:
  "content (cancelOperation ''op1'' conflictedEdit) = content conflictedEdit \<and>
   db_operations (storage (cancelOperation ''op1'' conflictedEdit)) = []"
  by (simp add: cancelOperation_def Let_def emit_def getOperations_def deleteOperation_def
        conflictedEdit_def freshState_def emptyDb_def)

text \<open>
  Claim C4 as stated fails. The update of note \<open>n1\<close> to the title \<open>Local\<close> has run into
  a conflict; the server holds version 4 with the title \<open>Remote\<close>. Discarding the
  operation with \<^verbatim>\<open>cancelOperation\<close> empties the log and leaves the projection as it
  was: it still shows \<open>Local\<close>. The store's own \<^verbatim>\<open>resolveConflict\<close> with \<^verbatim>\<open>reject\<close>
  puts back the snapshot taken before the edit, version 3 with the title \<open>Server\<close>.
  Neither shows the remote's record.
\<close>

theorem discard_keeps_local_counterexample:
  "db_operations (storage (cancelOperation ''op1'' conflictedEdit)) = [] \<and>
   cs_notes (content (cancelOperation ''op1'' conflictedEdit)) ''n1'' = Some localNote \<and>
   cs_notes (resolveConflict ''temp_9'' Reject editInStore) ''n1'' = Some serverNote \<and>
   n_title localNote = ''Local'' \<and> n_title serverNote = ''Server'' \<and>
   n_title remoteNote = ''Remote'' \<and> n_version remoteNote = 4 \<and> n_version serverNote = 3"
proof -
  have a: "db_operations (storage (cancelOperation ''op1'' conflictedEdit)) = []"
    by (rule conflictedEdit_cancelled [THEN conjunct2])
  have b: "cs_notes (content (cancelOperation ''op1'' conflictedEdit)) ''n1'' = Some localNote"
    by (simp add: conflictedEdit_cancelled) (simp add: conflictedEdit_def freshState_def)
  have c: "cs_notes (resolveConflict ''temp_9'' Reject editInStore) ''n1'' = Some serverNote"
    by (simp add: resolveConflict_def editInStore_def optimisticOp_def initialState_def
          localNote_def serverNote_def)
  have e: "n_title localNote = ''Local'' \<and> n_title serverNote = ''Server'' \<and>
           n_title remoteNote = ''Remote'' \<and> n_version remoteNote = 4 \<and> n_version serverNote = 3"
    by (simp add: localNote_def serverNote_def remoteNote_def)
  show ?thesis by (rule conjI [OF a conjI [OF b conjI [OF c e]]])
qed

text \<open>
  Claim C4, amended. \<^verbatim>\<open>cancelOperation\<close> removes the operation entirely from the
  operation log. When the operation is a create, its provisional entity is removed
  from the projection and from the durable store; when it is an update, a delete or a
  move, the projection and the durable entities stay as they are, so the local value
  remains and nothing is set to the remote's value. \<^verbatim>\<open>resolveConflict\<close> with
  \<^verbatim>\<open>reject\<close> on a note operation that carries \<^verbatim>\<open>originalData\<close> overwrites the note in
  the projection with that snapshot, taken before the optimistic change.
\<close>

theorem discard_removes_operation:
  "db_operations (storage (cancelOperation i s))
     = filter (\<lambda>x. op_id x \<noteq> i) (db_operations (storage s)) \<and>
   findOperation i (db_operations (storage (cancelOperation i s))) = None \<and>
   (findOperation i (db_operations (storage s)) = Some x \<longrightarrow>
      (op_type x \<noteq> Create \<longrightarrow>
         content (cancelOperation i s) = content s \<and>
         db_notes (storage (cancelOperation i s)) = db_notes (storage s) \<and>
         db_folders (storage (cancelOperation i s)) = db_folders (storage s)) \<and>
      (op_type x = Create \<and> entityType x = NoteEntity \<longrightarrow>
         cs_notes (content (cancelOperation i s)) = (cs_notes (content s))(entityId x := None) \<and>
         db_notes (storage (cancelOperation i s)) = (db_notes (storage s))(entityId x := None)) \<and>
      (op_type x = Create \<and> entityType x = FolderEntity \<longrightarrow>
         cs_folders (content (cancelOperation i s))
           = (cs_folders (content s))(entityId x := None) \<and>
         db_folders (storage (cancelOperation i s))
           = (db_folders (storage s))(entityId x := None))) \<and>
   (find (\<lambda>y. oo_id y = opId) (optimisticOps cs) = Some y \<and> originalData y = Some orig \<and>
    oo_entityType y = NoteEntity \<and> cs_notes cs (oo_entityId y) = Some cur \<longrightarrow>
      cs_notes (resolveConflict opId Reject cs)
        = (cs_notes cs)(oo_entityId y \<mapsto> assignNote cur orig))"
proof -
  have a: "findOperation i (db_operations (storage s)) = Some x \<longrightarrow>
      (op_type x \<noteq> Create \<longrightarrow>
         content (cancelOperation i s) = content s \<and>
         db_notes (storage (cancelOperation i s)) = db_notes (storage s) \<and>
         db_folders (storage (cancelOperation i s)) = db_folders (storage s)) \<and>
      (op_type x = Create \<and> entityType x = NoteEntity \<longrightarrow>
         cs_notes (content (cancelOperation i s)) = (cs_notes (content s))(entityId x := None) \<and>
         db_notes (storage (cancelOperation i s)) = (db_notes (storage s))(entityId x := None)) \<and>
      (op_type x = Create \<and> entityType x = FolderEntity \<longrightarrow>
         cs_folders (content (cancelOperation i s))
           = (cs_folders (content s))(entityId x := None) \<and>
         db_folders (storage (cancelOperation i s))
           = (db_folders (storage s))(entityId x := None))"
    using cancelOperation_entities [of i s x] by (rule impI)
  have b: "find (\<lambda>y. oo_id y = opId) (optimisticOps cs) = Some y \<and> originalData y = Some orig \<and>
    oo_entityType y = NoteEntity \<and> cs_notes cs (oo_entityId y) = Some cur \<longrightarrow>
      cs_notes (resolveConflict opId Reject cs)
        = (cs_notes cs)(oo_entityId y \<mapsto> assignNote cur orig)"
    using resolveConflict_reject_note [of opId cs y orig cur] by simp
  show ?thesis
    by (rule conjI [OF cancelOperation_log conjI [OF cancelOperation_removes conjI [OF a b]]])
qed

text \<open>The conflicted update of note \<open>n1\<close> is discarded: the log is empty and the
  projection is what it was.\<close>

theorem discard_removes_operation_witness:
  "findOperation ''op1'' (db_operations (storage conflictedEdit))
     = Some ((pendingUpdate ''op1'' ''n1'' ''Local'' 10)
               \<lparr>status := Failed, retryCount := 3, lastError := Some ''Conflict detected''\<rparr>) \<and>
   findOperation ''op1'' (db_operations (storage (cancelOperation ''op1'' conflictedEdit))) = None \<and>
   content (cancelOperation ''op1'' conflictedEdit) = content conflictedEdit"
proof -
  let ?x = "(pendingUpdate ''op1'' ''n1'' ''Local'' 10)
               \<lparr>status := Failed, retryCount := 3, lastError := Some ''Conflict detected''\<rparr>"
  note T = discard_removes_operation [where i = "''op1''" and s = conflictedEdit and x = ?x]
  have found: "findOperation ''op1'' (db_operations (storage conflictedEdit)) = Some ?x"
    by (simp add: conflictedEdit_def freshState_def emptyDb_def)
  have kind: "op_type ?x \<noteq> Create" by simp
  have gone: "findOperation ''op1'' (db_operations (storage (cancelOperation ''op1'' conflictedEdit)))
                = None"
    by (rule T [THEN conjunct2, THEN conjunct1])
  have "content (cancelOperation ''op1'' conflictedEdit) = content conflictedEdit \<and>
        db_notes (storage (cancelOperation ''op1'' conflictedEdit)) = db_notes (storage conflictedEdit) \<and>
        db_folders (storage (cancelOperation ''op1'' conflictedEdit))
          = db_folders (storage conflictedEdit)"
    using T [THEN conjunct2, THEN conjunct2, THEN conjunct1, THEN mp, OF found,
             THEN conjunct1] kind
    by (rule mp)
  then have same: "content (cancelOperation ''op1'' conflictedEdit) = content conflictedEdit"
    by (rule conjunct1)
  show ?thesis by (rule conjI [OF found conjI [OF gone same]])
qed

section \<open>Push notifications\<close>

text \<open>
  Claim C8 as stated fails for folder notifications. Folder \<open>f1\<close> is in the projection
  and user \<open>u2\<close> deletes it: the handler leaves the folder in the projection and
  starts a refresh of the folder list. And an update notification for a folder starts
  a refresh although nothing is cached for it and although it carries no version; the
  same notification delivered again starts another.
\<close>

theorem folder_notification_counterexample:
  "handleFolderUpdate (Some ''u1'') (folderNotified Delete) projection1
     = ([SyncFolders], projection1) \<and>
   cs_folders projection1 ''f1'' = Some folder1 \<and>
   handleFolderUpdate (Some ''u1'') (folderNotified Update) initialState
     = ([SyncFolders], initialState) \<and>
   cs_folders initialState ''f1'' = None"
  by (simp add: handleFolderUpdate_def folderNotified_def projection1_def initialState_def)

text \<open>
  Claim C8, amended. A notification whose originating user is the local user changes
  nothing and starts nothing. Otherwise, for a note: a delete removes the note from
  the projection, a create starts a refresh of the note list, an update starts that
  refresh exactly when the note is cached with a version strictly below the
  notification's, and leaves the projection as it is (a move always starts the
  refresh). For a folder, every notification of another user, delete and update
  included, starts a refresh of the folder list and leaves the projection as it is;
  no version is compared.
\<close>

theorem notification_handling:
  "(Some (m_user_id d) = u \<longrightarrow> handleNoteUpdate u d cs = ([], cs)) \<and>
   (Some (m_user_id d) \<noteq> u \<longrightarrow>
      (m_operation d = Delete \<longrightarrow>
         handleNoteUpdate u d cs = ([], removeNote (m_note_id d) cs) \<and>
         cs_notes (removeNote (m_note_id d) cs) (m_note_id d) = None) \<and>
      (m_operation d = Create \<longrightarrow> handleNoteUpdate u d cs = ([SyncNotes], cs)) \<and>
      (m_operation d = Update \<longrightarrow>
         snd (handleNoteUpdate u d cs) = cs \<and>
         fst (handleNoteUpdate u d cs)
           = (if \<exists>n. cs_notes cs (m_note_id d) = Some n \<and> n_version n < m_version d
              then [SyncNotes] else [])) \<and>
      (m_operation d = Move \<longrightarrow> handleNoteUpdate u d cs = ([SyncNotes], cs))) \<and>
   (Some (fm_user_id g) = u \<longrightarrow> handleFolderUpdate u g cs = ([], cs)) \<and>
   (Some (fm_user_id g) \<noteq> u \<longrightarrow> handleFolderUpdate u g cs = ([SyncFolders], cs))"
proof -
  have a: "Some (m_user_id d) = u \<longrightarrow> handleNoteUpdate u d cs = ([], cs)"
    by (simp add: handleNoteUpdate_def)
  have b: "Some (m_user_id d) \<noteq> u \<longrightarrow>
      (m_operation d = Delete \<longrightarrow>
         handleNoteUpdate u d cs = ([], removeNote (m_note_id d) cs) \<and>
         cs_notes (removeNote (m_note_id d) cs) (m_note_id d) = None) \<and>
      (m_operation d = Create \<longrightarrow> handleNoteUpdate u d cs = ([SyncNotes], cs)) \<and>
      (m_operation d = Update \<longrightarrow>
         snd (handleNoteUpdate u d cs) = cs \<and>
         fst (handleNoteUpdate u d cs)
           = (if \<exists>n. cs_notes cs (m_note_id d) = Some n \<and> n_version n < m_version d
              then [SyncNotes] else [])) \<and>
      (m_operation d = Move \<longrightarrow> handleNoteUpdate u d cs = ([SyncNotes], cs))"
    by (cases "cs_notes cs (m_note_id d)") (simp_all add: handleNoteUpdate_def removeNote_def)
  have c: "Some (fm_user_id g) = u \<longrightarrow> handleFolderUpdate u g cs = ([], cs)"
    by (simp add: handleFolderUpdate_def)
  have e: "Some (fm_user_id g) \<noteq> u \<longrightarrow> handleFolderUpdate u g cs = ([SyncFolders], cs)"
    by (cases "fm_operation g") (simp_all add: handleFolderUpdate_def)
  show ?thesis by (rule conjI [OF a conjI [OF b conjI [OF c e]]])
qed

text \<open>Note \<open>n1\<close> is cached at version 3: an update to version 4 by \<open>u2\<close> starts a
  refresh, the update to version 3 delivered again starts none, and the user's own
  update starts none. A folder moved by \<open>u2\<close> starts a refresh of the folder list.\<close>

theorem notification_handling_witness:
  "handleNoteUpdate (Some ''u1'') (noteUpdated 4) projection1 = ([SyncNotes], projection1) \<and>
   handleNoteUpdate (Some ''u1'') (noteUpdated 3) projection1 = ([], projection1) \<and>
   handleNoteUpdate (Some ''u2'') (noteUpdated 4) projection1 = ([], projection1) \<and>
   handleFolderUpdate (Some ''u1'') (folderNotified Move) projection1
     = ([SyncFolders], projection1)"
proof -
  note T = notification_handling [where u = "Some ''u1''" and cs = projection1]
  have other: "Some (m_user_id (noteUpdated v)) \<noteq> Some ''u1''" for v
    by (simp add: noteUpdated_def)
  have upd: "m_operation (noteUpdated v) = Update" for v by (simp add: noteUpdated_def)
  have cached: "cs_notes projection1 (m_note_id (noteUpdated v)) = Some serverNote" for v
    by (simp add: noteUpdated_def projection1_def)
  have v3: "n_version serverNote = 3" by (simp add: serverNote_def)
  have U: "snd (handleNoteUpdate (Some ''u1'') (noteUpdated v) projection1) = projection1 \<and>
           fst (handleNoteUpdate (Some ''u1'') (noteUpdated v) projection1)
             = (if \<exists>n. cs_notes projection1 (m_note_id (noteUpdated v)) = Some n \<and>
                        n_version n < m_version (noteUpdated v)
                then [SyncNotes] else [])" for v
    using T [where d = "noteUpdated v", THEN conjunct2, THEN conjunct1] other [of v] upd [of v]
    by simp
  have a: "handleNoteUpdate (Some ''u1'') (noteUpdated 4) projection1 = ([SyncNotes], projection1)"
    using U [of 4] cached [of 4] v3
    by (cases "handleNoteUpdate (Some ''u1'') (noteUpdated 4) projection1")
       (simp add: noteUpdated_def)
  have b: "handleNoteUpdate (Some ''u1'') (noteUpdated 3) projection1 = ([], projection1)"
    using U [of 3] cached [of 3] v3
    by (cases "handleNoteUpdate (Some ''u1'') (noteUpdated 3) projection1")
       (simp add: noteUpdated_def)
  have c: "handleNoteUpdate (Some ''u2'') (noteUpdated 4) projection1 = ([], projection1)"
    using notification_handling [where u = "Some ''u2''" and cs = projection1
            and d = "noteUpdated 4", THEN conjunct1]
    by (simp add: noteUpdated_def)
  have "Some (fm_user_id (folderNotified Move)) \<noteq> Some ''u1''"
    by (simp add: folderNotified_def)
  then have f: "handleFolderUpdate (Some ''u1'') (folderNotified Move) projection1
                  = ([SyncFolders], projection1)"
    by (rule T [where g = "folderNotified Move", THEN conjunct2, THEN conjunct2, THEN conjunct2,
                THEN mp])
  show ?thesis by (rule conjI [OF a conjI [OF b conjI [OF c f]]])
qed

end
